(* ===== verification/Tux_Prelude.thy ===== *)
theory Tux_Prelude
  imports Main "HOL-Library.Word"
begin

text \<open>
  Shared vocabulary of the development: the C integer types, the outcome of a
  C function (normal return, non-local exit, fault), the state-passing
  combinators the components are written with, their weakest preconditions,
  and the byte memory of the host process.
\<close>

unbundle bit_operations_syntax

named_theorems wp_rules \<open>weakest precondition equations of the program combinators\<close>
named_theorems heap_defs \<open>definitions of the object-store accessors\<close>
named_theorems frame_rules \<open>which parts of the state an operation leaves alone\<close>
named_theorems keep_rules \<open>programs that keep a property of the state\<close>

section \<open>C data\<close>

type_synonym u8 = "8 word"
type_synonym u16 = "16 word"
type_synonym u32 = "32 word"
type_synonym u64 = "64 word"

text \<open>
  Objects the C code allocates with \<^verbatim>\<open>malloc\<close> or \<^verbatim>\<open>calloc\<close> live in typed stores
  (partial maps) and are named by an abstract pointer; 0 is \<^verbatim>\<open>NULL\<close>.
  Addresses inside a sandbox (\<^verbatim>\<open>lfiptr_t\<close>) are 64-bit words.
\<close>

type_synonym ptr = nat
type_synonym lfiptr_t = u64
type_synonym bytes = "u8 list"
type_synonym memory = "u64 \<Rightarrow> u8"

abbreviation (input) NULL :: ptr where "NULL \<equiv> 0"

text \<open>
  Implicit conversions at the call of a system call handler: a register
  (\<^verbatim>\<open>uintptr_t\<close>) passed where the handler has an \<^verbatim>\<open>int\<close>, an \<^verbatim>\<open>unsigned\<close>
  or a \<^verbatim>\<open>long\<close>, and the conversion of a signed result back to a register.
\<close>

definition c_int :: "u64 \<Rightarrow> int" where
  "c_int a = sint (ucast a :: u32)"

definition c_uint :: "u64 \<Rightarrow> u32" where
  "c_uint a = ucast a"

definition c_long :: "u64 \<Rightarrow> int" where
  "c_long a = sint a"

definition to_reg :: "int \<Rightarrow> u64" where
  "to_reg r = word_of_int r"

text \<open>Signed addition on \<^verbatim>\<open>ssize_t\<close>, which wraps under \<^verbatim>\<open>-fno-strict-overflow\<close>.\<close>

definition add_ssize :: "int \<Rightarrow> int \<Rightarrow> int" where
  "add_ssize a b = signed_take_bit 63 (a + b)"

lemma add_ssize_exact [simp]:
  "- (2 ^ 63) \<le> a + b \<Longrightarrow> a + b < 2 ^ 63 \<Longrightarrow> add_ssize a b = a + b"
  by (simp add: add_ssize_def signed_take_bit_int_eq_self)

lemma c_int_range: "- (2 ^ 31) \<le> c_int a" "c_int a < 2 ^ 31"
  using sint_greater_eq [of "ucast a :: u32"] sint_less [of "ucast a :: u32"]
  by (simp_all add: c_int_def)

lemma c_int_to_reg:
  assumes "- (2 ^ 31) \<le> r" and "r < 2 ^ 31"
  shows "c_int (to_reg r) = r"
proof -
  have "(ucast (word_of_int r :: u64) :: u32) = word_of_int r"
    by (rule bit_word_eqI) (simp add: bit_ucast_iff bit_word_of_int_iff)
  with assms show ?thesis
    by (simp add: c_int_def to_reg_def sint_sbintrunc' signed_take_bit_int_eq_self)
qed

section \<open>Outcomes and programs\<close>

text \<open>
  A fault ends the whole host process: a failed \<^verbatim>\<open>assert\<close>, or an access C
  leaves undefined (through \<^verbatim>\<open>NULL\<close>, to an object that was freed or never
  written, outside the bounds of an array, the release of a static object, division by 0).  \<open>Exit\<close> is the non-local transfer
  of \<^verbatim>\<open>lfi_ctx_exit\<close>/\<^verbatim>\<open>lfi_ctx_pause\<close>, which abandons the handler and returns
  from \<^verbatim>\<open>lfi_ctx_run\<close> with the code.
\<close>

datatype fault = AssertFail | NullDeref | Dangling | OutOfBounds | BadFree | DivByZero

datatype ('a, 's) outcome = Ret 'a 's | Exit u64 's | Fault fault

type_synonym ('s, 'a) prog = "'s \<Rightarrow> ('a, 's) outcome"

definition ret :: "'a \<Rightarrow> ('s, 'a) prog" where
  "ret x s = Ret x s"

definition raise :: "fault \<Rightarrow> ('s, 'a) prog" where
  "raise e s = Fault e"

definition exit_with :: "u64 \<Rightarrow> ('s, 'a) prog" where
  "exit_with c s = Exit c s"

definition bindM :: "('s, 'a) prog \<Rightarrow> ('a \<Rightarrow> ('s, 'b) prog) \<Rightarrow> ('s, 'b) prog" where
  "bindM m f s = (case m s of Ret x t \<Rightarrow> f x t | Exit c t \<Rightarrow> Exit c t | Fault e \<Rightarrow> Fault e)"

definition gets :: "('s \<Rightarrow> 'a) \<Rightarrow> ('s, 'a) prog" where
  "gets f s = Ret (f s) s"

definition modifyM :: "('s \<Rightarrow> 's) \<Rightarrow> ('s, unit) prog" where
  "modifyM f s = Ret () (f s)"

text \<open>\<^verbatim>\<open>assert(b)\<close>.\<close>

definition assertM :: "bool \<Rightarrow> ('s, unit) prog" where
  "assertM b = (if b then ret () else raise AssertFail)"

text \<open>A body run for each element in order, as a \<^verbatim>\<open>for\<close> loop does.\<close>

fun forM :: "'b list \<Rightarrow> ('b \<Rightarrow> ('s, unit) prog) \<Rightarrow> ('s, unit) prog" where
  "forM [] f = ret ()"
| "forM (x # xs) f = bindM (f x) (\<lambda>_. forM xs f)"

text \<open>Reading an object through a pointer.\<close>

definition deref :: "('s \<Rightarrow> ptr \<Rightarrow> 'b option) \<Rightarrow> ptr \<Rightarrow> ('s, 'b) prog" where
  "deref sel p s =
     (if p = NULL then Fault NullDeref
      else case sel s p of None \<Rightarrow> Fault Dangling | Some v \<Rightarrow> Ret v s)"

section \<open>Weakest preconditions\<close>

text \<open>
  \<open>wp F m Q E s\<close>: run from \<open>s\<close>, \<open>m\<close> returns in a state satisfying \<open>Q\<close>,
  or exits in a state satisfying \<open>E\<close>, or ends in a fault allowed by \<open>F\<close>.
  \<open>F = (\<lambda>_. False)\<close> is total correctness, \<open>F = (\<lambda>e. e = AssertFail)\<close>
  rules out every undefined behaviour but a failed assertion.
\<close>

definition wp :: "(fault \<Rightarrow> bool) \<Rightarrow> ('s, 'a) prog \<Rightarrow> ('a \<Rightarrow> 's \<Rightarrow> bool) \<Rightarrow> ('s \<Rightarrow> bool) \<Rightarrow> 's \<Rightarrow> bool" where
  "wp F m Q E s = (case m s of Ret x t \<Rightarrow> Q x t | Exit c t \<Rightarrow> E t | Fault e \<Rightarrow> F e)"

abbreviation no_fault :: "fault \<Rightarrow> bool" where "no_fault \<equiv> \<lambda>_. False"
abbreviation any_fault :: "fault \<Rightarrow> bool" where "any_fault \<equiv> \<lambda>_. True"
abbreviation only_assert :: "fault \<Rightarrow> bool" where "only_assert \<equiv> \<lambda>e. e = AssertFail"

text \<open>
  The equations leave the state implicit on the left, so that they also
  rewrite a precondition that stands as the postcondition of an earlier step.
\<close>

lemma wp_bind [wp_rules]: "wp F (bindM m f) Q E = wp F m (\<lambda>x. wp F (f x) Q E) E"
  by (rule ext) (simp add: wp_def bindM_def split: outcome.split)

lemma wp_ret [wp_rules]: "wp F (ret x) Q E = Q x"
  by (rule ext) (simp add: wp_def ret_def)

lemma wp_raise [wp_rules]: "wp F (raise e) Q E = (\<lambda>s. F e)"
  by (rule ext) (simp add: wp_def raise_def)

lemma wp_exit [wp_rules]: "wp F (exit_with c) Q E = E"
  by (rule ext) (simp add: wp_def exit_with_def)

lemma wp_gets [wp_rules]: "wp F (gets f) Q E = (\<lambda>s. Q (f s) s)"
  by (rule ext) (simp add: wp_def gets_def)

lemma wp_modify [wp_rules]: "wp F (modifyM f) Q E = (\<lambda>s. Q () (f s))"
  by (rule ext) (simp add: wp_def modifyM_def)

lemma wp_if [wp_rules]:
  "wp F (if b then m else n) Q E = (\<lambda>s. (b \<longrightarrow> wp F m Q E s) \<and> (\<not> b \<longrightarrow> wp F n Q E s))"
  by auto

lemma wp_assert [wp_rules]: "wp F (assertM b) Q E = (\<lambda>s. (b \<longrightarrow> Q () s) \<and> (\<not> b \<longrightarrow> F AssertFail))"
  by (simp add: assertM_def wp_rules)

lemma wp_deref [wp_rules]:
  "wp F (deref sel p) Q E =
     (\<lambda>s. if p = NULL then F NullDeref
      else case sel s p of None \<Rightarrow> F Dangling | Some v \<Rightarrow> Q v s)"
  by (rule ext) (simp add: wp_def deref_def split: option.split)

lemma wp_case_prod [wp_rules]: "wp F (case p of (a, b) \<Rightarrow> m a b) Q E = wp F (m (fst p) (snd p)) Q E"
  by (simp add: split_beta)

lemma wp_mono:
  assumes "wp F m Q E s"
    and "\<And>x t. Q x t \<Longrightarrow> Q' x t" and "\<And>t. E t \<Longrightarrow> E' t" and "\<And>e. F e \<Longrightarrow> F' e"
  shows "wp F' m Q' E' s"
  using assms by (auto simp: wp_def split: outcome.splits)

text \<open>Calling a function whose specification is known.\<close>

lemma wp_bindI:
  assumes "wp F m R E s" and "\<And>x t. R x t \<Longrightarrow> wp F (f x) Q E t"
  shows "wp F (bindM m f) Q E s"
  using assms by (auto simp: wp_bind elim: wp_mono)

lemma wp_weaken_fault: "wp no_fault m Q E s \<Longrightarrow> wp F m Q E s"
  by (erule wp_mono) auto

lemma wp_Ret: "wp F m Q E s \<Longrightarrow> m s = Ret x t \<Longrightarrow> Q x t"
  by (simp add: wp_def)

lemma wp_conj:
  "wp F m (\<lambda>x t. Q x t \<and> R x t) E s \<longleftrightarrow> wp F m Q E s \<and> wp F m R E s"
  by (auto simp: wp_def split: outcome.splits)

lemma wp_with: "wp F m Q E s \<Longrightarrow> wp any_fault m R (\<lambda>_. True) s \<Longrightarrow> wp F m (\<lambda>x t. Q x t \<and> R x t) E s"
  by (auto simp: wp_def split: outcome.splits)

text \<open>An invariant of the body is an invariant of the loop.\<close>

lemma wp_forM:
  assumes "\<And>x t. x \<in> set xs \<Longrightarrow> I t \<Longrightarrow> wp F (f x) (\<lambda>_. I) E t" and "I s"
  shows "wp F (forM xs f) (\<lambda>_. I) E s"
  using assms
proof (induction xs arbitrary: s)
  case Nil
  then show ?case by (simp add: wp_rules)
next
  case (Cons x xs)
  have "wp F (f x) (\<lambda>_. I) E s" using Cons.prems by simp
  then have "wp F (f x) (\<lambda>_. wp F (forM xs f) (\<lambda>_. I) E) E s"
    by (rule wp_mono) (use Cons in auto)
  then show ?case by (simp add: wp_rules)
qed

text \<open>Evaluation of the combinators on a concrete state.\<close>

lemmas run_simps =
  bindM_def ret_def raise_def exit_with_def gets_def modifyM_def assertM_def deref_def

section \<open>Byte memory\<close>

definition load_bytes :: "memory \<Rightarrow> u64 \<Rightarrow> nat \<Rightarrow> bytes" where
  "load_bytes m a n = map (\<lambda>i. m (a + of_nat i)) [0..<n]"

text \<open>Bytes \<open>bs\<close> written from address \<open>a\<close> upwards (\<^verbatim>\<open>memcpy\<close>).\<close>

definition store_bytes :: "memory \<Rightarrow> u64 \<Rightarrow> bytes \<Rightarrow> memory" where
  "store_bytes m a bs = (\<lambda>x. if unat (x - a) < length bs then bs ! unat (x - a) else m x)"

text \<open>A range filled with given contents, as a mapping made by \<^verbatim>\<open>mmap\<close> does.\<close>

definition fill_range :: "memory \<Rightarrow> u64 \<Rightarrow> u64 \<Rightarrow> (nat \<Rightarrow> u8) \<Rightarrow> memory" where
  "fill_range m a n c = (\<lambda>x. if x - a < n then c (unat (x - a)) else m x)"

text \<open>\<open>in_range x a n\<close>: address \<open>x\<close> is one of the \<open>n\<close> bytes from \<open>a\<close> on, wrapping.\<close>

definition in_range :: "u64 \<Rightarrow> u64 \<Rightarrow> u64 \<Rightarrow> bool" where
  "in_range x a n \<longleftrightarrow> x - a < n"

lemma length_load_bytes [simp]: "length (load_bytes m a n) = n"
  by (simp add: load_bytes_def)

lemma fill_range_outside: "\<not> in_range x a n \<Longrightarrow> fill_range m a n c x = m x"
  by (simp add: fill_range_def in_range_def)

lemma store_bytes_outside:
  "length bs \<le> unat n \<Longrightarrow> \<not> in_range x a n \<Longrightarrow> store_bytes m a bs x = m x"
  by (simp add: store_bytes_def in_range_def word_less_nat_alt)

lemma store_bytes_Nil [simp]: "store_bytes m a [] = m"
  by (simp add: store_bytes_def)

lemma load_store_same:
  assumes "length bs \<le> 2 ^ 64"
  shows "load_bytes (store_bytes m a bs) a (length bs) = bs"
proof (rule nth_equalityI)
  fix i assume "i < length (load_bytes (store_bytes m a bs) a (length bs))"
  then have i: "i < length bs" by simp
  then have "unat (of_nat i :: u64) = i"
    using assms by (simp add: unat_of_nat)
  then show "load_bytes (store_bytes m a bs) a (length bs) ! i = bs ! i"
    using i by (simp add: load_bytes_def store_bytes_def)
qed simp

lemma unat_add_u64: "unat a + unat b < 2 ^ 64 \<Longrightarrow> unat (a + b :: u64) = unat a + unat b"
  by (simp add: unat_word_ariths)

lemma unat_sub_u64: "b \<le> a \<Longrightarrow> unat (a - b :: u64) = unat a - unat b"
  by (simp add: unat_sub)

text \<open>A range that neither wraps nor leaves an interval lies in the interval.\<close>

lemma in_range_interval:
  assumes "in_range x a n" and "lo \<le> a" and "unat a + unat n \<le> unat hi"
  shows "lo \<le> x \<and> x < hi"
proof -
  have xa: "unat (x - a) < unat n"
    using assms(1) by (simp add: in_range_def word_less_nat_alt)
  then have "unat a + unat (x - a) < 2 ^ 64"
    using assms(3) unsigned_less [of hi, where 'a = nat] by simp
  from unat_add_u64 [OF this] have "unat x = unat a + unat (x - a)" by simp
  then show ?thesis
    using xa assms(2,3) by (simp add: word_le_nat_alt word_less_nat_alt)
qed

section \<open>Little-endian encoding\<close>

fun le_bytes :: "nat \<Rightarrow> u64 \<Rightarrow> bytes" where
  "le_bytes 0 v = []"
| "le_bytes (Suc n) v = ucast v # le_bytes n (drop_bit 8 v)"

fun le_word :: "bytes \<Rightarrow> u64" where
  "le_word [] = 0"
| "le_word (b # bs) = ucast b OR push_bit 8 (le_word bs)"

lemma length_le_bytes [simp]: "length (le_bytes n v) = n"
  by (induction n arbitrary: v) auto

lemma bit_le_word:
  "bit (le_word bs) i \<longleftrightarrow> i < 64 \<and> i div 8 < length bs \<and> bit (bs ! (i div 8)) (i mod 8)"
proof (induction bs arbitrary: i)
  case (Cons b bs)
  show ?case
  proof (cases "i < 8")
    case True
    then show ?thesis by (auto simp: bit_simps)
  next
    case False
    then obtain j where j: "i = 8 + j" using le_Suc_ex not_less by blast
    have "bit (ucast b :: u64) i = False"
      using j bit_imp_le_length [of b i] by (auto simp: bit_ucast_iff)
    then have "bit (le_word (b # bs)) i \<longleftrightarrow> i < 64 \<and> bit (le_word bs) j"
      using j by (simp add: bit_or_iff bit_push_bit_iff)
    moreover have "i div 8 = Suc (j div 8)" "i mod 8 = j mod 8" using j by simp_all
    ultimately show ?thesis using j Cons.IH [of j] by auto
  qed
qed simp

lemma nth_le_bytes: "i < n \<Longrightarrow> le_bytes n v ! i = ucast (drop_bit (8 * i) v)"
proof (induction n arbitrary: v i)
  case (Suc n)
  then show ?case by (cases i) (simp_all add: add.commute)
qed simp

text \<open>Decoding an encoded value gives it back, and encoding a decoded one too.\<close>

lemma le_word_le_bytes: "n \<le> 8 \<Longrightarrow> le_word (le_bytes n v) = take_bit (8 * n) v"
  by (rule bit_word_eqI)
    (auto simp: bit_le_word bit_simps nth_le_bytes less_mult_imp_div_less mult.commute
      div_less_iff_less_mult)

lemma le_bytes_le_word: "length bs \<le> 8 \<Longrightarrow> le_bytes (length bs) (le_word bs) = bs"
  by (rule nth_equalityI; (rule bit_word_eqI)?)
    (auto simp: bit_le_word bit_simps nth_le_bytes)

section \<open>Flag words\<close>

text \<open>Selecting one bit of a flag word, as \<^verbatim>\<open>(flags & F) ? F : 0\<close> does.\<close>

lemma and_bit_select: "(if x AND 2 ^ n \<noteq> 0 then 2 ^ n else 0) = (x AND 2 ^ n :: u32)"
proof (cases "bit x n")
  case True
  have "x AND 2 ^ n = 2 ^ n"
    using True by (intro bit_word_eqI) (auto simp: bit_simps bit_exp_iff)
  then show ?thesis by simp
next
  case False
  have "x AND 2 ^ n = 0"
    using False by (intro bit_word_eqI) (auto simp: bit_simps bit_exp_iff)
  then show ?thesis by simp
qed

lemma and_bit_select': "b = 2 ^ n \<Longrightarrow> (if x AND b \<noteq> 0 then b else 0) = (x AND b :: u32)"
  by (simp only: and_bit_select)

lemma flag_bits:
  "(if x AND 1 \<noteq> 0 then 1 else 0) = (x AND 1 :: u32)"
  "(if x AND 2 \<noteq> 0 then 2 else 0) = (x AND 2 :: u32)"
  "(if x AND 4 \<noteq> 0 then 4 else 0) = (x AND 4 :: u32)"
  "(if x AND 16 \<noteq> 0 then 16 else 0) = (x AND 16 :: u32)"
  "(if x AND 32 \<noteq> 0 then 32 else 0) = (x AND 32 :: u32)"
  "(if x AND 64 \<noteq> 0 then 64 else 0) = (x AND 64 :: u32)"
  "(if x AND 0x200 \<noteq> 0 then 0x200 else 0) = (x AND 0x200 :: u32)"
  "(if x AND 0x400 \<noteq> 0 then 0x400 else 0) = (x AND 0x400 :: u32)"
  "(if x AND 0x800 \<noteq> 0 then 0x800 else 0) = (x AND 0x800 :: u32)"
  "(if x AND 0x10000 \<noteq> 0 then 0x10000 else 0) = (x AND 0x10000 :: u32)"
  subgoal by (rule and_bit_select' [of _ 0]) simp
  subgoal by (rule and_bit_select' [of _ 1]) simp
  subgoal by (rule and_bit_select' [of _ 2]) simp
  subgoal by (rule and_bit_select' [of _ 4]) simp
  subgoal by (rule and_bit_select' [of _ 5]) simp
  subgoal by (rule and_bit_select' [of _ 6]) simp
  subgoal by (rule and_bit_select' [of _ 9]) simp
  subgoal by (rule and_bit_select' [of _ 10]) simp
  subgoal by (rule and_bit_select' [of _ 11]) simp
  subgoal by (rule and_bit_select' [of _ 16]) simp
  done

section \<open>Lists\<close>

lemma count_list_update:
  "i < length xs \<Longrightarrow>
   count_list (xs[i := v]) f + (if xs ! i = f then 1 else 0) =
   count_list xs f + (if v = f then 1 else (0::nat))"
proof (induction xs arbitrary: i)
  case (Cons x xs)
  then show ?case by (cases i) (auto split: if_splits dest: Cons.IH)
qed simp

lemma count_list_pos: "0 < count_list xs f \<longleftrightarrow> f \<in> set xs"
  using count_list_0_iff [of xs f] by auto

lemma count_list_le: "count_list xs f \<le> length xs"
  by (induction xs) auto

lemma count_replicate_other: "x \<noteq> f \<Longrightarrow> count_list (replicate n x) f = 0"
  by (induction n) auto

section \<open>Stores next to each other\<close>

lemma store_bytes_append:
  assumes "length xs + length ys \<le> 2 ^ 64"
  shows "store_bytes (store_bytes m a xs) (a + of_nat (length xs)) ys = store_bytes m a (xs @ ys)"
proof
  fix x
  let ?k = "unat (x - a)" and ?n = "length xs"
  show "store_bytes (store_bytes m a xs) (a + of_nat ?n) ys x = store_bytes m a (xs @ ys) x"
  proof (cases "ys = []")
    case False
    then have n: "?n < 2 ^ 64" using assms by (cases ys) auto
    then have un: "unat (of_nat ?n :: u64) = ?n" by (simp add: unat_of_nat)
    have e: "x - (a + of_nat ?n) = (x - a) - of_nat ?n" by simp
    show ?thesis
    proof (cases "?n \<le> ?k")
      case True
      then have "unat (x - (a + of_nat ?n)) = ?k - ?n" unfolding e using un by (simp add: unat_sub word_le_nat_alt)
      then show ?thesis using True by (auto simp: store_bytes_def nth_append)
    next
      case lt: False
      then have "unat (x - (a + of_nat ?n)) = ?k + 2 ^ 64 - ?n"
        unfolding e using un unat_sub_if_size [of "x - a" "of_nat ?n"] by (simp add: word_size)
      then have "\<not> unat (x - (a + of_nat ?n)) < length ys" using assms lt by linarith
      then show ?thesis using lt by (simp add: store_bytes_def nth_append)
    qed
  qed simp
qed

lemma load_store_slice:
  assumes "k + n \<le> length bs" "length bs \<le> 2 ^ 64"
  shows "load_bytes (store_bytes m a bs) (a + of_nat k) n = take n (drop k bs)"
proof (rule nth_equalityI)
  fix i assume i: "i < length (load_bytes (store_bytes m a bs) (a + of_nat k) n)"
  then have "k + i < 2 ^ 64" using assms by simp
  then have "unat (of_nat k + of_nat i :: u64) = k + i" by (simp add: unat_of_nat flip: of_nat_add)
  then show "load_bytes (store_bytes m a bs) (a + of_nat k) n ! i = take n (drop k bs) ! i"
    using i assms by (simp add: load_bytes_def store_bytes_def add.assoc)
qed (use assms in simp)

lemma load_store_other:
  assumes "\<And>i. i < n \<Longrightarrow> \<not> unat (b + of_nat i - a) < length bs"
  shows "load_bytes (store_bytes m a bs) b n = load_bytes m b n"
  using assms by (simp add: load_bytes_def store_bytes_def)

lemma load_bytes_0 [simp]: "load_bytes m a 0 = []"
  by (simp add: load_bytes_def)

lemma load_bytes_add: "load_bytes m a (i + j) = load_bytes m a i @ load_bytes m (a + of_nat i) j"
  by (rule nth_equalityI) (auto simp: load_bytes_def nth_append add.assoc simp flip: of_nat_add)

end
