(* ===== verification/Tux_Types.thy ===== *)
theory Tux_Types
  imports Tux_Prelude
begin

text \<open>
  The constants of \<^verbatim>\<open>src/types.h\<close>, \<^verbatim>\<open>src/include/lfi.h\<close> and \<^verbatim>\<open>src/proc.h\<close>, the
  constants of the Linux host the library is compiled against, and the layout
  of the structures it writes into sandbox memory (\<^verbatim>\<open>arch_types.h\<close> of both
  architectures).
\<close>

section \<open>Error numbers, open flags, at-flags\<close>

abbreviation (input) TUX_EPERM :: int where "TUX_EPERM \<equiv> 1"
abbreviation (input) TUX_ENOENT :: int where "TUX_ENOENT \<equiv> 2"
abbreviation (input) TUX_EBADF :: int where "TUX_EBADF \<equiv> 9"
abbreviation (input) TUX_EAGAIN :: int where "TUX_EAGAIN \<equiv> 11"
abbreviation (input) TUX_ENOMEM :: int where "TUX_ENOMEM \<equiv> 12"
abbreviation (input) TUX_EACCES :: int where "TUX_EACCES \<equiv> 13"
abbreviation (input) TUX_EFAULT :: int where "TUX_EFAULT \<equiv> 14"
abbreviation (input) TUX_ENOTDIR :: int where "TUX_ENOTDIR \<equiv> 20"
abbreviation (input) TUX_EINVAL :: int where "TUX_EINVAL \<equiv> 22"
abbreviation (input) TUX_EMFILE :: int where "TUX_EMFILE \<equiv> 24"
abbreviation (input) TUX_ENOSYS :: int where "TUX_ENOSYS \<equiv> 38"

abbreviation (input) TUX_SEEK_SET :: int where "TUX_SEEK_SET \<equiv> 0"
abbreviation (input) TUX_SEEK_CUR :: int where "TUX_SEEK_CUR \<equiv> 1"
abbreviation (input) TUX_SEEK_END :: int where "TUX_SEEK_END \<equiv> 2"

abbreviation (input) TUX_O_RDONLY :: u32 where "TUX_O_RDONLY \<equiv> 0x0"
abbreviation (input) TUX_O_WRONLY :: u32 where "TUX_O_WRONLY \<equiv> 0x1"
abbreviation (input) TUX_O_RDWR :: u32 where "TUX_O_RDWR \<equiv> 0x2"
abbreviation (input) TUX_O_CREAT :: u32 where "TUX_O_CREAT \<equiv> 0x40"
abbreviation (input) TUX_O_TRUNC :: u32 where "TUX_O_TRUNC \<equiv> 0x200"
abbreviation (input) TUX_O_APPEND :: u32 where "TUX_O_APPEND \<equiv> 0x400"
abbreviation (input) TUX_O_NONBLOCK :: u32 where "TUX_O_NONBLOCK \<equiv> 0x800"
abbreviation (input) TUX_O_DIRECTORY :: u32 where "TUX_O_DIRECTORY \<equiv> 0x10000"
abbreviation (input) TUX_O_CLOEXEC :: u32 where "TUX_O_CLOEXEC \<equiv> 0x80000"
abbreviation (input) TUX_O_PATH :: u32 where "TUX_O_PATH \<equiv> 0x200000"

abbreviation (input) TUX_AT_FDCWD :: int where "TUX_AT_FDCWD \<equiv> -100"
abbreviation (input) TUX_AT_REMOVEDIR :: u32 where "TUX_AT_REMOVEDIR \<equiv> 0x200"
abbreviation (input) TUX_AT_EMPTY_PATH :: u32 where "TUX_AT_EMPTY_PATH \<equiv> 0x1000"

abbreviation (input) TUX_GRND_NONBLOCK :: u32 where "TUX_GRND_NONBLOCK \<equiv> 1"
abbreviation (input) TUX_GRND_RANDOM :: u32 where "TUX_GRND_RANDOM \<equiv> 2"

section \<open>Mappings\<close>

abbreviation (input) LFI_MAP_SHARED :: u32 where "LFI_MAP_SHARED \<equiv> 1"
abbreviation (input) LFI_MAP_PRIVATE :: u32 where "LFI_MAP_PRIVATE \<equiv> 2"
abbreviation (input) LFI_MAP_FIXED :: u32 where "LFI_MAP_FIXED \<equiv> 16"
abbreviation (input) LFI_MAP_ANONYMOUS :: u32 where "LFI_MAP_ANONYMOUS \<equiv> 32"
abbreviation (input) LFI_MAP_DENYWRITE :: u32 where "LFI_MAP_DENYWRITE \<equiv> 2048"
abbreviation (input) LFI_MAP_NORESERVE :: u32 where "LFI_MAP_NORESERVE \<equiv> 16384"

abbreviation (input) LFI_PROT_NONE :: u32 where "LFI_PROT_NONE \<equiv> 0"
abbreviation (input) LFI_PROT_READ :: u32 where "LFI_PROT_READ \<equiv> 1"
abbreviation (input) LFI_PROT_WRITE :: u32 where "LFI_PROT_WRITE \<equiv> 2"
abbreviation (input) LFI_PROT_EXEC :: u32 where "LFI_PROT_EXEC \<equiv> 4"

section \<open>Limits of a process\<close>

abbreviation (input) TUX_PATH_MAX :: nat where "TUX_PATH_MAX \<equiv> 4096"
abbreviation (input) TUX_NOFILE :: nat where "TUX_NOFILE \<equiv> 128"
abbreviation (input) TUX_BRKMAXSIZE :: u64 where "TUX_BRKMAXSIZE \<equiv> 512 * 1024 * 1024"

section \<open>Host constants\<close>

text \<open>
  \<^verbatim>\<open>fcntl.h\<close>, \<^verbatim>\<open>errno.h\<close>, \<^verbatim>\<open>unistd.h\<close> and \<^verbatim>\<open>sys/mman.h\<close> of a Linux host.
\<close>

abbreviation (input) ENOSYS :: int where "ENOSYS \<equiv> 38"
abbreviation (input) EINVAL :: int where "EINVAL \<equiv> 22"
abbreviation (input) AT_FDCWD :: int where "AT_FDCWD \<equiv> -100"
abbreviation (input) AT_REMOVEDIR :: u32 where "AT_REMOVEDIR \<equiv> 0x200"
abbreviation (input) O_RDONLY :: u32 where "O_RDONLY \<equiv> 0"
abbreviation (input) O_WRONLY :: u32 where "O_WRONLY \<equiv> 1"
abbreviation (input) O_RDWR :: u32 where "O_RDWR \<equiv> 2"
abbreviation (input) O_CREAT :: u32 where "O_CREAT \<equiv> 0x40"
abbreviation (input) O_APPEND :: u32 where "O_APPEND \<equiv> 0x400"
abbreviation (input) O_NONBLOCK :: u32 where "O_NONBLOCK \<equiv> 0x800"
abbreviation (input) O_DIRECTORY :: u32 where "O_DIRECTORY \<equiv> 0x10000"
abbreviation (input) SEEK_SET :: int where "SEEK_SET \<equiv> 0"
abbreviation (input) SEEK_CUR :: int where "SEEK_CUR \<equiv> 1"
abbreviation (input) SEEK_END :: int where "SEEK_END \<equiv> 2"
abbreviation (input) MAP_SHARED :: u32 where "MAP_SHARED \<equiv> 1"
abbreviation (input) MAP_PRIVATE :: u32 where "MAP_PRIVATE \<equiv> 2"
abbreviation (input) MAP_FIXED :: u32 where "MAP_FIXED \<equiv> 16"
abbreviation (input) MAP_ANONYMOUS :: u32 where "MAP_ANONYMOUS \<equiv> 32"
abbreviation (input) PROT_READ :: u32 where "PROT_READ \<equiv> 1"
abbreviation (input) PROT_WRITE :: u32 where "PROT_WRITE \<equiv> 2"
abbreviation (input) PROT_EXEC :: u32 where "PROT_EXEC \<equiv> 4"

text \<open>\<^verbatim>\<open>(void*) -1\<close>, the failure value of \<^verbatim>\<open>mmap\<close>.\<close>

abbreviation (input) MAP_FAILED :: u64 where "MAP_FAILED \<equiv> - 1"

section \<open>Structure layout\<close>

text \<open>
  A C structure is its list of scalar members with their sizes; every member
  is naturally aligned, so its offset is the end of the previous one rounded
  up to its size.
\<close>

definition align_to :: "nat \<Rightarrow> nat \<Rightarrow> nat" where
  "align_to off sz = (off + sz - 1) div sz * sz"

lemma align_to_ge: "0 < sz \<Longrightarrow> off \<le> align_to off sz"
  unfolding align_to_def using dividend_less_div_times [of sz "off + sz - 1"] by simp

fun layout :: "nat \<Rightarrow> ('f \<times> nat) list \<Rightarrow> ('f \<times> nat \<times> nat) list" where
  "layout off [] = []"
| "layout off ((f, sz) # fs) =
     (let o' = align_to off sz in (f, o', sz) # layout (o' + sz) fs)"

lemma layout_above:
  "(f, o', sz) \<in> set (layout off fs) \<Longrightarrow> \<forall>(g, s) \<in> set fs. 0 < s \<Longrightarrow> off \<le> o' \<and> 0 < sz"
proof (induction off fs rule: layout.induct)
  case (2 off g s fs)
  have "off \<le> align_to off s" using "2.prems"(2) by (simp add: align_to_ge)
  then show ?case using 2 by (fastforce simp: Let_def)
qed simp

text \<open>Two members of one structure never overlap.\<close>

lemma layout_disjoint:
  assumes "i < j" "j < length (layout off fs)" "\<forall>(g, s) \<in> set fs. 0 < s"
    and "layout off fs ! i = (f, a, s)" "layout off fs ! j = (g, b, t)"
  shows "a + s \<le> b"
  using assms
proof (induction off fs arbitrary: i j rule: layout.induct)
  case (2 off h r fs)
  then obtain j' where j: "j = Suc j'" by (cases j) auto
  show ?case
  proof (cases i)
    case 0
    have "(g, b, t) \<in> set (layout (align_to off r + r) fs)"
      using "2.prems" j by (metis Suc_less_eq layout.simps(2) length_Cons nth_Cons_Suc nth_mem)
    from layout_above [OF this] show ?thesis using "2.prems" 0 by (auto simp: Let_def)
  next
    case (Suc i')
    then show ?thesis using "2.IH" [OF refl, of i' j'] "2.prems" j by (auto simp: Let_def)
  qed
qed simp

text \<open>The end of the last member.\<close>

fun layout_end :: "nat \<Rightarrow> ('f \<times> nat) list \<Rightarrow> nat" where
  "layout_end off [] = off"
| "layout_end off ((f, sz) # fs) = layout_end (align_to off sz + sz) fs"

text \<open>
  Assigning members of the structure at address \<open>a\<close>, one after the other;
  \<open>v f = None\<close> is a member the code does not assign.
\<close>

fun store_struct :: "memory \<Rightarrow> u64 \<Rightarrow> ('f \<times> nat \<times> nat) list \<Rightarrow> ('f \<Rightarrow> u64 option) \<Rightarrow> memory" where
  "store_struct m a [] v = m"
| "store_struct m a ((f, off, sz) # fs) v =
     store_struct (case v f of None \<Rightarrow> m
                   | Some x \<Rightarrow> store_bytes m (a + of_nat off) (le_bytes sz x)) a fs v"

definition load_member :: "memory \<Rightarrow> u64 \<Rightarrow> nat \<times> nat \<Rightarrow> u64" where
  "load_member m a s = le_word (load_bytes m (a + of_nat (fst s)) (snd s))"

lemma load_below_store:
  assumes "o1 + n \<le> o2" "o2 + length bs \<le> 2 ^ 64"
  shows "load_bytes (store_bytes m (a + of_nat o2) bs) (a + of_nat o1) n = load_bytes m (a + of_nat o1) n"
proof -
  have "\<not> unat (of_nat o1 + of_nat i - of_nat o2 :: u64) < length bs" if "i < n" for i
  proof -
    have "(of_nat o1 + of_nat i - of_nat o2 :: u64) = of_nat (2 ^ 64 + (o1 + i) - o2)"
      using assms that by (simp add: of_nat_diff)
    then have "unat (of_nat o1 + of_nat i - of_nat o2 :: u64) = 2 ^ 64 + (o1 + i) - o2"
      using assms that by (simp only: unat_of_nat) simp
    then show ?thesis using assms by simp
  qed
  then show ?thesis by (simp add: load_bytes_def store_bytes_def algebra_simps)
qed

lemma layout_end_above: "\<forall>(g, s) \<in> set fs. 0 < s \<Longrightarrow> off \<le> layout_end off fs"
proof (induction off fs rule: layout_end.induct)
  case (2 off f sz fs)
  have "off \<le> align_to off sz" using "2.prems" by (simp add: align_to_ge)
  then show ?case using 2 by force
qed simp

lemma store_struct_keeps_below:
  assumes "o1 + n \<le> off" "\<forall>(g, s) \<in> set fs. 0 < s" "layout_end off fs \<le> 2 ^ 64"
  shows "load_bytes (store_struct m a (layout off fs) v) (a + of_nat o1) n = load_bytes m (a + of_nat o1) n"
  using assms
proof (induction off fs arbitrary: m rule: layout.induct)
  case (2 off f sz fs)
  let ?o = "align_to off sz"
  have "off \<le> ?o" using "2.prems" by (simp add: align_to_ge)
  moreover have "?o + sz \<le> 2 ^ 64"
    using layout_end_above [of fs "?o + sz"] "2.prems" by simp
  ultimately show ?case
    using 2 by (simp add: Let_def load_below_store split: option.split)
qed simp

text \<open>An assigned member reads back as the value, cut to the member's size.\<close>

lemma load_store_struct:
  assumes "(f, slot) \<in> set (layout off fs)" "distinct (map fst (filter (\<lambda>(g, _). v g \<noteq> None) fs))"
    and "\<forall>(g, s) \<in> set fs. 0 < s \<and> s \<le> 8" "layout_end off fs \<le> 2 ^ 64" "v f = Some x"
  shows "load_member (store_struct m a (layout off fs) v) a slot = take_bit (8 * snd slot) x"
  using assms
proof (induction off fs arbitrary: m rule: layout.induct)
  case (2 off g sz fs)
  let ?o = "align_to off sz"
  have rest: "\<forall>(g, s) \<in> set fs. 0 < s" using "2.prems" by auto
  show ?case
  proof (cases "(f, slot) = (g, ?o, sz)")
    case True
    then have "load_bytes (store_struct m a (layout off ((g, sz) # fs)) v) (a + of_nat ?o) sz
        = load_bytes (store_bytes m (a + of_nat ?o) (le_bytes sz x)) (a + of_nat ?o) sz"
      using "2.prems" rest by (simp add: Let_def store_struct_keeps_below)
    also have "\<dots> = le_bytes sz x"
      using load_store_same [of "le_bytes sz x"] "2.prems" by simp
    finally show ?thesis using True "2.prems" by (simp add: load_member_def le_word_le_bytes)
  next
    case False
    then show ?thesis using 2 by (auto simp: Let_def split: if_splits)
  qed
qed simp

datatype arch = X64 | ARM64

datatype stat_field =
  St_dev | St_ino | St_nlink | St_mode | St_uid | St_gid | St_rdev | St_size | St_blksize
| St_blocks | St_atim_sec | St_atim_nsec | St_mtim_sec | St_mtim_nsec | St_ctim_sec
| St_ctim_nsec | St_pad

text \<open>\<^verbatim>\<open>struct Stat\<close> of \<^verbatim>\<open>arch/x64/arch_types.h\<close>, then of \<^verbatim>\<open>arch/arm64/arch_types.h\<close>.\<close>

definition stat_members_x64 :: "(stat_field \<times> nat) list" where
  "stat_members_x64 =
    [(St_dev, 8), (St_ino, 8), (St_nlink, 4),
     (St_mode, 4), (St_uid, 4), (St_gid, 4), (St_pad, 4), (St_rdev, 8), (St_size, 8),
     (St_blksize, 8), (St_blocks, 8),
     (St_atim_sec, 8), (St_atim_nsec, 8), (St_mtim_sec, 8), (St_mtim_nsec, 8),
     (St_ctim_sec, 8), (St_ctim_nsec, 8), (St_pad, 8), (St_pad, 8), (St_pad, 8)]"

definition stat_members_arm64 :: "(stat_field \<times> nat) list" where
  "stat_members_arm64 =
    [(St_dev, 8), (St_ino, 8), (St_mode, 4), (St_nlink, 4), (St_uid, 4), (St_gid, 4),
     (St_rdev, 8), (St_pad, 8), (St_size, 8), (St_blksize, 4), (St_pad, 4), (St_blocks, 8),
     (St_atim_sec, 8), (St_atim_nsec, 8), (St_mtim_sec, 8), (St_mtim_nsec, 8),
     (St_ctim_sec, 8), (St_ctim_nsec, 8), (St_pad, 4), (St_pad, 4)]"

definition stat_members :: "arch \<Rightarrow> (stat_field \<times> nat) list" where
  "stat_members a = (case a of X64 \<Rightarrow> stat_members_x64 | ARM64 \<Rightarrow> stat_members_arm64)"

lemma stat_members_sizes: "\<forall>(g, s) \<in> set (stat_members a). 0 < s \<and> s \<le> 8"
  by (cases a) (simp_all add: stat_members_def stat_members_x64_def stat_members_arm64_def)

text \<open>Offset and size of a member.\<close>

definition stat_slot :: "arch \<Rightarrow> stat_field \<Rightarrow> (nat \<times> nat) option" where
  "stat_slot a f = map_of (layout 0 (stat_members a)) f"

end
