(* ===== verification/Tux_Host.thy ===== *)
theory Tux_Host
  imports Tux_Types
begin

text \<open>
  The host backend (\<^verbatim>\<open>src/host/posix/file.c\<close>, \<^verbatim>\<open>src/host/posix/time.c\<close>,
  \<^verbatim>\<open>src/host/linux/*.c\<close>, \<^verbatim>\<open>src/host/error.h\<close>, \<^verbatim>\<open>src/host.c\<close>): every function the
  library calls the host kernel through.  The kernel itself is a parameter: a
  record of functions over an abstract kernel state \<open>'x\<close>, one per system
  call, each returning the call's result and the next state.  A result of -1
  means failure, with the reason in \<open>k_errno\<close>.
\<close>

section \<open>The kernel interface\<close>

record kstat =
  kst_dev :: u64
  kst_ino :: u64
  kst_nlink :: u64
  kst_mode :: u64
  kst_uid :: u64
  kst_gid :: u64
  kst_rdev :: u64
  kst_size :: u64
  kst_blksize :: u64
  kst_blocks :: u64
  kst_atim :: "u64 \<times> u64"
  kst_mtim :: "u64 \<times> u64"
  kst_ctim :: "u64 \<times> u64"

text \<open>
  \<open>oom n\<close>: the \<open>n\<close>-th allocation of the host process fails.  \<open>k_read\<close> and
  its kind return the bytes the kernel stores at the buffer; \<open>k_mmap\<close> returns
  the contents of the new mapping.
\<close>

record 'x kernel =
  oom :: "nat \<Rightarrow> bool"
  k_errno :: "'x \<Rightarrow> int"
  k_openat :: "int \<Rightarrow> bytes \<Rightarrow> u32 \<Rightarrow> u32 \<Rightarrow> 'x \<Rightarrow> int \<times> 'x"
  k_read :: "int \<Rightarrow> u64 \<Rightarrow> 'x \<Rightarrow> (int \<times> bytes) \<times> 'x"
  k_write :: "int \<Rightarrow> bytes \<Rightarrow> 'x \<Rightarrow> int \<times> 'x"
  k_lseek :: "int \<Rightarrow> int \<Rightarrow> int \<Rightarrow> 'x \<Rightarrow> int \<times> 'x"
  k_close :: "int \<Rightarrow> 'x \<Rightarrow> int \<times> 'x"
  k_stat :: "bytes \<Rightarrow> 'x \<Rightarrow> (int \<times> kstat) \<times> 'x"
  k_fstat :: "int \<Rightarrow> 'x \<Rightarrow> (int \<times> kstat) \<times> 'x"
  k_fstatat :: "int \<Rightarrow> bytes \<Rightarrow> 'x \<Rightarrow> (int \<times> kstat) \<times> 'x"
  k_truncate :: "bytes \<Rightarrow> int \<Rightarrow> 'x \<Rightarrow> int \<times> 'x"
  k_ftruncate :: "int \<Rightarrow> int \<Rightarrow> 'x \<Rightarrow> int \<times> 'x"
  k_fchown :: "int \<Rightarrow> u32 \<Rightarrow> u32 \<Rightarrow> 'x \<Rightarrow> int \<times> 'x"
  k_fchownat :: "int \<Rightarrow> bytes \<Rightarrow> u32 \<Rightarrow> u32 \<Rightarrow> 'x \<Rightarrow> int \<times> 'x"
  k_fchmod :: "int \<Rightarrow> u32 \<Rightarrow> 'x \<Rightarrow> int \<times> 'x"
  k_fchmodat :: "int \<Rightarrow> bytes \<Rightarrow> u32 \<Rightarrow> 'x \<Rightarrow> int \<times> 'x"
  k_mmap :: "u64 \<Rightarrow> u64 \<Rightarrow> u32 \<Rightarrow> u32 \<Rightarrow> int \<Rightarrow> int \<Rightarrow> 'x \<Rightarrow> (u64 \<times> (nat \<Rightarrow> u8)) \<times> 'x"
  k_munmap :: "u64 \<Rightarrow> u64 \<Rightarrow> 'x \<Rightarrow> int \<times> 'x"
  k_mprotect :: "u64 \<Rightarrow> u64 \<Rightarrow> u32 \<Rightarrow> 'x \<Rightarrow> int \<times> 'x"
  k_fsync :: "int \<Rightarrow> 'x \<Rightarrow> int \<times> 'x"
  k_unlinkat :: "int \<Rightarrow> bytes \<Rightarrow> u32 \<Rightarrow> 'x \<Rightarrow> int \<times> 'x"
  k_readlinkat :: "int \<Rightarrow> bytes \<Rightarrow> u64 \<Rightarrow> 'x \<Rightarrow> (int \<times> bytes) \<times> 'x"
  k_renameat :: "int \<Rightarrow> bytes \<Rightarrow> int \<Rightarrow> bytes \<Rightarrow> 'x \<Rightarrow> int \<times> 'x"
  k_faccessat :: "int \<Rightarrow> bytes \<Rightarrow> u32 \<Rightarrow> 'x \<Rightarrow> int \<times> 'x"
  k_mkdirat :: "int \<Rightarrow> bytes \<Rightarrow> u32 \<Rightarrow> 'x \<Rightarrow> int \<times> 'x"

text \<open>The calls of the Linux-specific files and of \<^verbatim>\<open>posix/time.c\<close>, \<^verbatim>\<open>posix/thread.c\<close>.\<close>

record 'x linux = "'x kernel" +
  k_getcwd :: "u64 \<Rightarrow> 'x \<Rightarrow> bytes option \<times> 'x"
  k_readlink :: "bytes \<Rightarrow> u64 \<Rightarrow> 'x \<Rightarrow> (int \<times> bytes) \<times> 'x"
  k_getdents64 :: "int \<Rightarrow> u64 \<Rightarrow> 'x \<Rightarrow> (int \<times> bytes) \<times> 'x"
  k_getrandom :: "u64 \<Rightarrow> u32 \<Rightarrow> 'x \<Rightarrow> (int \<times> bytes) \<times> 'x"
  k_sched_cpus :: "'x \<Rightarrow> u32 \<times> 'x"
  k_set_name :: "bytes \<Rightarrow> 'x \<Rightarrow> int \<times> 'x"
  k_time :: "'x \<Rightarrow> int \<times> 'x"
  k_sched_yield :: "'x \<Rightarrow> int \<times> 'x"
  k_futex :: "u64 \<Rightarrow> u32 \<Rightarrow> u32 \<Rightarrow> (u64 \<times> u64) option \<Rightarrow> 'x \<Rightarrow> int \<times> 'x"

section \<open>State\<close>

record HostFile =
  hf_fd :: int

text \<open>
  The state below the library: the kernel, the memory of the process, the
  count of allocations so far (a fresh object gets the next number, so no
  pointer is ever used twice), and the \<^verbatim>\<open>HostFile\<close> objects.
\<close>

record 'x hostw =
  ext :: 'x
  mem :: memory
  nextp :: nat
  hostfiles :: "ptr \<rightharpoonup> HostFile"

definition kcall :: "('x \<Rightarrow> 'a \<times> 'x) \<Rightarrow> (('x, 'z) hostw_scheme, 'a) prog" where
  "kcall f w = (case f (ext w) of (r, x) \<Rightarrow> Ret r (w\<lparr>ext := x\<rparr>))"

lemma wp_kcall [wp_rules]:
  "wp F (kcall f) Q E = (\<lambda>w. Q (fst (f (ext w))) (w\<lparr>ext := snd (f (ext w))\<rparr>))"
  by (rule ext) (simp add: wp_def kcall_def split: prod.split)

definition malloc :: "('x, 'e) kernel_scheme \<Rightarrow> (('x, 'z) hostw_scheme, ptr) prog" where
  "malloc K w =
     (let w' = w\<lparr>nextp := Suc (nextp w)\<rparr>
      in if oom K (nextp w) then Ret NULL w' else Ret (Suc (nextp w)) w')"

lemma wp_malloc [wp_rules]:
  "wp F (malloc K) Q E =
     (\<lambda>w. let w' = w\<lparr>nextp := Suc (nextp w)\<rparr>
      in if oom K (nextp w) then Q NULL w' else Q (Suc (nextp w)) w')"
  by (rule ext) (simp add: wp_def malloc_def Let_def)

definition write_mem :: "u64 \<Rightarrow> bytes \<Rightarrow> (('x, 'z) hostw_scheme, unit) prog" where
  "write_mem a bs = modifyM (\<lambda>w. w\<lparr>mem := store_bytes (mem w) a bs\<rparr>)"

section \<open>\<^verbatim>\<open>error.h\<close>\<close>

definition tuxerr :: "int \<Rightarrow> int" where
  "tuxerr err =
     (if err \<ge> 0 then err
      else if err = - ENOSYS then - TUX_ENOSYS
      else if err = - EINVAL then - TUX_EINVAL
      else - TUX_EINVAL)"

text \<open>The two endings every wrapper has: \<^verbatim>\<open>if (r < 0) return tuxerr(errno); return 0\<close> or \<^verbatim>\<open>return r\<close>.\<close>

definition return_tuxerr :: "('x, 'e) kernel_scheme \<Rightarrow> (('x, 'z) hostw_scheme, int) prog" where
  "return_tuxerr K = bindM (gets (\<lambda>w. k_errno K (ext w))) (\<lambda>errno. ret (tuxerr errno))"

definition return_zero :: "('x, 'e) kernel_scheme \<Rightarrow> int \<Rightarrow> (('x, 'z) hostw_scheme, int) prog" where
  "return_zero K r = (if r < 0 then return_tuxerr K else ret 0)"

definition return_count :: "('x, 'e) kernel_scheme \<Rightarrow> int \<Rightarrow> (('x, 'z) hostw_scheme, int) prog" where
  "return_count K r = (if r < 0 then return_tuxerr K else ret r)"

section \<open>\<^verbatim>\<open>posix/file.c\<close>: opening, reading, writing, seeking, closing\<close>

text \<open>\<^verbatim>\<open>(flags & F) ? V : 0\<close>\<close>

abbreviation (input) flag_if :: "u32 \<Rightarrow> u32 \<Rightarrow> u32 \<Rightarrow> u32" where
  "flag_if flags f v \<equiv> (if flags AND f \<noteq> 0 then v else 0)"

definition openflags :: "u32 \<Rightarrow> u32" where
  "openflags flags =
     flag_if flags TUX_O_RDONLY O_RDONLY OR
     flag_if flags TUX_O_WRONLY O_WRONLY OR
     flag_if flags TUX_O_RDWR O_RDWR OR
     flag_if flags TUX_O_CREAT O_CREAT OR
     flag_if flags TUX_O_APPEND O_APPEND OR
     flag_if flags TUX_O_NONBLOCK O_NONBLOCK OR
     flag_if flags TUX_O_DIRECTORY O_DIRECTORY"

text \<open>\<^verbatim>\<open>dir ? dir->fd : AT_FDCWD\<close>\<close>

definition fd_or_cwd :: "ptr \<Rightarrow> (('x, 'z) hostw_scheme, int) prog" where
  "fd_or_cwd dir =
     (if dir = NULL then ret AT_FDCWD
      else bindM (deref hostfiles dir) (\<lambda>hf. ret (hf_fd hf)))"

definition set_hostfile :: "ptr \<Rightarrow> HostFile \<Rightarrow> (('x, 'z) hostw_scheme, unit) prog" where
  "set_hostfile p hf =
     (if p = NULL then raise NullDeref
      else modifyM (\<lambda>w. w\<lparr>hostfiles := (hostfiles w)(p \<mapsto> hf)\<rparr>))"

definition host_openat ::
  "('x, 'e) kernel_scheme \<Rightarrow> ptr \<Rightarrow> bytes \<Rightarrow> u32 \<Rightarrow> u32 \<Rightarrow> (('x, 'z) hostw_scheme, ptr) prog" where
  "host_openat K dir path flags mode =
     bindM (malloc K) (\<lambda>hf.
     if hf = NULL then ret NULL
     else bindM (fd_or_cwd dir) (\<lambda>dfd.
          bindM (kcall (k_openat K dfd path (openflags flags) mode)) (\<lambda>fd.
          if fd < 0 then ret NULL \<comment> \<open>\<^verbatim>\<open>free(hf)\<close>: the object was never written\<close>
          else bindM (set_hostfile hf \<lparr>hf_fd = fd\<rparr>) (\<lambda>_. ret hf))))"

definition host_open ::
  "('x, 'e) kernel_scheme \<Rightarrow> bytes \<Rightarrow> u32 \<Rightarrow> u32 \<Rightarrow> (('x, 'z) hostw_scheme, ptr) prog" where
  "host_open K filename flags mode = host_openat K NULL filename flags mode"

definition host_fdopen :: "('x, 'e) kernel_scheme \<Rightarrow> int \<Rightarrow> (('x, 'z) hostw_scheme, ptr) prog" where
  "host_fdopen K fd =
     bindM (malloc K) (\<lambda>hf. bindM (set_hostfile hf \<lparr>hf_fd = fd\<rparr>) (\<lambda>_. ret hf))"

definition host_read ::
  "('x, 'e) kernel_scheme \<Rightarrow> ptr \<Rightarrow> u64 \<Rightarrow> u64 \<Rightarrow> (('x, 'z) hostw_scheme, int) prog" where
  "host_read K file buf sz =
     bindM (deref hostfiles file) (\<lambda>hf.
     bindM (kcall (k_read K (hf_fd hf) sz)) (\<lambda>(r, bs).
     bindM (write_mem buf bs) (\<lambda>_. return_count K r)))"

definition host_write ::
  "('x, 'e) kernel_scheme \<Rightarrow> ptr \<Rightarrow> u64 \<Rightarrow> u64 \<Rightarrow> (('x, 'z) hostw_scheme, int) prog" where
  "host_write K file buf sz =
     bindM (deref hostfiles file) (\<lambda>hf.
     bindM (gets (\<lambda>w. load_bytes (mem w) buf (unat sz))) (\<lambda>bs.
     bindM (kcall (k_write K (hf_fd hf) bs)) (\<lambda>r. return_count K r)))"

text \<open>A \<^verbatim>\<open>whence\<close> that is none of the three constants runs into \<^verbatim>\<open>assert\<close>.\<close>

definition seekwhence :: "int \<Rightarrow> ('s, int) prog" where
  "seekwhence whence =
     (if whence = TUX_SEEK_SET then ret SEEK_SET
      else if whence = TUX_SEEK_CUR then ret SEEK_CUR
      else if whence = TUX_SEEK_END then ret SEEK_END
      else raise AssertFail)"

text \<open>\<^verbatim>\<open>loc\<close> is a \<^verbatim>\<open>size_t\<close> that \<^verbatim>\<open>lseek\<close> takes as an \<^verbatim>\<open>off_t\<close>.\<close>

definition host_seek ::
  "('x, 'e) kernel_scheme \<Rightarrow> ptr \<Rightarrow> u64 \<Rightarrow> int \<Rightarrow> (('x, 'z) hostw_scheme, int) prog" where
  "host_seek K file loc whence =
     bindM (deref hostfiles file) (\<lambda>hf.
     bindM (seekwhence whence) (\<lambda>wh.
     bindM (kcall (k_lseek K (hf_fd hf) (sint loc) wh)) (\<lambda>r. return_count K r)))"

text \<open>The static \<^verbatim>\<open>HostFile\<close> objects of the standard streams.\<close>

definition host_stdin :: ptr where "host_stdin = 1"
definition host_stdout :: ptr where "host_stdout = 2"
definition host_stderr :: ptr where "host_stderr = 3"

definition free_hostfile :: "ptr \<Rightarrow> (('x, 'z) hostw_scheme, unit) prog" where
  "free_hostfile p =
     (if p \<in> {host_stdin, host_stdout, host_stderr} then raise BadFree
      else modifyM (\<lambda>w. w\<lparr>hostfiles := (hostfiles w)(p := None)\<rparr>))"

definition host_close :: "('x, 'e) kernel_scheme \<Rightarrow> ptr \<Rightarrow> (('x, 'z) hostw_scheme, int) prog" where
  "host_close K file =
     bindM (deref hostfiles file) (\<lambda>hf.
     bindM (kcall (k_close K (hf_fd hf))) (\<lambda>r.
     if r < 0 then return_tuxerr K
     else bindM (set_hostfile file (hf\<lparr>hf_fd := - 1\<rparr>)) (\<lambda>_.
          bindM (free_hostfile file) (\<lambda>_. ret r))))"

section \<open>\<^verbatim>\<open>posix/file.c\<close>: file status\<close>

text \<open>The members \<^verbatim>\<open>copystat\<close> assigns, in its order of the \<^verbatim>\<open>struct stat\<close> it reads.\<close>

fun copystat_member :: "kstat \<Rightarrow> stat_field \<Rightarrow> u64 option" where
  "copystat_member k St_dev = Some (kst_dev k)"
| "copystat_member k St_ino = Some (kst_ino k)"
| "copystat_member k St_nlink = Some (kst_nlink k)"
| "copystat_member k St_mode = Some (kst_mode k)"
| "copystat_member k St_uid = Some (kst_uid k)"
| "copystat_member k St_gid = Some (kst_gid k)"
| "copystat_member k St_rdev = Some (kst_rdev k)"
| "copystat_member k St_size = Some (kst_size k)"
| "copystat_member k St_blksize = Some (kst_blksize k)"
| "copystat_member k St_blocks = Some (kst_blocks k)"
| "copystat_member k St_atim_sec = Some (fst (kst_atim k))"
| "copystat_member k St_atim_nsec = Some (snd (kst_atim k))"
| "copystat_member k St_mtim_sec = Some (fst (kst_mtim k))"
| "copystat_member k St_mtim_nsec = Some (snd (kst_mtim k))"
| "copystat_member k St_ctim_sec = Some (fst (kst_ctim k))"
| "copystat_member k St_ctim_nsec = Some (snd (kst_ctim k))"
| "copystat_member k St_pad = None"

definition copystat :: "arch \<Rightarrow> u64 \<Rightarrow> kstat \<Rightarrow> memory \<Rightarrow> memory" where
  "copystat a st kstat m = store_struct m st (layout 0 (stat_members a)) (copystat_member kstat)"

text \<open>\<^verbatim>\<open>if (r < 0) return tuxerr(errno); copystat(st, &kstat); return 0\<close>\<close>

definition return_stat ::
  "('x, 'e) kernel_scheme \<Rightarrow> arch \<Rightarrow> u64 \<Rightarrow> int \<times> kstat \<Rightarrow> (('x, 'z) hostw_scheme, int) prog" where
  "return_stat K a st rk =
     (if fst rk < 0 then return_tuxerr K
      else bindM (modifyM (\<lambda>w. w\<lparr>mem := copystat a st (snd rk) (mem w)\<rparr>)) (\<lambda>_. ret 0))"

definition host_stat ::
  "('x, 'e) kernel_scheme \<Rightarrow> arch \<Rightarrow> bytes \<Rightarrow> u64 \<Rightarrow> (('x, 'z) hostw_scheme, int) prog" where
  "host_stat K a path st = bindM (kcall (k_stat K path)) (return_stat K a st)"

definition host_fstatat ::
  "('x, 'e) kernel_scheme \<Rightarrow> arch \<Rightarrow> ptr \<Rightarrow> bytes \<Rightarrow> u64 \<Rightarrow> u32 \<Rightarrow> (('x, 'z) hostw_scheme, int) prog" where
  "host_fstatat K a file path st flags =
     (if flags = TUX_AT_EMPTY_PATH then
        bindM (deref hostfiles file) (\<lambda>hf.
        bindM (kcall (k_fstat K (hf_fd hf))) (return_stat K a st))
      else
        bindM (assertM (flags = 0)) (\<lambda>_.
        bindM (fd_or_cwd file) (\<lambda>fd.
        bindM (kcall (k_fstatat K fd path)) (return_stat K a st))))"

definition host_fstat ::
  "('x, 'e) kernel_scheme \<Rightarrow> arch \<Rightarrow> ptr \<Rightarrow> u64 \<Rightarrow> (('x, 'z) hostw_scheme, int) prog" where
  "host_fstat K a file st = host_fstatat K a file [] st TUX_AT_EMPTY_PATH"

text \<open>\<^verbatim>\<open>S_ISDIR\<close> of a mode.\<close>

definition S_ISDIR :: "u64 \<Rightarrow> bool" where
  "S_ISDIR mode \<longleftrightarrow> mode AND 0xF000 = 0x4000"

definition host_isdir :: "('x, 'e) kernel_scheme \<Rightarrow> ptr \<Rightarrow> (('x, 'z) hostw_scheme, bool) prog" where
  "host_isdir K file =
     bindM (deref hostfiles file) (\<lambda>hf.
     bindM (kcall (k_fstat K (hf_fd hf))) (\<lambda>(r, st). ret (r = 0 \<and> S_ISDIR (kst_mode st))))"

section \<open>\<^verbatim>\<open>posix/file.c\<close>: attributes and names\<close>

definition host_truncate ::
  "('x, 'e) kernel_scheme \<Rightarrow> bytes \<Rightarrow> int \<Rightarrow> (('x, 'z) hostw_scheme, int) prog" where
  "host_truncate K path len = bindM (kcall (k_truncate K path len)) (return_zero K)"

definition host_ftruncate ::
  "('x, 'e) kernel_scheme \<Rightarrow> ptr \<Rightarrow> int \<Rightarrow> (('x, 'z) hostw_scheme, int) prog" where
  "host_ftruncate K file len =
     bindM (deref hostfiles file) (\<lambda>hf. bindM (kcall (k_ftruncate K (hf_fd hf) len)) (return_zero K))"

definition host_fchownat ::
  "('x, 'e) kernel_scheme \<Rightarrow> ptr \<Rightarrow> bytes \<Rightarrow> u32 \<Rightarrow> u32 \<Rightarrow> u32 \<Rightarrow> (('x, 'z) hostw_scheme, int) prog" where
  "host_fchownat K dir path owner grp flags =
     (if flags = TUX_AT_EMPTY_PATH then
        bindM (assertM (dir \<noteq> NULL)) (\<lambda>_.
        bindM (deref hostfiles dir) (\<lambda>hf.
        bindM (kcall (k_fchown K (hf_fd hf) owner grp)) (return_zero K)))
      else
        bindM (fd_or_cwd dir) (\<lambda>fd.
        bindM (kcall (k_fchownat K fd path owner grp)) (return_zero K)))"

definition host_fchown ::
  "('x, 'e) kernel_scheme \<Rightarrow> ptr \<Rightarrow> u32 \<Rightarrow> u32 \<Rightarrow> (('x, 'z) hostw_scheme, int) prog" where
  "host_fchown K file owner grp = host_fchownat K file [] owner grp TUX_AT_EMPTY_PATH"

definition host_fchmodat ::
  "('x, 'e) kernel_scheme \<Rightarrow> ptr \<Rightarrow> bytes \<Rightarrow> u32 \<Rightarrow> u32 \<Rightarrow> (('x, 'z) hostw_scheme, int) prog" where
  "host_fchmodat K dir path mode flags =
     bindM (assertM (flags = 0)) (\<lambda>_.
     bindM (fd_or_cwd dir) (\<lambda>fd. bindM (kcall (k_fchmodat K fd path mode)) (return_zero K)))"

definition host_fchmod ::
  "('x, 'e) kernel_scheme \<Rightarrow> ptr \<Rightarrow> u32 \<Rightarrow> (('x, 'z) hostw_scheme, int) prog" where
  "host_fchmod K file mode =
     bindM (deref hostfiles file) (\<lambda>hf. bindM (kcall (k_fchmod K (hf_fd hf) mode)) (return_zero K))"

definition host_fsync :: "('x, 'e) kernel_scheme \<Rightarrow> ptr \<Rightarrow> (('x, 'z) hostw_scheme, int) prog" where
  "host_fsync K file =
     bindM (deref hostfiles file) (\<lambda>hf. bindM (kcall (k_fsync K (hf_fd hf))) (return_zero K))"

definition unlinkflags :: "u32 \<Rightarrow> u32" where
  "unlinkflags flags = flag_if flags TUX_AT_REMOVEDIR AT_REMOVEDIR"

definition host_unlinkat ::
  "('x, 'e) kernel_scheme \<Rightarrow> ptr \<Rightarrow> bytes \<Rightarrow> u32 \<Rightarrow> (('x, 'z) hostw_scheme, int) prog" where
  "host_unlinkat K file path flags =
     bindM (fd_or_cwd file) (\<lambda>fd.
     bindM (kcall (k_unlinkat K fd path (unlinkflags flags))) (return_zero K))"

definition host_readlinkat ::
  "('x, 'e) kernel_scheme \<Rightarrow> ptr \<Rightarrow> bytes \<Rightarrow> u64 \<Rightarrow> u64 \<Rightarrow> (('x, 'z) hostw_scheme, int) prog" where
  "host_readlinkat K file path buf sz =
     bindM (fd_or_cwd file) (\<lambda>fd.
     bindM (kcall (k_readlinkat K fd path sz)) (\<lambda>(r, bs).
     bindM (write_mem buf bs) (\<lambda>_. return_count K r)))"

definition host_renameat2 ::
  "('x, 'e) kernel_scheme \<Rightarrow> ptr \<Rightarrow> bytes \<Rightarrow> ptr \<Rightarrow> bytes \<Rightarrow> u32 \<Rightarrow> (('x, 'z) hostw_scheme, int) prog" where
  "host_renameat2 K olddir oldpath newdir newpath flags =
     bindM (assertM (flags = 0)) (\<lambda>_.
     bindM (fd_or_cwd olddir) (\<lambda>ofd.
     bindM (fd_or_cwd newdir) (\<lambda>nfd.
     bindM (kcall (k_renameat K ofd oldpath nfd newpath)) (return_zero K))))"

definition host_faccessat2 ::
  "('x, 'e) kernel_scheme \<Rightarrow> ptr \<Rightarrow> bytes \<Rightarrow> u32 \<Rightarrow> u32 \<Rightarrow> (('x, 'z) hostw_scheme, int) prog" where
  "host_faccessat2 K dir path mode flags =
     bindM (assertM (flags = 0)) (\<lambda>_.
     bindM (fd_or_cwd dir) (\<lambda>fd. bindM (kcall (k_faccessat K fd path mode)) (return_zero K)))"

definition host_mkdirat ::
  "('x, 'e) kernel_scheme \<Rightarrow> ptr \<Rightarrow> bytes \<Rightarrow> u32 \<Rightarrow> (('x, 'z) hostw_scheme, int) prog" where
  "host_mkdirat K dir path mode =
     bindM (fd_or_cwd dir) (\<lambda>fd. bindM (kcall (k_mkdirat K fd path mode)) (return_zero K))"

section \<open>\<^verbatim>\<open>posix/file.c\<close>: memory\<close>

definition mmapprot :: "u32 \<Rightarrow> u32" where
  "mmapprot prot =
     flag_if prot LFI_PROT_READ PROT_READ OR
     flag_if prot LFI_PROT_WRITE PROT_WRITE OR
     flag_if prot LFI_PROT_EXEC PROT_EXEC"

definition mmapflags :: "u32 \<Rightarrow> u32" where
  "mmapflags flags =
     flag_if flags LFI_MAP_PRIVATE MAP_PRIVATE OR
     flag_if flags LFI_MAP_ANONYMOUS MAP_ANONYMOUS OR
     flag_if flags LFI_MAP_FIXED MAP_FIXED OR
     flag_if flags LFI_MAP_SHARED MAP_SHARED"

text \<open>On success the kernel replaces the contents of the mapped range.\<close>

definition host_mmap ::
  "('x, 'e) kernel_scheme \<Rightarrow> u64 \<Rightarrow> u64 \<Rightarrow> u32 \<Rightarrow> u32 \<Rightarrow> ptr \<Rightarrow> int \<Rightarrow> (('x, 'z) hostw_scheme, u64) prog" where
  "host_mmap K addr len prot flags file offset =
     bindM (if file = NULL then ret (- 1)
            else bindM (deref hostfiles file) (\<lambda>hf. ret (hf_fd hf))) (\<lambda>fd.
     bindM (kcall (k_mmap K addr len (mmapprot prot) (mmapflags flags) fd offset)) (\<lambda>(p, c).
     if p = MAP_FAILED then ret p
     else bindM (modifyM (\<lambda>w. w\<lparr>mem := fill_range (mem w) p len c\<rparr>)) (\<lambda>_. ret p)))"

definition host_munmap ::
  "('x, 'e) kernel_scheme \<Rightarrow> u64 \<Rightarrow> u64 \<Rightarrow> (('x, 'z) hostw_scheme, int) prog" where
  "host_munmap K addr len = bindM (kcall (k_munmap K addr len)) (return_count K)"

definition host_mprotect ::
  "('x, 'e) kernel_scheme \<Rightarrow> u64 \<Rightarrow> u64 \<Rightarrow> u32 \<Rightarrow> (('x, 'z) hostw_scheme, int) prog" where
  "host_mprotect K addr len prot = bindM (kcall (k_mprotect K addr len (mmapprot prot))) (return_count K)"

section \<open>The Linux files\<close>

definition host_getdents64 ::
  "('x, 'e) linux_scheme \<Rightarrow> ptr \<Rightarrow> u64 \<Rightarrow> u64 \<Rightarrow> (('x, 'z) hostw_scheme, int) prog" where
  "host_getdents64 K file dirp cnt =
     bindM (deref hostfiles file) (\<lambda>hf.
     bindM (kcall (k_getdents64 K (hf_fd hf) cnt)) (\<lambda>(r, bs).
     bindM (write_mem dirp bs) (\<lambda>_. return_count K r)))"

text \<open>The decimal digits \<^verbatim>\<open>snprintf\<close> prints for \<^verbatim>\<open>%d\<close>.\<close>

fun dec_nat :: "nat \<Rightarrow> bytes" where
  "dec_nat n = (if n < 10 then [of_nat (48 + n)] else dec_nat (n div 10) @ [of_nat (48 + n mod 10)])"

declare dec_nat.simps [simp del]

definition dec_int :: "int \<Rightarrow> bytes" where
  "dec_int i = (if i < 0 then 45 # dec_nat (nat (- i)) else dec_nat (nat i))"

text \<open>The string \<^verbatim>\<open>/proc/self/fd/\<close>.\<close>

definition proc_self_fd :: bytes where
  "proc_self_fd = map (of_nat \<circ> of_char) ''/proc/self/fd/''"

text \<open>
  The result of \<^verbatim>\<open>host_getpath\<close> and what it stores at the start of the buffer,
  the terminator included.
\<close>

definition host_getpath_str ::
  "('x, 'e) linux_scheme \<Rightarrow> ptr \<Rightarrow> u64 \<Rightarrow> (('x, 'z) hostw_scheme, int \<times> bytes) prog" where
  "host_getpath_str K dir sz =
     (if dir = NULL then
        bindM (kcall (k_getcwd K sz)) (\<lambda>d.
        case d of None \<Rightarrow> bindM (return_tuxerr K) (\<lambda>e. ret (e, []))
        | Some bs \<Rightarrow> ret (0, bs @ [0]))
      else
        bindM (deref hostfiles dir) (\<lambda>hf.
        bindM (kcall (k_readlink K (proc_self_fd @ dec_int (hf_fd hf)) (sz - 1))) (\<lambda>(r, bs).
        if r < 0 then bindM (return_tuxerr K) (\<lambda>e. ret (e, bs))
        else ret (0, take (nat r) bs @ [0]))))"

definition host_getpath ::
  "('x, 'e) linux_scheme \<Rightarrow> ptr \<Rightarrow> u64 \<Rightarrow> u64 \<Rightarrow> (('x, 'z) hostw_scheme, int) prog" where
  "host_getpath K dir buf sz =
     bindM (host_getpath_str K dir sz) (\<lambda>(r, bs). bindM (write_mem buf bs) (\<lambda>_. ret r))"

definition linuxflags :: "u32 \<Rightarrow> u32" where
  "linuxflags flags =
     (let f = (if flags AND TUX_GRND_RANDOM \<noteq> 0 then 2 else 0)
      in if flags AND TUX_GRND_NONBLOCK \<noteq> 0 then f OR 1 else f)"

definition host_getrandom ::
  "('x, 'e) linux_scheme \<Rightarrow> u64 \<Rightarrow> u64 \<Rightarrow> u32 \<Rightarrow> (('x, 'z) hostw_scheme, int) prog" where
  "host_getrandom K buf sz flags =
     bindM (kcall (k_getrandom K sz (linuxflags flags))) (\<lambda>(r, bs).
     bindM (write_mem buf bs) (\<lambda>_. return_count K r))"

definition host_cpucount :: "('x, 'e) linux_scheme \<Rightarrow> (('x, 'z) hostw_scheme, u32) prog" where
  "host_cpucount K = kcall (k_sched_cpus K)"

definition host_prctl_set_name ::
  "('x, 'e) linux_scheme \<Rightarrow> u64 \<Rightarrow> (('x, 'z) hostw_scheme, int) prog" where
  "host_prctl_set_name K name =
     bindM (gets (\<lambda>w. load_bytes (mem w) name 16)) (\<lambda>bs.
     bindM (kcall (k_set_name K bs)) (return_zero K))"

definition host_time :: "('x, 'e) linux_scheme \<Rightarrow> (('x, 'z) hostw_scheme, int) prog" where
  "host_time K = bindM (kcall (k_time K)) (return_count K)"

definition host_sched_yield :: "('x, 'e) linux_scheme \<Rightarrow> (('x, 'z) hostw_scheme, int) prog" where
  "host_sched_yield K = kcall (k_sched_yield K)"

text \<open>\<^verbatim>\<open>timeout\<close> is the address of a \<^verbatim>\<open>struct TimeSpec\<close> or 0 for \<^verbatim>\<open>NULL\<close>.\<close>

definition host_futexwait ::
  "('x, 'e) linux_scheme \<Rightarrow> u64 \<Rightarrow> u32 \<Rightarrow> u32 \<Rightarrow> u64 \<Rightarrow> (('x, 'z) hostw_scheme, int) prog" where
  "host_futexwait K uaddr op val timeout =
     (if timeout = 0 then kcall (k_futex K uaddr op val None)
      else bindM (gets (\<lambda>w. (le_word (load_bytes (mem w) timeout 8),
                             le_word (load_bytes (mem w) (timeout + 8) 8)))) (\<lambda>ts.
           kcall (k_futex K uaddr op val (Some ts))))"

definition host_futexwake ::
  "('x, 'e) linux_scheme \<Rightarrow> u64 \<Rightarrow> u32 \<Rightarrow> u32 \<Rightarrow> (('x, 'z) hostw_scheme, int) prog" where
  "host_futexwake K uaddr op val = kcall (k_futex K uaddr op val None)"

definition host_futexrequeue ::
  "('x, 'e) linux_scheme \<Rightarrow> u64 \<Rightarrow> u32 \<Rightarrow> u32 \<Rightarrow> (('x, 'z) hostw_scheme, int) prog" where
  "host_futexrequeue K uaddr op val = kcall (k_futex K uaddr op val None)"

section \<open>\<^verbatim>\<open>src/host.c\<close>: the exported wrappers\<close>

definition lfi_host_open ::
  "('x, 'e) kernel_scheme \<Rightarrow> bytes \<Rightarrow> u32 \<Rightarrow> u32 \<Rightarrow> (('x, 'z) hostw_scheme, ptr) prog" where
  "lfi_host_open K filename flags mode = host_open K filename flags mode"

definition lfi_host_fdopen :: "('x, 'e) kernel_scheme \<Rightarrow> int \<Rightarrow> (('x, 'z) hostw_scheme, ptr) prog" where
  "lfi_host_fdopen K fd = host_fdopen K fd"

definition lfi_host_close :: "('x, 'e) kernel_scheme \<Rightarrow> ptr \<Rightarrow> (('x, 'z) hostw_scheme, int) prog" where
  "lfi_host_close K file = host_close K file"

section \<open>Flag translation\<close>

text \<open>Each translation keeps exactly the bits it names.\<close>

lemma openflags_mask: "openflags flags = flags AND 0x10C43"
  unfolding openflags_def flag_bits by (simp flip: bit.conj_disj_distrib)

lemma mmapprot_mask: "mmapprot prot = prot AND 7"
  unfolding mmapprot_def flag_bits by (simp flip: bit.conj_disj_distrib)

lemma mmapflags_mask: "mmapflags flags = flags AND 0x33"
  unfolding mmapflags_def flag_bits by (simp flip: bit.conj_disj_distrib)

lemma unlinkflags_mask: "unlinkflags flags = flags AND 0x200"
  unfolding unlinkflags_def flag_bits by (simp flip: bit.conj_disj_distrib)

section \<open>Clients of the host interface\<close>

text \<open>
  Every host call but open and close changes only memory and the kernel, and
  needs the file it is given to be live (or, for a directory, absent).  A
  client states its invariant once and gets that every such call keeps it.
\<close>

lemmas ret_defs = return_count_def return_zero_def return_tuxerr_def return_stat_def write_mem_def fd_or_cwd_def

locale host_client =
  fixes I :: "('x, 'z) hostw_scheme \<Rightarrow> bool" and h :: ptr
  assumes I_mem: "I w \<Longrightarrow> I (w\<lparr>mem := m\<rparr>)"
    and I_ext: "I w \<Longrightarrow> I (w\<lparr>ext := x\<rparr>)"
    and I_live: "I w \<Longrightarrow> h \<noteq> NULL \<Longrightarrow> h \<in> dom (hostfiles w)"
begin

lemma I_fd: "I w \<Longrightarrow> h \<noteq> NULL \<Longrightarrow> \<exists>hf. hostfiles w h = Some hf"
  using I_live by blast

lemma keeps_read: "I w \<Longrightarrow> h \<noteq> NULL \<Longrightarrow> wp only_assert (host_read K h buf n) (\<lambda>_. I) I w"
  using I_fd [of w] by (auto simp: host_read_def ret_defs wp_rules I_mem I_ext)

lemma keeps_write: "I w \<Longrightarrow> h \<noteq> NULL \<Longrightarrow> wp only_assert (host_write K h buf n) (\<lambda>_. I) I w"
  using I_fd [of w] by (auto simp: host_write_def ret_defs wp_rules I_mem I_ext)

lemma keeps_seek: "I w \<Longrightarrow> h \<noteq> NULL \<Longrightarrow> wp only_assert (host_seek K h loc whence) (\<lambda>_. I) I w"
  using I_fd [of w] by (auto simp: host_seek_def seekwhence_def ret_defs wp_rules I_mem I_ext)

lemma keeps_ftruncate: "I w \<Longrightarrow> h \<noteq> NULL \<Longrightarrow> wp only_assert (host_ftruncate K h len) (\<lambda>_. I) I w"
  using I_fd [of w] by (auto simp: host_ftruncate_def ret_defs wp_rules I_mem I_ext)

lemma keeps_fchown: "I w \<Longrightarrow> h \<noteq> NULL \<Longrightarrow> wp only_assert (host_fchown K h owner grp) (\<lambda>_. I) I w"
  using I_fd [of w] by (auto simp: host_fchown_def host_fchownat_def ret_defs wp_rules I_mem I_ext)

lemma keeps_fchmod: "I w \<Longrightarrow> h \<noteq> NULL \<Longrightarrow> wp only_assert (host_fchmod K h mode) (\<lambda>_. I) I w"
  using I_fd [of w] by (auto simp: host_fchmod_def ret_defs wp_rules I_mem I_ext)

lemma keeps_fsync: "I w \<Longrightarrow> h \<noteq> NULL \<Longrightarrow> wp only_assert (host_fsync K h) (\<lambda>_. I) I w"
  using I_fd [of w] by (auto simp: host_fsync_def ret_defs wp_rules I_mem I_ext)

lemma keeps_fstat: "I w \<Longrightarrow> h \<noteq> NULL \<Longrightarrow> wp only_assert (host_fstat K a h st) (\<lambda>_. I) I w"
  using I_fd [of w] by (auto simp: host_fstat_def host_fstatat_def ret_defs wp_rules I_mem I_ext)

lemma keeps_getdents: "I w \<Longrightarrow> h \<noteq> NULL \<Longrightarrow> wp only_assert (host_getdents64 K h buf n) (\<lambda>_. I) I w"
  using I_fd [of w] by (auto simp: host_getdents64_def ret_defs wp_rules I_mem I_ext)

lemma keeps_isdir: "I w \<Longrightarrow> h \<noteq> NULL \<Longrightarrow> wp only_assert (host_isdir K h) (\<lambda>_. I) I w"
  using I_fd [of w] by (auto simp: host_isdir_def ret_defs wp_rules I_mem I_ext)

text \<open>Calls relative to a directory, which may be absent.\<close>

lemma keeps_fstatat: "I w \<Longrightarrow> wp only_assert (host_fstatat K a h path st 0) (\<lambda>_. I) I w"
  using I_fd [of w] by (auto simp: host_fstatat_def ret_defs wp_rules I_mem I_ext)

lemma keeps_fchownat: "I w \<Longrightarrow> wp only_assert (host_fchownat K h path owner grp 0) (\<lambda>_. I) I w"
  using I_fd [of w] by (auto simp: host_fchownat_def ret_defs wp_rules I_mem I_ext)

lemma keeps_fchmodat: "I w \<Longrightarrow> wp only_assert (host_fchmodat K h path mode fl) (\<lambda>_. I) I w"
  using I_fd [of w] by (auto simp: host_fchmodat_def ret_defs wp_rules I_mem I_ext)

lemma keeps_unlinkat: "I w \<Longrightarrow> wp only_assert (host_unlinkat K h path fl) (\<lambda>_. I) I w"
  using I_fd [of w] by (auto simp: host_unlinkat_def ret_defs wp_rules I_mem I_ext)

lemma keeps_readlinkat: "I w \<Longrightarrow> wp only_assert (host_readlinkat K h path buf n) (\<lambda>_. I) I w"
  using I_fd [of w] by (auto simp: host_readlinkat_def ret_defs wp_rules I_mem I_ext)

lemma keeps_faccessat: "I w \<Longrightarrow> wp only_assert (host_faccessat2 K h path mode fl) (\<lambda>_. I) I w"
  using I_fd [of w] by (auto simp: host_faccessat2_def ret_defs wp_rules I_mem I_ext)

lemma keeps_mkdirat: "I w \<Longrightarrow> wp only_assert (host_mkdirat K h path mode) (\<lambda>_. I) I w"
  using I_fd [of w] by (auto simp: host_mkdirat_def ret_defs wp_rules I_mem I_ext)

lemma keeps_getpath_str: "I w \<Longrightarrow> wp only_assert (host_getpath_str K h n) (\<lambda>_. I) I w"
  using I_fd [of w]
  by (cases "h = NULL") (auto simp: host_getpath_str_def ret_defs wp_rules I_mem I_ext split: option.split)

lemma keeps_getpath: "I w \<Longrightarrow> wp only_assert (host_getpath K h buf n) (\<lambda>_. I) I w"
  unfolding host_getpath_def
  by (rule wp_bindI [OF keeps_getpath_str]) (auto simp: ret_defs wp_rules I_mem)

lemma keeps_mmap: "I w \<Longrightarrow> wp only_assert (host_mmap K a n prot fl h off) (\<lambda>_. I) I w"
  using I_fd [of w] by (auto simp: host_mmap_def ret_defs wp_rules I_mem I_ext)

end

section \<open>A concrete kernel\<close>

text \<open>
  A small kernel for evaluating the model: its state is the offset of the one
  open file, which holds three bytes; calls on a negative descriptor fail with
  \<^verbatim>\<open>EIO\<close>.
\<close>

definition demo_kstat :: kstat where
  "demo_kstat = \<lparr>kst_dev = 1, kst_ino = 2, kst_nlink = 1, kst_mode = 0x81A4, kst_uid = 1000,
     kst_gid = 1000, kst_rdev = 0, kst_size = 3, kst_blksize = 4096, kst_blocks = 8,
     kst_atim = (4, 5), kst_mtim = (6, 7), kst_ctim = (8, 9)\<rparr>"

definition demo_lseek :: "int \<Rightarrow> int \<Rightarrow> int \<Rightarrow> int \<Rightarrow> int \<times> int" where
  "demo_lseek fd off whence x =
     (let p = (if whence = SEEK_SET then off else if whence = SEEK_CUR then x + off else 3 + off)
      in if fd < 0 \<or> p < 0 then (- 1, x) else (p, p))"

definition demo_read :: "int \<Rightarrow> u64 \<Rightarrow> int \<Rightarrow> (int \<times> bytes) \<times> int" where
  "demo_read fd n x =
     (let bs = take (unat n) (drop (nat x) [104, 105, 10])
      in if fd < 0 then ((- 1, []), x) else ((int (length bs), bs), x + int (length bs)))"

definition demo_status :: "int \<Rightarrow> int \<Rightarrow> int \<times> int" where
  "demo_status fd x = (if fd < 0 \<and> fd \<noteq> AT_FDCWD then - 1 else 0, x)"

definition demo_kernel :: "int kernel" where
  "demo_kernel = \<lparr>
     oom = \<lambda>_. False,
     k_errno = \<lambda>_. 5,
     k_openat = \<lambda>dfd path fl md x. (if path = [] then - 1 else 7, x),
     k_read = demo_read,
     k_write = \<lambda>fd bs x. if fd < 0 then (- 1, x) else (int (length bs), x + int (length bs)),
     k_lseek = demo_lseek,
     k_close = demo_status,
     k_stat = \<lambda>path x. ((if path = [] then - 1 else 0, demo_kstat), x),
     k_fstat = \<lambda>fd x. ((fst (demo_status fd x), demo_kstat), x),
     k_fstatat = \<lambda>fd path x. ((fst (demo_status fd x), demo_kstat), x),
     k_truncate = \<lambda>path len x. (if path = [] then - 1 else 0, x),
     k_ftruncate = \<lambda>fd len. demo_status fd,
     k_fchown = \<lambda>fd owner grp. demo_status fd,
     k_fchownat = \<lambda>fd path owner grp. demo_status fd,
     k_fchmod = \<lambda>fd mode. demo_status fd,
     k_fchmodat = \<lambda>fd path mode. demo_status fd,
     k_mmap = \<lambda>addr len prot flags fd off x. ((addr, \<lambda>_. 0), x),
     k_munmap = \<lambda>addr len x. (0, x),
     k_mprotect = \<lambda>addr len prot x. (0, x),
     k_fsync = demo_status,
     k_unlinkat = \<lambda>fd path fl. demo_status fd,
     k_readlinkat = \<lambda>fd path n x. ((- 1, []), x),
     k_renameat = \<lambda>fd path fd' path'. demo_status fd,
     k_faccessat = \<lambda>fd path mode. demo_status fd,
     k_mkdirat = \<lambda>fd path mode. demo_status fd\<rparr>"

definition demo_linux :: "int linux" where
  "demo_linux = kernel.extend demo_kernel (linux.fields
     (\<lambda>n x. (Some [47], x))
     (\<lambda>path n x. ((1, [47]), x))
     (\<lambda>fd n x. ((fst (demo_status fd x), []), x))
     (\<lambda>n fl x. ((int (unat n), replicate (unat n) 7), x))
     (\<lambda>x. (2, x))
     (\<lambda>bs x. (0, x))
     (\<lambda>x. (1700000000, x))
     (\<lambda>x. (0, x))
     (\<lambda>uaddr op v t x. (0, x)))"

lemmas demo_kernel_defs = demo_linux_def demo_kernel_def kernel.defs linux.defs

section \<open>Properties\<close>

lemma copystat_distinct:
  "distinct (map fst (filter (\<lambda>(g, _). copystat_member k g \<noteq> None) (stat_members a)))"
  by (cases a) (simp_all add: stat_members_def stat_members_x64_def stat_members_arm64_def)

lemma stat_members_end: "layout_end 0 (stat_members a) \<le> 2 ^ 64"
  by (cases a) (simp_all add: stat_members_def stat_members_x64_def stat_members_arm64_def align_to_def)


lemma demo_size_slot: "stat_slot ARM64 St_size = Some (48, 8)"
  by code_simp


text \<open>The flag words the library passes to the host are the guest's words
  restricted to the bits it knows: access mode, \<^verbatim>\<open>O_CREAT\<close>, \<^verbatim>\<open>O_APPEND\<close>,
  \<^verbatim>\<open>O_NONBLOCK\<close> and \<^verbatim>\<open>O_DIRECTORY\<close> for open (so \<^verbatim>\<open>O_TRUNC\<close> is dropped), the three
  protections and the four mapping types for mmap, \<^verbatim>\<open>AT_REMOVEDIR\<close> for unlink.\<close>

lemma flag_translation:
  "openflags flags = flags AND (O_WRONLY OR O_RDWR OR O_CREAT OR O_APPEND OR O_NONBLOCK OR O_DIRECTORY) \<and>
   openflags TUX_O_TRUNC = 0 \<and>
   mmapprot prot = prot AND (PROT_READ OR PROT_WRITE OR PROT_EXEC) \<and>
   mmapflags flags = flags AND (MAP_SHARED OR MAP_PRIVATE OR MAP_FIXED OR MAP_ANONYMOUS) \<and>
   unlinkflags flags = flags AND AT_REMOVEDIR"
  by (simp add: openflags_mask mmapprot_mask mmapflags_mask unlinkflags_mask)

text \<open>A host call that fails reports the positive error number: the wrappers
  pass \<^verbatim>\<open>errno\<close>, not its negation, to \<^verbatim>\<open>tuxerr\<close>, which returns a non-negative
  argument unchanged.  A failed read, write, seek or truncate is therefore
  indistinguishable from a success with that count.\<close>

lemma host_failure_positive:
  assumes "file \<noteq> NULL" "hostfiles w file = Some hf" "0 \<le> k_errno K x"
  shows "(k_read K (hf_fd hf) sz (ext w) = ((- 1, []), x) \<longrightarrow>
           host_read K file buf sz w = Ret (k_errno K x) (w\<lparr>ext := x\<rparr>)) \<and>
         (k_write K (hf_fd hf) (load_bytes (mem w) buf (unat sz)) (ext w) = (- 1, x) \<longrightarrow>
           host_write K file buf sz w = Ret (k_errno K x) (w\<lparr>ext := x\<rparr>)) \<and>
         (k_ftruncate K (hf_fd hf) len (ext w) = (- 1, x) \<longrightarrow>
           host_ftruncate K file len w = Ret (k_errno K x) (w\<lparr>ext := x\<rparr>))"
  using assms
  by (simp add: host_read_def host_write_def host_ftruncate_def write_mem_def return_count_def
      return_zero_def return_tuxerr_def tuxerr_def kcall_def run_simps)

definition demo_hostw :: "int hostw" where
  "demo_hostw = \<lparr>ext = 0, mem = \<lambda>_. 0, nextp = 9, hostfiles = [9 \<mapsto> \<lparr>hf_fd = - 1\<rparr>]\<rparr>"

lemma host_failure_positive_example:
  "host_read demo_linux 9 64 3 demo_hostw = Ret 5 demo_hostw"
proof -
  have "host_read demo_linux 9 64 3 demo_hostw = Ret (k_errno demo_linux 0) (demo_hostw\<lparr>ext := 0\<rparr>)"
    using host_failure_positive [of 9 demo_hostw "\<lparr>hf_fd = - 1\<rparr>" demo_linux 0 3 64 0]
    by (simp add: demo_hostw_def demo_kernel_defs demo_read_def)
  then show ?thesis by (simp add: demo_hostw_def demo_kernel_defs)
qed

end
