(* ===== verification/Tux_VM.thy ===== *)
theory Tux_VM
  imports Tux_Host
begin

text \<open>
  The platform abstraction layer: platforms and sandbox address spaces
  (\<^verbatim>\<open>src/pal/platform.c\<close>, \<^verbatim>\<open>src/pal/vm.c\<close>, \<^verbatim>\<open>src/pal/platform.h\<close>).  The libraries
  libmmap (bookkeeping of mapped regions) and libboxmap (placement of 4 GiB
  boxes) are parameters.
\<close>

section \<open>Parameters: libmmap and libboxmap\<close>

text \<open>
  A handle is named by the object that owns it: \<^verbatim>\<open>&as->mm\<close> by the address
  space, the box map by its pointer.  \<open>mm_mapat_cb\<close> and \<open>mm_unmap_cb\<close> return,
  beside their result, the ranges they pass to the unmap callback, in order.
\<close>

record 'x pal = "'x linux" +
  mm_init :: "ptr \<Rightarrow> u64 \<Rightarrow> u64 \<Rightarrow> u64 \<Rightarrow> 'x \<Rightarrow> bool \<times> 'x"
  mm_mapany :: "ptr \<Rightarrow> u64 \<Rightarrow> u32 \<Rightarrow> u32 \<Rightarrow> ptr \<Rightarrow> int \<Rightarrow> 'x \<Rightarrow> u64 \<times> 'x"
  mm_mapat_cb :: "ptr \<Rightarrow> u64 \<Rightarrow> u64 \<Rightarrow> u32 \<Rightarrow> u32 \<Rightarrow> ptr \<Rightarrow> int \<Rightarrow> 'x \<Rightarrow> (u64 \<times> (u64 \<times> u64) list) \<times> 'x"
  mm_unmap :: "ptr \<Rightarrow> u64 \<Rightarrow> u64 \<Rightarrow> 'x \<Rightarrow> int \<times> 'x"
  mm_unmap_cb :: "ptr \<Rightarrow> u64 \<Rightarrow> u64 \<Rightarrow> 'x \<Rightarrow> (int \<times> (u64 \<times> u64) list) \<times> 'x"
  boxmap_new :: "u64 \<Rightarrow> u64 \<Rightarrow> u64 \<Rightarrow> 'x \<Rightarrow> ptr \<times> 'x"
  boxmap_reserve :: "ptr \<Rightarrow> u64 \<Rightarrow> 'x \<Rightarrow> bool \<times> 'x"
  boxmap_addspace :: "ptr \<Rightarrow> u64 \<Rightarrow> 'x \<Rightarrow> u64 \<times> 'x"
  boxmap_rmspace :: "ptr \<Rightarrow> u64 \<Rightarrow> u64 \<Rightarrow> 'x \<Rightarrow> unit \<times> 'x"
  boxmap_delete :: "ptr \<Rightarrow> 'x \<Rightarrow> unit \<times> 'x"

section \<open>State\<close>

record PlatOptions =
  pagesize :: u64
  vmsize :: u64
  sysexternal :: bool

text \<open>The only handler the library installs is \<^verbatim>\<open>lfi_tux_syscall\<close>.\<close>

datatype SysHandlerFn = Lfi_tux_syscall

record LFIPlatform =
  bm :: ptr
  opts :: PlatOptions
  syshandler :: "SysHandlerFn option"

record LFIAddrSpace =
  as_base :: u64
  as_size :: u64
  minaddr :: u64
  maxaddr :: u64
  as_plat :: ptr

record LFIAddrSpaceInfo =
  info_base :: u64
  info_size :: u64
  info_minaddr :: u64
  info_maxaddr :: u64

record 'x vmw = "'x hostw" +
  plats :: "ptr \<rightharpoonup> LFIPlatform"
  aspaces :: "ptr \<rightharpoonup> LFIAddrSpace"

section \<open>\<^verbatim>\<open>pal/platform.c\<close>\<close>

definition gb :: "u64 \<Rightarrow> u64" where
  "gb x = x * 1024 * 1024 * 1024"

definition lfi_new_plat :: "('x, 'e) pal_scheme \<Rightarrow> u64 \<Rightarrow> (('x, 'z) vmw_scheme, ptr) prog" where
  "lfi_new_plat P pgsz =
     (let o' = \<lparr>pagesize = pgsz, vmsize = gb 4, sysexternal = False\<rparr>
      in bindM (malloc P) (\<lambda>plat.
         if plat = NULL then ret NULL
         else bindM (kcall (boxmap_new P (gb 4) (gb 4) 0)) (\<lambda>b.
         if b = NULL then ret NULL
         else bindM (kcall (boxmap_reserve P b (gb 256))) (\<lambda>ok.
         if \<not> ok then bindM (kcall (boxmap_delete P b)) (\<lambda>_. ret NULL)
         else bindM (modifyM (\<lambda>w. w\<lparr>plats := (plats w)(plat \<mapsto>
                \<lparr>bm = b, opts = o', syshandler = None\<rparr>)\<rparr>)) (\<lambda>_. ret plat)))))"

definition lfi_sys_handler :: "ptr \<Rightarrow> SysHandlerFn \<Rightarrow> (('x, 'z) vmw_scheme, unit) prog" where
  "lfi_sys_handler plat fn =
     bindM (deref plats plat) (\<lambda>pl.
     modifyM (\<lambda>w. w\<lparr>plats := (plats w)(plat \<mapsto> pl\<lparr>syshandler := Some fn\<rparr>)\<rparr>))"

section \<open>\<^verbatim>\<open>pal/vm.c\<close>\<close>

definition guardsize :: u64 where
  "guardsize = 80 * 1024"

definition lfi_as_new :: "('x, 'e) pal_scheme \<Rightarrow> ptr \<Rightarrow> (('x, 'z) vmw_scheme, ptr) prog" where
  "lfi_as_new P plat =
     bindM (malloc P) (\<lambda>as.
     if as = NULL then ret NULL
     else bindM (deref plats plat) (\<lambda>pl.
     let sz = vmsize (opts pl) in
     bindM (kcall (boxmap_addspace P (bm pl) sz)) (\<lambda>base.
     if base = 0 then ret NULL
     else
       let mn = base + guardsize + pagesize (opts pl);
           mx = base + sz - guardsize
       in bindM (modifyM (\<lambda>w. w\<lparr>aspaces := (aspaces w)(as \<mapsto>
              \<lparr>as_base = base, as_size = sz, minaddr = mn, maxaddr = mx, as_plat = plat\<rparr>)\<rparr>)) (\<lambda>_.
          bindM (kcall (mm_init P as mn (mx - mn) (pagesize (opts pl)))) (\<lambda>ok.
          if \<not> ok then
            bindM (kcall (boxmap_rmspace P (bm pl) base sz)) (\<lambda>_.
            bindM (modifyM (\<lambda>w. w\<lparr>aspaces := (aspaces w)(as := None)\<rparr>)) (\<lambda>_. ret NULL))
          else ret as)))))"

definition lfi_as_info :: "ptr \<Rightarrow> (('x, 'z) vmw_scheme, LFIAddrSpaceInfo) prog" where
  "lfi_as_info as =
     bindM (deref aspaces as) (\<lambda>a.
     ret \<lparr>info_base = as_base a, info_size = as_size a,
          info_minaddr = minaddr a, info_maxaddr = maxaddr a\<rparr>)"

text \<open>\<^verbatim>\<open>return -errno\<close> after a failed \<^verbatim>\<open>mmap\<close>.\<close>

definition asmap ::
  "('x, 'e) pal_scheme \<Rightarrow> u64 \<Rightarrow> u64 \<Rightarrow> u32 \<Rightarrow> u32 \<Rightarrow> ptr \<Rightarrow> int \<Rightarrow> (('x, 'z) vmw_scheme, int) prog" where
  "asmap P start sz prot flags hf off =
     bindM (host_mmap P start sz prot (flags OR MAP_FIXED) hf off) (\<lambda>m.
     if m = MAP_FAILED then gets (\<lambda>w. - k_errno P (ext w)) else ret 0)"

definition lfi_as_mapany ::
  "('x, 'e) pal_scheme \<Rightarrow> ptr \<Rightarrow> u64 \<Rightarrow> u32 \<Rightarrow> u32 \<Rightarrow> ptr \<Rightarrow> int \<Rightarrow> (('x, 'z) vmw_scheme, u64) prog" where
  "lfi_as_mapany P as sz prot flags hf off =
     bindM (deref aspaces as) (\<lambda>_.
     bindM (kcall (mm_mapany P as sz prot flags hf off)) (\<lambda>addr.
     if addr = - 1 then ret 0
     else bindM (asmap P addr sz prot flags hf off) (\<lambda>r.
     if r < 0 then bindM (kcall (mm_unmap P as addr sz)) (\<lambda>_. ret (- 1))
     else ret addr)))"

definition cbunmap :: "('x, 'e) pal_scheme \<Rightarrow> u64 \<times> u64 \<Rightarrow> (('x, 'z) vmw_scheme, unit) prog" where
  "cbunmap P rng =
     bindM (host_mmap P (fst rng) (snd rng) LFI_PROT_NONE
             (LFI_MAP_ANONYMOUS OR LFI_MAP_PRIVATE OR LFI_MAP_FIXED) NULL 0) (\<lambda>p.
     assertM (p = fst rng))"

definition lfi_as_mapat ::
  "('x, 'e) pal_scheme \<Rightarrow> ptr \<Rightarrow> u64 \<Rightarrow> u64 \<Rightarrow> u32 \<Rightarrow> u32 \<Rightarrow> ptr \<Rightarrow> int \<Rightarrow> (('x, 'z) vmw_scheme, u64) prog" where
  "lfi_as_mapat P as addr sz prot flags hf off =
     bindM (deref aspaces as) (\<lambda>a.
     bindM (assertM (addr \<ge> minaddr a \<and> addr + sz \<le> maxaddr a)) (\<lambda>_.
     bindM (kcall (mm_mapat_cb P as addr sz prot flags hf off)) (\<lambda>(addr', unmapped).
     bindM (forM unmapped (cbunmap P)) (\<lambda>_.
     if addr' = - 1 then ret (- 1)
     else bindM (asmap P addr' sz prot flags hf off) (\<lambda>r.
     if r < 0 then bindM (kcall (mm_unmap P as addr' sz)) (\<lambda>_. ret (- 1))
     else ret addr')))))"

definition lfi_as_mprotect ::
  "('x, 'e) pal_scheme \<Rightarrow> ptr \<Rightarrow> u64 \<Rightarrow> u64 \<Rightarrow> u32 \<Rightarrow> (('x, 'z) vmw_scheme, int) prog" where
  "lfi_as_mprotect P as addr sz prot =
     bindM (deref aspaces as) (\<lambda>a.
     bindM (assertM (addr \<ge> minaddr a \<and> addr + sz \<le> maxaddr a)) (\<lambda>_.
     host_mprotect P addr sz prot))"

definition lfi_as_munmap ::
  "('x, 'e) pal_scheme \<Rightarrow> ptr \<Rightarrow> u64 \<Rightarrow> u64 \<Rightarrow> (('x, 'z) vmw_scheme, int) prog" where
  "lfi_as_munmap P as addr sz =
     bindM (deref aspaces as) (\<lambda>a.
     if addr \<ge> minaddr a \<and> addr + sz < maxaddr a then
       bindM (kcall (mm_unmap_cb P as addr sz)) (\<lambda>(r, unmapped).
       bindM (forM unmapped (cbunmap P)) (\<lambda>_. ret r))
     else ret (- 1))"

definition lfi_as_free :: "ptr \<Rightarrow> (('x, 'z) vmw_scheme, unit) prog" where
  "lfi_as_free as = raise AssertFail"

definition lfi_as_toptr :: "ptr \<Rightarrow> u64 \<Rightarrow> (('x, 'z) vmw_scheme, u64) prog" where
  "lfi_as_toptr as p =
     bindM (deref aspaces as) (\<lambda>a.
     bindM (assertM (p \<ge> minaddr a \<and> p < maxaddr a)) (\<lambda>_. ret p))"

definition lfi_as_fmptr :: "ptr \<Rightarrow> u64 \<Rightarrow> (('x, 'z) vmw_scheme, u64) prog" where
  "lfi_as_fmptr as userp =
     bindM (deref aspaces as) (\<lambda>a.
     ret (if userp \<ge> minaddr a \<and> userp < maxaddr a then userp else 0))"

definition lfi_as_validptr :: "ptr \<Rightarrow> u64 \<Rightarrow> (('x, 'z) vmw_scheme, u64) prog" where
  "lfi_as_validptr as asp = ret asp"

definition demo_pal :: "int pal" where
  "demo_pal = linux.extend demo_linux (pal.fields
     (\<lambda>as mn sz pg x. (True, x))
     (\<lambda>as n prot fl hf off x. (if n \<le> 0x10000 then 0x100100000 else - 1, x))
     (\<lambda>as a n prot fl hf off x. ((a, [(a, n)]), x))
     (\<lambda>as a n x. (0, x))
     (\<lambda>as a n x. ((0, [(a, n)]), x))
     (\<lambda>a b c x. (90, x))
     (\<lambda>b n x. (True, x))
     (\<lambda>b n x. (0x100000000, x))
     (\<lambda>b a n x. ((), x))
     (\<lambda>b x. ((), x)))"

lemmas demo_pal_defs = demo_pal_def pal.defs demo_kernel_defs

section \<open>Confinement of mappings\<close>

text \<open>
  What the address space functions do to memory, given the documented
  behaviour of their parameters: \<^verbatim>\<open>mmap\<close> with \<^verbatim>\<open>MAP_FIXED\<close> returns the address
  it was asked for or fails; libmmap hands out ranges inside the region it
  was initialised with, and calls back on parts of the range it was given.
\<close>

definition same_outside :: "u64 \<Rightarrow> u64 \<Rightarrow> memory \<Rightarrow> memory \<Rightarrow> bool" where
  "same_outside lo hi m m' \<longleftrightarrow> (\<forall>x. \<not> (lo \<le> x \<and> x < hi) \<longrightarrow> m' x = m x)"

lemma same_outside_refl [simp]: "same_outside lo hi m m"
  by (simp add: same_outside_def)

lemma same_outside_trans: "same_outside lo hi m m' \<Longrightarrow> same_outside lo hi m' m'' \<Longrightarrow> same_outside lo hi m m''"
  by (simp add: same_outside_def)

lemma same_outside_fill:
  "lo \<le> a \<Longrightarrow> unat a + unat n \<le> unat hi \<Longrightarrow> same_outside lo hi m (fill_range m a n c)"
  unfolding same_outside_def using in_range_interval fill_range_outside by metis

definition mmap_fixed :: "('x, 'e) kernel_scheme \<Rightarrow> bool" where
  "mmap_fixed K \<longleftrightarrow> (\<forall>addr len prot flags fd off x. flags AND MAP_FIXED \<noteq> 0 \<longrightarrow>
     fst (fst (k_mmap K addr len prot flags fd off x)) \<in> {addr, MAP_FAILED})"

lemma mmapflags_keeps_fixed: "mmapflags (flags OR MAP_FIXED) AND MAP_FIXED \<noteq> 0"
proof -
  have "mmapflags (flags OR MAP_FIXED) AND MAP_FIXED = MAP_FIXED"
    by (simp add: mmapflags_mask and.assoc bit.conj_disj_distrib2)
  then show ?thesis by simp
qed

definition subranges :: "u64 \<Rightarrow> u64 \<Rightarrow> (u64 \<times> u64) list \<Rightarrow> bool" where
  "subranges addr sz rs \<longleftrightarrow> (\<forall>(s, l) \<in> set rs. addr \<le> s \<and> unat s + unat l \<le> unat addr + unat sz)"

definition mm_within :: "('x, 'e) pal_scheme \<Rightarrow> ptr \<Rightarrow> u64 \<Rightarrow> u64 \<Rightarrow> bool" where
  "mm_within P as lo hi \<longleftrightarrow>
     (\<forall>sz prot flags hf off x. let a = fst (mm_mapany P as sz prot flags hf off x) in
        a = - 1 \<or> lo \<le> a \<and> unat a + unat sz \<le> unat hi) \<and>
     (\<forall>addr sz prot flags hf off x. let r = fst (mm_mapat_cb P as addr sz prot flags hf off x) in
        fst r \<in> {addr, - 1} \<and> subranges addr sz (snd r)) \<and>
     (\<forall>addr sz x. subranges addr sz (snd (fst (mm_unmap_cb P as addr sz x))))"

definition file_ok :: "('x, 'z) hostw_scheme \<Rightarrow> ptr \<Rightarrow> bool" where
  "file_ok w f \<longleftrightarrow> f = NULL \<or> f \<in> dom (hostfiles w)"

text \<open>Fixed mappings inside an interval change nothing outside.\<close>

definition confined :: "u64 \<Rightarrow> u64 \<Rightarrow> ('x, 'z) hostw_scheme \<Rightarrow> ('x, 'z) hostw_scheme \<Rightarrow> bool" where
  "confined lo hi w w' \<longleftrightarrow> same_outside lo hi (mem w) (mem w') \<and> w' = w\<lparr>mem := mem w', ext := ext w'\<rparr>"

lemma confined_refl [simp]: "confined lo hi w w"
  unfolding confined_def by simp

lemma confined_trans [trans]: "confined lo hi w w' \<Longrightarrow> confined lo hi w' w'' \<Longrightarrow> confined lo hi w w''"
  by (cases w; cases w'; cases w'') (auto simp: confined_def intro: same_outside_trans)

lemma confined_ext: "confined lo hi w w' \<Longrightarrow> confined lo hi w (w'\<lparr>ext := x\<rparr>)"
  by (cases w; cases w') (simp add: confined_def)

lemma host_mmap_confined:
  assumes "mmap_fixed K" "flags AND MAP_FIXED \<noteq> 0" "file_ok w hf"
    and "lo \<le> a" "unat a + unat n \<le> unat hi"
  shows "wp no_fault (host_mmap K a n prot flags hf off) (\<lambda>p w'. p \<in> {a, MAP_FAILED} \<and> confined lo hi w w') E w"
proof -
  have "mmapflags flags AND MAP_FIXED \<noteq> 0"
    using assms(2) by (simp add: mmapflags_mask and.assoc)
  then have "fst (fst (k_mmap K a n (mmapprot prot) (mmapflags flags) fd off x)) \<in> {a, MAP_FAILED}" for fd x
    using assms(1) by (simp add: mmap_fixed_def)
  then have r: "fst (fst (k_mmap K a n (mmapprot prot) (mmapflags flags) fd off x)) \<noteq> MAP_FAILED \<Longrightarrow>
      fst (fst (k_mmap K a n (mmapprot prot) (mmapflags flags) fd off x)) = a" for fd x
    by blast
  have fill: "confined lo hi w (w\<lparr>ext := x, mem := fill_range (mem w) a n c\<rparr>)" for x c
    unfolding confined_def using same_outside_fill [OF assms(4,5)] by simp
  obtain v where v: "hf \<noteq> NULL \<Longrightarrow> hostfiles w hf = Some v"
    using assms(3) by (auto simp: file_ok_def)
  then show ?thesis
    unfolding host_mmap_def
    by (simp add: wp_rules fill confined_ext r split: if_splits)
qed

lemma file_ok_NULL [simp]: "file_ok w NULL" by (simp add: file_ok_def)

lemma confined_file_ok: "confined lo hi w w' \<Longrightarrow> file_ok w' hf = file_ok w hf"
  by (cases w; cases w') (simp add: confined_def file_ok_def)

lemma confined_aspaces: "confined lo hi w w' \<Longrightarrow> aspaces w' = aspaces w"
  by (cases w; cases w') (simp add: confined_def)

lemma asmap_confined:
  assumes "mmap_fixed P" "file_ok w hf" "lo \<le> a" "unat a + unat n \<le> unat hi"
  shows "wp no_fault (asmap P a n prot flags hf off) (\<lambda>_. confined lo hi w) E w"
proof -
  have "(flags OR MAP_FIXED) AND MAP_FIXED \<noteq> 0" by (simp add: bit.conj_disj_distrib2)
  from host_mmap_confined [OF assms(1) this assms(2-4)]
  show ?thesis unfolding asmap_def by (rule wp_bindI) (auto simp: wp_rules)
qed

lemma cbunmap_confined:
  assumes "mmap_fixed P" "lo \<le> fst rng" "unat (fst rng) + unat (snd rng) \<le> unat hi" "confined lo hi w v"
  shows "wp only_assert (cbunmap P rng) (\<lambda>_. confined lo hi w) E v"
proof -
  have "(LFI_MAP_ANONYMOUS OR LFI_MAP_PRIVATE OR LFI_MAP_FIXED) AND MAP_FIXED \<noteq> (0::u32)" by simp
  from wp_weaken_fault [OF host_mmap_confined [OF assms(1) this file_ok_NULL assms(2,3)]]
  show ?thesis unfolding cbunmap_def
    by (rule wp_bindI) (use assms(4) in \<open>auto simp: wp_rules intro: confined_trans\<close>)
qed

lemma unmap_all_confined:
  assumes "mmap_fixed P" "subranges addr n rs" "lo \<le> addr" "unat addr + unat n \<le> unat hi"
    and "confined lo hi w v"
  shows "wp only_assert (forM rs (cbunmap P)) (\<lambda>_. confined lo hi w) E v"
proof (rule wp_forM [where I = "confined lo hi w"])
  fix rng t assume "rng \<in> set rs" "confined lo hi w t"
  then show "wp only_assert (cbunmap P rng) (\<lambda>_. confined lo hi w) E t"
    using assms(1-4) by (intro cbunmap_confined) (auto simp: subranges_def split_beta)
qed (rule assms(5))

text \<open>The common tail of \<^verbatim>\<open>lfi_as_mapany\<close> and \<^verbatim>\<open>lfi_as_mapat\<close>: map, or undo the reservation.\<close>

lemma asmap_or_undo_confined:
  assumes "mmap_fixed P" "file_ok w hf" "lo \<le> a" "unat a + unat n \<le> unat hi" "confined lo hi w v"
  shows "wp only_assert (bindM (asmap P a n prot flags hf off) (\<lambda>r.
     if r < 0 then bindM (kcall (mm_unmap P as a n)) (\<lambda>_. ret (- 1)) else ret a))
     (\<lambda>r w'. confined lo hi w w' \<and> r \<in> {a, - 1}) E v"
proof -
  have "file_ok v hf" using assms(2,5) confined_file_ok by metis
  from wp_weaken_fault [OF asmap_confined [OF assms(1) this assms(3,4)]]
  show ?thesis by (rule wp_bindI) (use assms(5) in \<open>auto simp: wp_rules intro: confined_trans confined_ext\<close>)
qed

lemma mapat_confined:
  assumes "mmap_fixed P" "mm_within P as (minaddr a) (maxaddr a)"
    and "as \<noteq> NULL" "aspaces w as = Some a" "file_ok w hf" "unat addr + unat n < 2 ^ 64"
  shows "wp only_assert (lfi_as_mapat P as addr n prot flags hf off)
           (\<lambda>r w'. confined (minaddr a) (maxaddr a) w w' \<and> r \<in> {addr, - 1}) E w"
proof (cases "addr \<ge> minaddr a \<and> addr + n \<le> maxaddr a")
  case False
  then show ?thesis unfolding lfi_as_mapat_def using assms(3,4) by (auto simp: wp_rules)
next
  case True
  then have fits: "minaddr a \<le> addr" "unat addr + unat n \<le> unat (maxaddr a)"
    using assms(6) by (simp_all add: word_le_nat_alt unat_add_u64)
  obtain a' rs x where m: "mm_mapat_cb P as addr n prot flags hf off (ext w) = ((a', rs), x)"
    by (metis surj_pair)
  have sub: "subranges addr n rs" and a': "a' \<in> {addr, - 1}"
    using assms(2) m unfolding mm_within_def by (metis fst_conv snd_conv)+
  have "wp only_assert (bindM (forM rs (cbunmap P)) (\<lambda>_. if a' = - 1 then ret (- 1)
     else bindM (asmap P a' n prot flags hf off) (\<lambda>r.
     if r < 0 then bindM (kcall (mm_unmap P as a' n)) (\<lambda>_. ret (- 1)) else ret a')))
     (\<lambda>r w'. confined (minaddr a) (maxaddr a) w w' \<and> r \<in> {addr, - 1}) E (w\<lparr>ext := x\<rparr>)"
    using a' by (intro wp_bindI [OF unmap_all_confined [OF assms(1) sub fits confined_ext [OF confined_refl]]])
      (auto simp: wp_ret wp_if simp del: bindM_def intro!: wp_mono [OF asmap_or_undo_confined [OF assms(1,5)]] fits)
  then show ?thesis
    unfolding lfi_as_mapat_def using assms(3,4) True m by (simp add: wp_rules)
qed

lemma mapany_confined:
  assumes "mmap_fixed P" "mm_within P as (minaddr a) (maxaddr a)"
    and "as \<noteq> NULL" "aspaces w as = Some a" "file_ok w hf"
  shows "wp only_assert (lfi_as_mapany P as n prot flags hf off)
           (\<lambda>r w'. confined (minaddr a) (maxaddr a) w w' \<and>
             (r \<in> {0, - 1} \<or> minaddr a \<le> r \<and> unat r + unat n \<le> unat (maxaddr a))) E w"
proof -
  obtain a' x where m: "mm_mapany P as n prot flags hf off (ext w) = (a', x)"
    by (metis surj_pair)
  have fits: "minaddr a \<le> a'" "unat a' + unat n \<le> unat (maxaddr a)" if "a' \<noteq> - 1"
    using assms(2) m that unfolding mm_within_def Let_def by (metis fst_conv)+
  have "wp only_assert (bindM (asmap P a' n prot flags hf off) (\<lambda>r.
     if r < 0 then bindM (kcall (mm_unmap P as a' n)) (\<lambda>_. ret (- 1)) else ret a'))
     (\<lambda>r w'. confined (minaddr a) (maxaddr a) w w' \<and> r \<in> {a', - 1}) E (w\<lparr>ext := x\<rparr>)" if "a' \<noteq> - 1"
    using assms(1,5) fits [OF that] by (intro asmap_or_undo_confined) (auto intro: confined_ext)
  then show ?thesis
    unfolding lfi_as_mapany_def using assms(3,4) m fits
    by (cases "a' = - 1") (auto simp: wp_rules confined_ext elim!: wp_mono)
qed

lemma munmap_confined:
  assumes "mmap_fixed P" "mm_within P as (minaddr a) (maxaddr a)"
    and "as \<noteq> NULL" "aspaces w as = Some a" "unat addr + unat n < 2 ^ 64"
  shows "wp only_assert (lfi_as_munmap P as addr n)
           (\<lambda>r w'. confined (minaddr a) (maxaddr a) w w') E w"
proof (cases "addr \<ge> minaddr a \<and> addr + n < maxaddr a")
  case False
  then show ?thesis unfolding lfi_as_munmap_def using assms(3,4) by (auto simp: wp_rules)
next
  case True
  then have fits: "minaddr a \<le> addr" "unat addr + unat n \<le> unat (maxaddr a)"
    using assms(5) by (simp_all add: word_le_nat_alt word_less_nat_alt unat_add_u64)
  obtain r rs x where m: "mm_unmap_cb P as addr n (ext w) = ((r, rs), x)"
    by (metis surj_pair)
  have sub: "subranges addr n rs"
    using assms(2) m unfolding mm_within_def by (metis fst_conv snd_conv)
  show ?thesis
    unfolding lfi_as_munmap_def using assms(3,4) True m
      unmap_all_confined [OF assms(1) sub fits confined_ext [OF confined_refl]]
    by (simp add: wp_rules)
qed
end
