(* ===== verification/Tux_Ctx.thy ===== *)
theory Tux_Ctx
  imports Tux_VM
begin

text \<open>
  Sandbox contexts: registers (\<^verbatim>\<open>src/include/lfi_arch.h\<close>, \<^verbatim>\<open>src/arch/*/regs.c\<close>,
  \<^verbatim>\<open>src/pal/arch/*/regs.c\<close>), the system page of an address space and the life
  of a context (\<^verbatim>\<open>src/pal/ctx.c\<close>).  Entering and leaving the sandbox is
  assembly (\<^verbatim>\<open>runtime.S\<close>): leaving is the \<open>Exit\<close> outcome.
\<close>

section \<open>Registers\<close>

datatype reg =
  Rsp | Rax | Rcx | Rdx | Rbx | Rbp | Rsi | Rdi | R8 | R9 | R10 | R11 | R12 | R13 | R14 | R15
| Fs | Gs | Xmm nat
| X nat | Sp | Nzcv | Fpsr | Pad | Vector nat

type_synonym TuxRegs = "reg \<Rightarrow> u64"

definition regs_init_x64 :: "TuxRegs \<Rightarrow> u64 \<Rightarrow> u64 \<Rightarrow> TuxRegs" where
  "regs_init_x64 regs entry sp = regs(Rsp := sp, R11 := entry)"

definition regs_init_arm64 :: "TuxRegs \<Rightarrow> u64 \<Rightarrow> u64 \<Rightarrow> TuxRegs" where
  "regs_init_arm64 regs entry sp = regs(Sp := sp, X 30 := entry)"

definition regs_init :: "arch \<Rightarrow> TuxRegs \<Rightarrow> u64 \<Rightarrow> u64 \<Rightarrow> TuxRegs" where
  "regs_init a = (case a of X64 \<Rightarrow> regs_init_x64 | ARM64 \<Rightarrow> regs_init_arm64)"

text \<open>\<^verbatim>\<open>regs_return\<close> and \<^verbatim>\<open>regs_sp\<close> return the address of a member of the structure: its name.\<close>

definition regs_return_x64 :: reg where "regs_return_x64 = Rax"
definition regs_return_arm64 :: reg where "regs_return_arm64 = X 0"
definition regs_sp_x64 :: reg where "regs_sp_x64 = Rsp"
definition regs_sp_arm64 :: reg where "regs_sp_arm64 = Sp"

definition regs_return :: "arch \<Rightarrow> reg" where
  "regs_return a = (case a of X64 \<Rightarrow> regs_return_x64 | ARM64 \<Rightarrow> regs_return_arm64)"

definition regs_sp :: "arch \<Rightarrow> reg" where
  "regs_sp a = (case a of X64 \<Rightarrow> regs_sp_x64 | ARM64 \<Rightarrow> regs_sp_arm64)"

definition lfi_regs_init_x64 :: "TuxRegs \<Rightarrow> LFIAddrSpace \<Rightarrow> u64 \<Rightarrow> TuxRegs" where
  "lfi_regs_init_x64 regs as sys = regs(R14 := as_base as, Gs := as_base as, Rsp := as_base as, R13 := sys)"

definition lfi_regs_init_arm64 :: "TuxRegs \<Rightarrow> LFIAddrSpace \<Rightarrow> u64 \<Rightarrow> TuxRegs" where
  "lfi_regs_init_arm64 regs as sys =
     regs(X 21 := as_base as, X 18 := as_base as, Sp := as_base as, X 30 := as_base as, X 25 := sys)"

definition lfi_regs_init :: "arch \<Rightarrow> TuxRegs \<Rightarrow> LFIAddrSpace \<Rightarrow> u64 \<Rightarrow> TuxRegs" where
  "lfi_regs_init a = (case a of X64 \<Rightarrow> lfi_regs_init_x64 | ARM64 \<Rightarrow> lfi_regs_init_arm64)"

section \<open>State\<close>

text \<open>
  \<open>rt_entry i\<close> is the address of the \<open>i\<close>-th entry point of \<^verbatim>\<open>runtime.S\<close> (system
  call, get and set thread pointer, return); \<open>addr_of p\<close> is the numeric value
  of a host pointer; \<open>target\<close> is the architecture the library is built for.
\<close>

record 'x ctxenv = "'x pal" +
  target :: arch
  rt_entry :: "nat \<Rightarrow> u64"
  addr_of :: "ptr \<Rightarrow> u64"

record LFIContext =
  tp :: u64
  regs :: TuxRegs
  ctxp :: ptr
  sys :: u64
  ctx_as :: ptr

record 'x ctxw = "'x vmw" +
  ctxs :: "ptr \<rightharpoonup> LFIContext"
  lfi_myctx :: ptr

section \<open>\<^verbatim>\<open>pal/ctx.c\<close>\<close>

definition sysalloc :: "('x, 'e) ctxenv_scheme \<Rightarrow> LFIPlatform \<Rightarrow> u64 \<Rightarrow> (('x, 'z) ctxw_scheme, u64) prog" where
  "sysalloc P plat base =
     (if sysexternal (opts plat) then
        bindM (malloc P) (\<lambda>p. ret (if p = NULL then 0 else addr_of P p))
      else
        bindM (host_mmap P base (pagesize (opts plat)) (LFI_PROT_READ OR LFI_PROT_WRITE)
                (LFI_MAP_PRIVATE OR LFI_MAP_ANONYMOUS OR LFI_MAP_FIXED) NULL 0) (\<lambda>p.
        ret (if p = MAP_FAILED then 0 else p)))"

text \<open>\<^verbatim>\<open>struct Sys\<close>: 256 runtime calls, then \<^verbatim>\<open>base\<close>, then \<^verbatim>\<open>ctx\<close>.\<close>

definition sys_off_base :: u64 where "sys_off_base = 256 * 8"
definition sys_off_ctx :: u64 where "sys_off_ctx = 257 * 8"

definition write_u64 :: "u64 \<Rightarrow> u64 \<Rightarrow> (('x, 'z) hostw_scheme, unit) prog" where
  "write_u64 a v = write_mem a (le_bytes 8 v)"

definition syssetup ::
  "('x, 'e) ctxenv_scheme \<Rightarrow> LFIPlatform \<Rightarrow> u64 \<Rightarrow> ptr \<Rightarrow> u64 \<Rightarrow> (('x, 'z) ctxw_scheme, unit) prog" where
  "syssetup P plat s ctx base =
     bindM (write_u64 s (rt_entry P 0)) (\<lambda>_.
     bindM (write_u64 (s + 8) (rt_entry P 1)) (\<lambda>_.
     bindM (write_u64 (s + 16) (rt_entry P 2)) (\<lambda>_.
     bindM (write_u64 (s + 24) (rt_entry P 3)) (\<lambda>_.
     bindM (write_u64 (s + sys_off_base) base) (\<lambda>_.
     bindM (if sysexternal (opts plat) then write_u64 (s + sys_off_ctx) (addr_of P ctx) else ret ()) (\<lambda>_.
     bindM (host_mprotect P base (pagesize (opts plat)) LFI_PROT_READ) (\<lambda>err.
     assertM (err = 0))))))))"

text \<open>\<^verbatim>\<open>*ctx = (struct LFIContext) {...}\<close> followed by \<^verbatim>\<open>lfi_regs_init\<close>.\<close>

definition lfi_ctx_new ::
  "('x, 'e) ctxenv_scheme \<Rightarrow> ptr \<Rightarrow> ptr \<Rightarrow> bool \<Rightarrow> (('x, 'z) ctxw_scheme, ptr) prog" where
  "lfi_ctx_new P as cp main =
     bindM (malloc P) (\<lambda>ctx.
     if ctx = NULL then ret NULL
     else
       bindM (deref aspaces as) (\<lambda>a.
       bindM (deref plats (as_plat a)) (\<lambda>plat.
       bindM (if main \<or> sysexternal (opts plat) then
                bindM (sysalloc P plat (as_base a)) (\<lambda>s.
                if s = 0 then ret 0
                else bindM (syssetup P plat s ctx (as_base a)) (\<lambda>_. ret s))
              else ret (as_base a)) (\<lambda>s.
       if (main \<or> sysexternal (opts plat)) \<and> s = 0 then ret NULL
       else bindM (modifyM (\<lambda>w. w\<lparr>ctxs := (ctxs w)(ctx \<mapsto>
                \<lparr>tp = 0, regs = lfi_regs_init (target P) (\<lambda>_. 0) a s,
                 ctxp = cp, sys = s, ctx_as = as\<rparr>)\<rparr>)) (\<lambda>_.
            ret ctx)))))"

definition lfi_ctx_free :: "ptr \<Rightarrow> (('x, 'z) ctxw_scheme, unit) prog" where
  "lfi_ctx_free ctx = modifyM (\<lambda>w. w\<lparr>ctxs := (ctxs w)(ctx := None)\<rparr>)"

text \<open>\<^verbatim>\<open>lfi_ctx_regs\<close> returns a pointer into the context; it is read and written through.\<close>

definition lfi_ctx_regs :: "ptr \<Rightarrow> (('x, 'z) ctxw_scheme, TuxRegs) prog" where
  "lfi_ctx_regs ctx = bindM (deref ctxs ctx) (\<lambda>c. ret (regs c))"

definition set_ctx_regs :: "ptr \<Rightarrow> TuxRegs \<Rightarrow> (('x, 'z) ctxw_scheme, unit) prog" where
  "set_ctx_regs ctx r =
     bindM (deref ctxs ctx) (\<lambda>c. modifyM (\<lambda>w. w\<lparr>ctxs := (ctxs w)(ctx \<mapsto> c\<lparr>regs := r\<rparr>)\<rparr>))"

definition lfi_ctx_data :: "ptr \<Rightarrow> (('x, 'z) ctxw_scheme, ptr) prog" where
  "lfi_ctx_data ctx = bindM (deref ctxs ctx) (\<lambda>c. ret (ctxp c))"

definition lfi_ctx_exit :: "ptr \<Rightarrow> u64 \<Rightarrow> (('x, 'z) ctxw_scheme, 'a) prog" where
  "lfi_ctx_exit ctx val =
     bindM (modifyM (\<lambda>w. w\<lparr>lfi_myctx := NULL\<rparr>)) (\<lambda>_.
     bindM (deref ctxs ctx) (\<lambda>_. exit_with val))"

definition lfi_ctx_pause :: "ptr \<Rightarrow> u64 \<Rightarrow> (('x, 'z) ctxw_scheme, 'a) prog" where
  "lfi_ctx_pause ctx val = bindM (deref ctxs ctx) (\<lambda>_. exit_with val)"

definition lfi_ctx_tpset :: "ptr \<Rightarrow> u64 \<Rightarrow> (('x, 'z) ctxw_scheme, unit) prog" where
  "lfi_ctx_tpset ctx v =
     bindM (deref ctxs ctx) (\<lambda>c. modifyM (\<lambda>w. w\<lparr>ctxs := (ctxs w)(ctx \<mapsto> c\<lparr>tp := v\<rparr>)\<rparr>))"

definition lfi_ctx_as :: "ptr \<Rightarrow> (('x, 'z) ctxw_scheme, ptr) prog" where
  "lfi_ctx_as ctx = bindM (deref ctxs ctx) (\<lambda>c. ret (ctx_as c))"

text \<open>The part of \<^verbatim>\<open>lfi_ctx_run\<close> before the sandbox is entered.\<close>

definition lfi_ctx_run_enter :: "ptr \<Rightarrow> (('x, 'z) ctxw_scheme, unit) prog" where
  "lfi_ctx_run_enter ctx = modifyM (\<lambda>w. w\<lparr>lfi_myctx := ctx\<rparr>)"

end
