(* ===== verification/Tux_State.thy ===== *)
theory Tux_State
  imports Tux_Ctx
begin

text \<open>
  The objects of the Linux personality (\<^verbatim>\<open>src/proc.h\<close>, \<^verbatim>\<open>src/file.h\<close>,
  \<^verbatim>\<open>src/engine.h\<close>, \<^verbatim>\<open>src/include/lfi_tux.h\<close>), the whole state of the library,
  and access to sandbox memory on behalf of a process
  (\<^verbatim>\<open>src/syscalls/syscalls.h\<close>).
\<close>

section \<open>Files\<close>

text \<open>
  Each function pointer of \<^verbatim>\<open>struct FDFile\<close> is a datatype with the functions
  the library assigns to it; \<open>None\<close> is \<^verbatim>\<open>NULL\<close>.
\<close>

datatype read_fn = Fileread
datatype write_fn = Filewrite
datatype lseek_fn = Filelseek
datatype close_fn = Fileclose
datatype stat_fn = Filestat
datatype getdents_fn = Filegetdents
datatype chown_fn = Filechown
datatype chmod_fn = Filechmod
datatype truncate_fn = Filetruncate
datatype sync_fn = Filesync
datatype file_fn = Filefile

record File =
  f_file :: ptr
  f_flags :: u32

record FDFile =
  dev :: ptr
  refs :: u64
  ff_read :: "read_fn option"
  ff_write :: "write_fn option"
  ff_lseek :: "lseek_fn option"
  ff_close :: "close_fn option"
  ff_stat :: "stat_fn option"
  ff_getdents :: "getdents_fn option"
  ff_chown :: "chown_fn option"
  ff_chmod :: "chmod_fn option"
  ff_truncate :: "truncate_fn option"
  ff_sync :: "sync_fn option"
  ff_file :: "file_fn option"

text \<open>The array \<^verbatim>\<open>files\<close> of \<^verbatim>\<open>struct FDTable\<close> is a list of \<^verbatim>\<open>TUX_NOFILE\<close> pointers.\<close>

record FDTable =
  ft_files :: "ptr list"

record Dir =
  dir_file :: ptr
  dir_fd :: ptr

section \<open>Processes, threads and the engine\<close>

record TuxProc =
  p_as :: ptr
  brkbase :: u64
  brksize :: u64
  fdtable :: FDTable
  cwd :: Dir
  p_tux :: ptr
  p_info :: LFIAddrSpaceInfo

record TuxThread =
  p_ctx :: ptr
  stack :: u64
  ctid :: u64
  tid :: int
  proc :: ptr

text \<open>\<open>opt_fs\<close>: whether the embedder set the \<^verbatim>\<open>fs.open\<close> callback.\<close>

record TuxOptions =
  opt_pagesize :: u64
  opt_stacksize :: u64
  pause_on_exit :: bool
  opt_verbose :: bool
  opt_strace :: bool
  opt_perf :: bool
  opt_fs :: bool

record Tux =
  t_plat :: ptr
  t_opts :: TuxOptions
  fstdin :: ptr
  fstdout :: ptr
  fstderr :: ptr

section \<open>Parameters and state\<close>

text \<open>
  \<open>fs_open\<close> is the embedder's \<^verbatim>\<open>fs.open\<close>: the descriptor it opened, which it
  wraps with \<^verbatim>\<open>lfi_host_fdopen\<close>, or \<open>None\<close> for \<^verbatim>\<open>NULL\<close>.  The path functions are
  those of the cwalk library.  \<open>k_pthread_create\<close> returns the error code.
  \<open>k_clock_gettime\<close>, \<open>k_winsize\<close> and \<open>k_sysinfo\<close> are host calls.
\<close>

record 'x tuxenv = "'x ctxenv" +
  fs_open :: "bytes \<Rightarrow> u32 \<Rightarrow> u32 \<Rightarrow> 'x \<Rightarrow> int option \<times> 'x"
  cwk_path_is_absolute :: "bytes \<Rightarrow> bool"
  cwk_path_join :: "bytes \<Rightarrow> bytes \<Rightarrow> nat \<Rightarrow> bytes"
  k_pthread_create :: "ptr \<Rightarrow> 'x \<Rightarrow> int \<times> 'x"
  k_clock_gettime :: "int \<Rightarrow> 'x \<Rightarrow> (int \<times> u64 \<times> u64) \<times> 'x"
  k_winsize :: "int \<Rightarrow> 'x \<Rightarrow> (int \<times> u16 \<times> u16 \<times> u16 \<times> u16) \<times> 'x"
  k_sysinfo :: "'x \<Rightarrow> (int \<times> (nat \<Rightarrow> u64)) \<times> 'x"

record 'x tuxw = "'x ctxw" +
  files :: "ptr \<rightharpoonup> File"
  fdfiles :: "ptr \<rightharpoonup> FDFile"
  procs :: "ptr \<rightharpoonup> TuxProc"
  threads :: "ptr \<rightharpoonup> TuxThread"
  tuxes :: "ptr \<rightharpoonup> Tux"
  next_tid :: int

text \<open>Assignments through a pointer.\<close>

definition set_proc :: "ptr \<Rightarrow> (TuxProc \<Rightarrow> TuxProc) \<Rightarrow> (('x, 'z) tuxw_scheme, unit) prog" where
  "set_proc p f =
     bindM (deref procs p) (\<lambda>v. modifyM (\<lambda>w. w\<lparr>procs := (procs w)(p \<mapsto> f v)\<rparr>))"

definition set_thread :: "ptr \<Rightarrow> (TuxThread \<Rightarrow> TuxThread) \<Rightarrow> (('x, 'z) tuxw_scheme, unit) prog" where
  "set_thread p f =
     bindM (deref threads p) (\<lambda>v. modifyM (\<lambda>w. w\<lparr>threads := (threads w)(p \<mapsto> f v)\<rparr>))"

definition set_fdfile :: "ptr \<Rightarrow> (FDFile \<Rightarrow> FDFile) \<Rightarrow> (('x, 'z) tuxw_scheme, unit) prog" where
  "set_fdfile p f =
     bindM (deref fdfiles p) (\<lambda>v. modifyM (\<lambda>w. w\<lparr>fdfiles := (fdfiles w)(p \<mapsto> f v)\<rparr>))"

definition set_tux :: "ptr \<Rightarrow> (Tux \<Rightarrow> Tux) \<Rightarrow> (('x, 'z) tuxw_scheme, unit) prog" where
  "set_tux p f =
     bindM (deref tuxes p) (\<lambda>v. modifyM (\<lambda>w. w\<lparr>tuxes := (tuxes w)(p \<mapsto> f v)\<rparr>))"

section \<open>\<^verbatim>\<open>syscalls/syscalls.h\<close>\<close>

definition procaddr :: "ptr \<Rightarrow> u64 \<Rightarrow> (('x, 'z) tuxw_scheme, u64) prog" where
  "procaddr p addr = bindM (deref procs p) (\<lambda>pr. lfi_as_validptr (p_as pr) addr)"

definition procuseraddr :: "ptr \<Rightarrow> u64 \<Rightarrow> (('x, 'z) tuxw_scheme, u64) prog" where
  "procuseraddr p addr = bindM (deref procs p) (\<lambda>pr. lfi_as_toptr (p_as pr) addr)"

definition procbuf :: "ptr \<Rightarrow> u64 \<Rightarrow> u64 \<Rightarrow> (('x, 'z) tuxw_scheme, u64) prog" where
  "procbuf p bufp sz = bindM (deref procs p) (\<lambda>pr. lfi_as_fmptr (p_as pr) bufp)"

definition procbufalign :: "ptr \<Rightarrow> u64 \<Rightarrow> u64 \<Rightarrow> u64 \<Rightarrow> (('x, 'z) tuxw_scheme, u64) prog" where
  "procbufalign p bufp sz align =
     bindM (deref procs p) (\<lambda>pr.
     bindM (lfi_as_fmptr (p_as pr) bufp) (\<lambda>buf.
     if buf = 0 then ret 0
     else if buf mod align \<noteq> 0 then ret 0
     else ret buf))"

text \<open>\<^verbatim>\<open>strnlen\<close> of the C library.\<close>

fun strnlen :: "memory \<Rightarrow> u64 \<Rightarrow> nat \<Rightarrow> nat" where
  "strnlen m s 0 = 0"
| "strnlen m s (Suc n) = (if m s = 0 then 0 else Suc (strnlen m (s + 1) n))"

text \<open>The string is read where \<^verbatim>\<open>procpath\<close> returns, so the bytes before its terminator are the result.\<close>

definition procpath :: "ptr \<Rightarrow> u64 \<Rightarrow> (('x, 'z) tuxw_scheme, bytes option) prog" where
  "procpath p pathp =
     bindM (deref procs p) (\<lambda>pr.
     bindM (lfi_as_fmptr (p_as pr) pathp) (\<lambda>str.
     if str = 0 then ret None
     else
       bindM (gets mem) (\<lambda>m.
       let len = strnlen m str TUX_PATH_MAX in
       if str + of_nat len \<ge> info_maxaddr (p_info pr) then ret None
       else if m (str + of_nat len) \<noteq> 0 then ret None
       else ret (Some (load_bytes m str len)))))"

section \<open>A concrete state\<close>

text \<open>
  One process with its three standard streams, for evaluating the model: a
  4 GiB box at \<^verbatim>\<open>0x100000000\<close>, one path in memory, nothing else open.
\<close>

definition demo_env :: "int tuxenv" where
  "demo_env = ctxenv.extend (pal.extend demo_pal (ctxenv.fields X64 (\<lambda>i. 0x400000 + of_nat i) (\<lambda>p. of_nat p)))
     (tuxenv.fields
       (\<lambda>path fl md x. (None, x))
       (\<lambda>s. s \<noteq> [] \<and> hd s = 47)
       (\<lambda>a b n. a @ 47 # b)
       (\<lambda>p x. (0, x))
       (\<lambda>c x. ((0, 100, 200), x))
       (\<lambda>fd x. ((0, 24, 80, 0, 0), x))
       (\<lambda>x. ((0, \<lambda>_. 7), x)))"

lemmas demo_env_defs = demo_env_def ctxenv.defs tuxenv.defs demo_pal_defs

definition demo_as :: LFIAddrSpace where
  "demo_as = \<lparr>as_base = 0x100000000, as_size = 0x100000000, minaddr = 0x100015000,
     maxaddr = 0x1FFFEC000, as_plat = 11\<rparr>"

definition demo_file :: "ptr \<Rightarrow> u64 \<Rightarrow> FDFile" where
  "demo_file d n = \<lparr>dev = d, refs = n,
     ff_read = Some Fileread, ff_write = Some Filewrite, ff_lseek = Some Filelseek,
     ff_close = Some Fileclose, ff_stat = Some Filestat, ff_getdents = Some Filegetdents,
     ff_chown = Some Filechown, ff_chmod = Some Filechmod, ff_truncate = Some Filetruncate,
     ff_sync = Some Filesync, ff_file = Some Filefile\<rparr>"

definition demo_tux :: Tux where
  "demo_tux = \<lparr>t_plat = 11,
     t_opts = \<lparr>opt_pagesize = 4096, opt_stacksize = 0x200000, pause_on_exit = False, opt_verbose = False,
       opt_strace = False, opt_perf = False, opt_fs = False\<rparr>,
     fstdin = 5, fstdout = 7, fstderr = 9\<rparr>"

definition demo_proc :: TuxProc where
  "demo_proc = \<lparr>p_as = 12, brkbase = 0x110000000, brksize = 0x2000,
     fdtable = \<lparr>ft_files = [5, 7, 9] @ replicate 125 NULL\<rparr>,
     cwd = \<lparr>dir_file = NULL, dir_fd = NULL\<rparr>, p_tux = 10,
     p_info = \<lparr>info_base = 0x100000000, info_size = 0x100000000, info_minaddr = 0x100015000,
       info_maxaddr = 0x1FFFEC000\<rparr>\<rparr>"

definition demo_world :: "int tuxw" where
  "demo_world = \<lparr>ext = 0, mem = (\<lambda>_. 0)(0x100020000 := 97), nextp = 15,
     hostfiles = [1 \<mapsto> \<lparr>hf_fd = 0\<rparr>, 2 \<mapsto> \<lparr>hf_fd = 1\<rparr>, 3 \<mapsto> \<lparr>hf_fd = 2\<rparr>],
     plats = [11 \<mapsto> \<lparr>bm = 90, opts = \<lparr>pagesize = 4096, vmsize = 0x100000000, sysexternal = False\<rparr>,
                     syshandler = Some Lfi_tux_syscall\<rparr>],
     aspaces = [12 \<mapsto> demo_as],
     ctxs = [13 \<mapsto> \<lparr>tp = 0, regs = \<lambda>_. 0, ctxp = 15, sys = 0x100000000, ctx_as = 12\<rparr>],
     lfi_myctx = 13,
     files = [4 \<mapsto> \<lparr>f_file = 1, f_flags = 0\<rparr>, 6 \<mapsto> \<lparr>f_file = 2, f_flags = 1\<rparr>, 8 \<mapsto> \<lparr>f_file = 3, f_flags = 1\<rparr>],
     fdfiles = [5 \<mapsto> demo_file 4 2, 7 \<mapsto> demo_file 6 2, 9 \<mapsto> demo_file 8 2],
     procs = [14 \<mapsto> demo_proc],
     threads = [15 \<mapsto> \<lparr>p_ctx = 13, stack = 0, ctid = 0, tid = 10000, proc = 14\<rparr>],
     tuxes = [10 \<mapsto> demo_tux],
     next_tid = 10001\<rparr>"

lemma demo_sel [simp]:
  "ext demo_world = 0" "mem demo_world = (\<lambda>_. 0)(0x100020000 := 97)" "nextp demo_world = 15"
  "hostfiles demo_world = [1 \<mapsto> \<lparr>hf_fd = 0\<rparr>, 2 \<mapsto> \<lparr>hf_fd = 1\<rparr>, 3 \<mapsto> \<lparr>hf_fd = 2\<rparr>]"
  "aspaces demo_world = [12 \<mapsto> demo_as]" "procs demo_world = [14 \<mapsto> demo_proc]"
  "files demo_world = [4 \<mapsto> \<lparr>f_file = 1, f_flags = 0\<rparr>, 6 \<mapsto> \<lparr>f_file = 2, f_flags = 1\<rparr>, 8 \<mapsto> \<lparr>f_file = 3, f_flags = 1\<rparr>]"
  "fdfiles demo_world = [5 \<mapsto> demo_file 4 2, 7 \<mapsto> demo_file 6 2, 9 \<mapsto> demo_file 8 2]"
  "tuxes demo_world = [10 \<mapsto> demo_tux]"
  "plats demo_world = [11 \<mapsto> \<lparr>bm = 90, opts = \<lparr>pagesize = 4096, vmsize = 0x100000000, sysexternal = False\<rparr>,
     syshandler = Some Lfi_tux_syscall\<rparr>]"
  "ctxs demo_world = [13 \<mapsto> \<lparr>tp = 0, regs = \<lambda>_. 0, ctxp = 15, sys = 0x100000000, ctx_as = 12\<rparr>]"
  "threads demo_world = [15 \<mapsto> \<lparr>p_ctx = 13, stack = 0, ctid = 0, tid = 10000, proc = 14\<rparr>]"
  by (simp_all add: demo_world_def)

end
