(* ===== verification/Tux_FD.thy ===== *)
theory Tux_FD
  imports Tux_State
begin

text \<open>
  File objects and file descriptor tables: \<^verbatim>\<open>src/file.c\<close> and \<^verbatim>\<open>src/fd.c\<close>.  The
  table of a process is embedded in it, so \<^verbatim>\<open>&p->fdtable\<close> is named by \<open>p\<close>.
  The mutexes are not part of the state: a function that holds one for its
  whole body is one atomic step; \<open>Tux_FDLocks\<close> has them with their mutexes.
\<close>

section \<open>\<^verbatim>\<open>file.c\<close>\<close>

definition validflags :: "u32 \<Rightarrow> bool" where
  "validflags flags = True"

definition filef :: "ptr \<Rightarrow> (('x, 'z) tuxw_scheme, ptr) prog" where
  "filef d = bindM (deref files d) (\<lambda>f. ret (f_file f))"

definition fileread :: "('x, 'e) tuxenv_scheme \<Rightarrow> ptr \<Rightarrow> u64 \<Rightarrow> u64 \<Rightarrow> (('x, 'z) tuxw_scheme, int) prog" where
  "fileread P d buf buflen = bindM (filef d) (\<lambda>hf. host_read P hf buf buflen)"

definition filewrite :: "('x, 'e) tuxenv_scheme \<Rightarrow> ptr \<Rightarrow> u64 \<Rightarrow> u64 \<Rightarrow> (('x, 'z) tuxw_scheme, int) prog" where
  "filewrite P d buf buflen = bindM (filef d) (\<lambda>hf. host_write P hf buf buflen)"

definition filelseek :: "('x, 'e) tuxenv_scheme \<Rightarrow> ptr \<Rightarrow> int \<Rightarrow> int \<Rightarrow> (('x, 'z) tuxw_scheme, int) prog" where
  "filelseek P d off whence = bindM (filef d) (\<lambda>hf. host_seek P hf (word_of_int off) whence)"

definition filetruncate :: "('x, 'e) tuxenv_scheme \<Rightarrow> ptr \<Rightarrow> int \<Rightarrow> (('x, 'z) tuxw_scheme, int) prog" where
  "filetruncate P d len = bindM (filef d) (\<lambda>hf. host_ftruncate P hf len)"

definition filechown :: "('x, 'e) tuxenv_scheme \<Rightarrow> ptr \<Rightarrow> u32 \<Rightarrow> u32 \<Rightarrow> (('x, 'z) tuxw_scheme, int) prog" where
  "filechown P d owner grp = bindM (filef d) (\<lambda>hf. host_fchown P hf owner grp)"

definition filechmod :: "('x, 'e) tuxenv_scheme \<Rightarrow> ptr \<Rightarrow> u32 \<Rightarrow> (('x, 'z) tuxw_scheme, int) prog" where
  "filechmod P d mode = bindM (filef d) (\<lambda>hf. host_fchmod P hf mode)"

definition fileclose :: "('x, 'e) tuxenv_scheme \<Rightarrow> ptr \<Rightarrow> (('x, 'z) tuxw_scheme, int) prog" where
  "fileclose P d = bindM (filef d) (\<lambda>hf. host_close P hf)"

definition filestat :: "('x, 'e) tuxenv_scheme \<Rightarrow> ptr \<Rightarrow> u64 \<Rightarrow> (('x, 'z) tuxw_scheme, int) prog" where
  "filestat P d st = bindM (filef d) (\<lambda>hf. host_fstat P (target P) hf st)"

definition filesync :: "('x, 'e) tuxenv_scheme \<Rightarrow> ptr \<Rightarrow> (('x, 'z) tuxw_scheme, int) prog" where
  "filesync P d = bindM (filef d) (\<lambda>hf. host_fsync P hf)"

definition filegetdents :: "('x, 'e) tuxenv_scheme \<Rightarrow> ptr \<Rightarrow> u64 \<Rightarrow> u64 \<Rightarrow> (('x, 'z) tuxw_scheme, int) prog" where
  "filegetdents P d dirp cnt = bindM (filef d) (\<lambda>hf. host_getdents64 P hf dirp cnt)"

definition filefile :: "ptr \<Rightarrow> (('x, 'z) tuxw_scheme, ptr) prog" where
  "filefile d = filef d"

text \<open>\<^verbatim>\<open>f->file(f->dev)\<close>: the call through the function pointer.\<close>

definition call_file :: "file_fn \<Rightarrow> ptr \<Rightarrow> (('x, 'z) tuxw_scheme, ptr) prog" where
  "call_file fn d = (case fn of Filefile \<Rightarrow> filefile d)"

definition call_close :: "('x, 'e) tuxenv_scheme \<Rightarrow> close_fn \<Rightarrow> ptr \<Rightarrow> (('x, 'z) tuxw_scheme, int) prog" where
  "call_close P fn d = (case fn of Fileclose \<Rightarrow> fileclose P d)"

definition filefnew :: "('x, 'e) tuxenv_scheme \<Rightarrow> ptr \<Rightarrow> u32 \<Rightarrow> (('x, 'z) tuxw_scheme, ptr) prog" where
  "filefnew P kfile flags =
     bindM (malloc P) (\<lambda>f.
     if f = NULL then ret NULL
     else
       bindM (modifyM (\<lambda>w. w\<lparr>files := (files w)(f \<mapsto> \<lparr>f_file = kfile, f_flags = flags\<rparr>)\<rparr>)) (\<lambda>_.
       bindM (malloc P) (\<lambda>ff.
       if ff = NULL then
         bindM (modifyM (\<lambda>w. w\<lparr>files := (files w)(f := None)\<rparr>)) (\<lambda>_. ret NULL)
       else
         bindM (modifyM (\<lambda>w. w\<lparr>fdfiles := (fdfiles w)(ff \<mapsto>
           \<lparr>dev = f, refs = 0,
            ff_read = Some Fileread, ff_write = Some Filewrite, ff_lseek = Some Filelseek,
            ff_close = Some Fileclose, ff_stat = Some Filestat, ff_getdents = Some Filegetdents,
            ff_chown = Some Filechown, ff_chmod = Some Filechmod, ff_truncate = Some Filetruncate,
            ff_sync = Some Filesync, ff_file = Some Filefile\<rparr>)\<rparr>)) (\<lambda>_.
         ret ff))))"

text \<open>The embedder's \<^verbatim>\<open>fs.open\<close>, a descriptor wrapped by \<^verbatim>\<open>lfi_host_fdopen\<close> or \<^verbatim>\<open>NULL\<close>.\<close>

definition opts_fs_open ::
  "('x, 'e) tuxenv_scheme \<Rightarrow> bytes \<Rightarrow> u32 \<Rightarrow> u32 \<Rightarrow> (('x, 'z) tuxw_scheme, ptr) prog" where
  "opts_fs_open P path flags mode =
     bindM (kcall (fs_open P path flags mode)) (\<lambda>r.
     case r of None \<Rightarrow> ret NULL | Some fd \<Rightarrow> lfi_host_fdopen P fd)"

definition filenew ::
  "('x, 'e) tuxenv_scheme \<Rightarrow> ptr \<Rightarrow> ptr \<Rightarrow> bytes \<Rightarrow> u32 \<Rightarrow> u32 \<Rightarrow> (('x, 'z) tuxw_scheme, ptr) prog" where
  "filenew P tux dir path flags mode =
     (if \<not> validflags flags then ret NULL
      else
        let fullflags = flags;
            flags = (if flags AND TUX_O_CLOEXEC \<noteq> 0 then flags AND NOT TUX_O_CLOEXEC else flags)
        in bindM (deref tuxes tux) (\<lambda>t.
           bindM (if opt_fs (t_opts t) \<and> dir = NULL then opts_fs_open P path flags mode else ret NULL) (\<lambda>f0.
           bindM (if f0 = NULL then host_openat P dir path flags mode else ret f0) (\<lambda>f.
           if f = NULL then ret NULL else filefnew P f fullflags))))"

section \<open>\<^verbatim>\<open>fd.c\<close>\<close>

definition fdassign :: "ptr \<Rightarrow> int \<Rightarrow> ptr \<Rightarrow> (('x, 'z) tuxw_scheme, unit) prog" where
  "fdassign t fd ff =
     bindM (set_fdfile ff (\<lambda>f. f\<lparr>refs := refs f + 1\<rparr>)) (\<lambda>_.
     if 0 \<le> fd \<and> fd < int TUX_NOFILE then
       set_proc t (\<lambda>p. p\<lparr>fdtable := \<lparr>ft_files = (ft_files (fdtable p))[nat fd := ff]\<rparr>\<rparr>)
     else raise OutOfBounds)"

text \<open>The loop of \<^verbatim>\<open>fdalloc\<close> from index \<open>i\<close> over the rest of the array.\<close>

fun fdalloc_loop :: "ptr list \<Rightarrow> int \<Rightarrow> int" where
  "fdalloc_loop [] i = i"
| "fdalloc_loop (f # fs) i = (if f = NULL then i else fdalloc_loop fs (i + 1))"

definition fdalloc :: "ptr \<Rightarrow> (('x, 'z) tuxw_scheme, int) prog" where
  "fdalloc t =
     bindM (deref procs t) (\<lambda>p.
     let i = fdalloc_loop (ft_files (fdtable p)) 0
     in ret (if i \<ge> int TUX_NOFILE then - 1 else i))"

definition fdhas_x :: "ptr list \<Rightarrow> int \<Rightarrow> bool" where
  "fdhas_x fs fd \<longleftrightarrow> fd \<ge> 0 \<and> fd < int TUX_NOFILE \<and> fs ! nat fd \<noteq> NULL"

definition fdget :: "ptr \<Rightarrow> int \<Rightarrow> (('x, 'z) tuxw_scheme, ptr) prog" where
  "fdget t fd =
     bindM (deref procs t) (\<lambda>p.
     ret (if fdhas_x (ft_files (fdtable p)) fd then ft_files (fdtable p) ! nat fd else NULL))"

definition fdhas :: "ptr \<Rightarrow> int \<Rightarrow> (('x, 'z) tuxw_scheme, bool) prog" where
  "fdhas t fd = bindM (deref procs t) (\<lambda>p. ret (fdhas_x (ft_files (fdtable p)) fd))"

definition fdrelease :: "('x, 'e) tuxenv_scheme \<Rightarrow> ptr \<Rightarrow> ptr \<Rightarrow> (('x, 'z) tuxw_scheme, unit) prog" where
  "fdrelease P f p =
     bindM (set_fdfile f (\<lambda>v. v\<lparr>refs := refs v - 1\<rparr>)) (\<lambda>_.
     bindM (deref fdfiles f) (\<lambda>v.
     if refs v = 0 then
       bindM (case ff_close v of None \<Rightarrow> ret 0 | Some fn \<Rightarrow> call_close P fn (dev v)) (\<lambda>_.
       modifyM (\<lambda>w. w\<lparr>fdfiles := (fdfiles w)(f := None)\<rparr>))
     else ret ()))"

definition fdremove_x :: "('x, 'e) tuxenv_scheme \<Rightarrow> ptr \<Rightarrow> int \<Rightarrow> ptr \<Rightarrow> (('x, 'z) tuxw_scheme, bool) prog" where
  "fdremove_x P t fd p =
     bindM (deref procs t) (\<lambda>pr.
     if fdhas_x (ft_files (fdtable pr)) fd then
       bindM (fdrelease P (ft_files (fdtable pr) ! nat fd) p) (\<lambda>_.
       bindM (set_proc t (\<lambda>pr. pr\<lparr>fdtable := \<lparr>ft_files = (ft_files (fdtable pr))[nat fd := NULL]\<rparr>\<rparr>)) (\<lambda>_.
       ret True))
     else ret False)"

definition fdremove :: "('x, 'e) tuxenv_scheme \<Rightarrow> ptr \<Rightarrow> int \<Rightarrow> ptr \<Rightarrow> (('x, 'z) tuxw_scheme, bool) prog" where
  "fdremove P t fd p = fdremove_x P t fd p"

definition fdclear :: "('x, 'e) tuxenv_scheme \<Rightarrow> ptr \<Rightarrow> ptr \<Rightarrow> (('x, 'z) tuxw_scheme, unit) prog" where
  "fdclear P t p =
     forM (map int [0..<TUX_NOFILE]) (\<lambda>fd. bindM (fdremove_x P t fd p) (\<lambda>_. ret ()))"

definition fdinit :: "ptr \<Rightarrow> ptr \<Rightarrow> (('x, 'z) tuxw_scheme, unit) prog" where
  "fdinit tux t =
     bindM (deref tuxes tux) (\<lambda>tx.
     bindM (fdassign t 0 (fstdin tx)) (\<lambda>_.
     bindM (fdassign t 1 (fstdout tx)) (\<lambda>_.
     fdassign t 2 (fstderr tx))))"

section \<open>Descriptor tables\<close>

lemma fdalloc_loop_spec:
  "fdalloc_loop fs i = i + int (length (takeWhile (\<lambda>f. f \<noteq> NULL) fs))"
  by (induction fs i rule: fdalloc_loop.induct) auto

lemma fdalloc_loop_free:
  assumes "fdalloc_loop fs 0 < int (length fs)"
  shows "fs ! nat (fdalloc_loop fs 0) = NULL"
  using assms nth_length_takeWhile [of "\<lambda>f. f \<noteq> NULL" fs] by (simp add: fdalloc_loop_spec)

section \<open>Releasing a file\<close>

lemma fdrelease_shared:
  assumes "f \<noteq> NULL" "fdfiles w f = Some v" "refs v \<noteq> 1"
  shows "fdrelease P f p w = Ret () (w\<lparr>fdfiles := (fdfiles w)(f \<mapsto> v\<lparr>refs := refs v - 1\<rparr>)\<rparr>)"
  using assms by (simp add: fdrelease_def set_fdfile_def run_simps)

lemma fdrelease_last:
  assumes "f \<noteq> NULL" "fdfiles w f = Some v" "refs v = 1" "ff_close v = Some Fileclose"
    and "dev v \<noteq> NULL" "files w (dev v) = Some fl"
    and "f_file fl \<noteq> NULL" "hostfiles w (f_file fl) = Some hf"
    and "f_file fl \<notin> {host_stdin, host_stdout, host_stderr}"
    and "k_close P (hf_fd hf) (ext w) = (r, x)"
  shows "fdrelease P f p w = Ret () (w\<lparr>ext := x,
      hostfiles := (if r < 0 then hostfiles w else (hostfiles w)(f_file fl := None)),
      fdfiles := (fdfiles w)(f := None)\<rparr>)"
  using assms
  by (simp add: fdrelease_def set_fdfile_def call_close_def fileclose_def filef_def host_close_def
      kcall_def set_hostfile_def free_hostfile_def return_tuxerr_def run_simps)

end
