(* ===== verification/Tux_FDInv.thy ===== *)
theory Tux_FDInv
  imports Tux_FD
begin

text \<open>
  The invariant of the file layer and what keeps it.  The count in every
  \<^verbatim>\<open>struct FDFile\<close> is the number of table slots, current directories and
  engine streams that hold it; every held object is live, on a live host file
  it alone owns; every current directory that was opened by path owns its host
  file alone.  From it follows that no descriptor operation uses a freed
  object and that the standard streams are never closed.
\<close>

section \<open>The reference count invariant\<close>

definition proc_refs :: "TuxProc \<Rightarrow> ptr \<Rightarrow> nat" where
  "proc_refs p f = count_list (ft_files (fdtable p)) f + (if dir_fd (cwd p) = f then 1 else 0)"

definition tux_refs :: "Tux \<Rightarrow> ptr \<Rightarrow> nat" where
  "tux_refs t f = count_list [fstdin t, fstdout t, fstderr t] f"

definition refcount :: "('x, 'z) tuxw_scheme \<Rightarrow> ptr \<Rightarrow> nat" where
  "refcount w f = (\<Sum>p\<in>dom (procs w). proc_refs (the (procs w p)) f) +
                  (\<Sum>t\<in>dom (tuxes w). tux_refs (the (tuxes w t)) f)"

definition std_hosts :: "ptr set" where
  "std_hosts = {host_stdin, host_stdout, host_stderr}"

text \<open>The host file behind a file object.\<close>

definition host_of :: "('x, 'z) tuxw_scheme \<Rightarrow> ptr \<Rightarrow> ptr" where
  "host_of w f = (case fdfiles w f of None \<Rightarrow> NULL | Some v \<Rightarrow>
     (case files w (dev v) of None \<Rightarrow> NULL | Some fl \<Rightarrow> f_file fl))"

lemma host_of_cong:
  "map_option dev (fdfiles w' f) = map_option dev (fdfiles w f) \<Longrightarrow> files w' = files w \<Longrightarrow>
   host_of w' f = host_of w f"
  by (auto simp: host_of_def split: option.splits)

definition fns_set :: "FDFile \<Rightarrow> bool" where
  "fns_set v \<longleftrightarrow> ff_read v = Some Fileread \<and> ff_write v = Some Filewrite \<and>
     ff_lseek v = Some Filelseek \<and> ff_close v = Some Fileclose \<and> ff_stat v = Some Filestat \<and>
     ff_getdents v = Some Filegetdents \<and> ff_chown v = Some Filechown \<and> ff_chmod v = Some Filechmod \<and>
     ff_truncate v = Some Filetruncate \<and> ff_sync v = Some Filesync \<and> ff_file v = Some Filefile"

definition objs_ok :: "(ptr \<Rightarrow> nat) \<Rightarrow> ptr set \<Rightarrow> ptr set \<Rightarrow> ('x, 'z) tuxw_scheme \<Rightarrow> bool" where
  "objs_ok cnt pin H w \<longleftrightarrow>
     (\<forall>f. f \<noteq> NULL \<longrightarrow> 0 < cnt f \<longrightarrow> (\<exists>v. fdfiles w f = Some v \<and> unat (refs v) = cnt f)) \<and>
     (\<forall>f v. fdfiles w f = Some v \<longrightarrow> f \<noteq> NULL \<and> f \<le> nextp w \<and> fns_set v \<and> dev v \<noteq> NULL \<and>
        host_of w f \<noteq> NULL \<and> host_of w f \<in> dom (hostfiles w) \<and>
        (host_of w f \<in> std_hosts \<longrightarrow> f \<in> pin) \<and> host_of w f \<notin> H) \<and>
     (\<forall>f g. f \<in> dom (fdfiles w) \<longrightarrow> g \<in> dom (fdfiles w) \<longrightarrow> host_of w f = host_of w g \<longrightarrow>
        f = g \<or> host_of w f \<in> std_hosts) \<and>
     (\<forall>h\<in>H. h \<noteq> NULL \<and> h \<in> dom (hostfiles w) \<and> h \<notin> std_hosts) \<and>
     std_hosts \<subseteq> dom (hostfiles w) \<and>
     dom (files w) \<subseteq> {..nextp w} \<and> dom (hostfiles w) \<subseteq> {..nextp w}"

lemma objs_ok_cnt: "objs_ok cnt pin H w \<Longrightarrow> f \<noteq> NULL \<Longrightarrow> 0 < cnt f \<Longrightarrow>
   \<exists>v. fdfiles w f = Some v \<and> unat (refs v) = cnt f"
  by (simp add: objs_ok_def)

lemma objs_ok_obj: "objs_ok cnt pin H w \<Longrightarrow> fdfiles w f = Some v \<Longrightarrow>
   f \<noteq> NULL \<and> f \<le> nextp w \<and> fns_set v \<and> dev v \<noteq> NULL \<and>
        host_of w f \<noteq> NULL \<and> host_of w f \<in> dom (hostfiles w) \<and>
        (host_of w f \<in> std_hosts \<longrightarrow> f \<in> pin) \<and> host_of w f \<notin> H"
  unfolding objs_ok_def by blast

lemma host_of_File: "host_of w f \<noteq> NULL \<Longrightarrow> fdfiles w f = Some v \<Longrightarrow>
  \<exists>fl. files w (dev v) = Some fl \<and> f_file fl = host_of w f"
  by (auto simp: host_of_def split: option.splits)

text \<open>What a release leaves alone.\<close>

definition released :: "ptr \<Rightarrow> ('x, 'z) tuxw_scheme \<Rightarrow> ('x, 'z) tuxw_scheme \<Rightarrow> bool" where
  "released f w w' \<longleftrightarrow>
     w' = w\<lparr>ext := ext w', hostfiles := hostfiles w', fdfiles := fdfiles w'\<rparr> \<and>
     (\<forall>g. g \<noteq> f \<longrightarrow> fdfiles w' g = fdfiles w g) \<and>
     (\<forall>h. h \<noteq> host_of w f \<longrightarrow> hostfiles w' h = hostfiles w h) \<and>
     (\<forall>v'. fdfiles w' f = Some v' \<longrightarrow> (\<exists>v. fdfiles w f = Some v \<and> dev v' = dev v))"

lemma fdrelease_spec:
  assumes ok: "objs_ok cnt pin H w" and f: "f \<noteq> NULL" "0 < cnt f" "f \<in> pin \<Longrightarrow> 1 < cnt f"
  shows "wp no_fault (fdrelease P f p) (\<lambda>_ w'. objs_ok (cnt(f := cnt f - 1)) pin H w' \<and> released f w w') E w"
proof -
  obtain v where v: "fdfiles w f = Some v" "unat (refs v) = cnt f"
    using objs_ok_cnt [OF ok f(1,2)] by blast
  note obj = objs_ok_obj [OF ok v(1)]
  show ?thesis
  proof (cases "cnt f = 1")
    case False
    then have r: "refs v \<noteq> 1" "unat (refs v - 1) = cnt f - 1"
      using v f(2) by (auto simp: unat_sub word_le_nat_alt)
    let ?w = "w\<lparr>fdfiles := (fdfiles w)(f \<mapsto> v\<lparr>refs := refs v - 1\<rparr>)\<rparr>"
    have h: "host_of ?w = host_of w" using v(1) by (intro ext host_of_cong) auto
    have "objs_ok (cnt(f := cnt f - 1)) pin H ?w"
      using ok v r(2) unfolding objs_ok_def h by (simp add: fns_set_def) (metis domI)
    moreover have "released f w ?w" using v by (simp add: released_def)
    ultimately show ?thesis
      by (simp add: wp_def fdrelease_shared [OF f(1) v(1) r(1)])
  next
    case True
    obtain fl where fl: "files w (dev v) = Some fl" "f_file fl = host_of w f"
      using host_of_File obj v(1) by blast
    obtain hf where hf: "hostfiles w (host_of w f) = Some hf" using obj by blast
    have std: "host_of w f \<notin> std_hosts" using obj f(3) True by auto
    obtain r x where k: "k_close P (hf_fd hf) (ext w) = (r, x)" by fastforce
    have one: "refs v = 1" using v(2) True by (metis unat_1 word_unat_eq_iff)
    have cl: "ff_close v = Some Fileclose"
      using obj by (simp add: fns_set_def)
    let ?w = "w\<lparr>ext := x, hostfiles := (if r < 0 then hostfiles w else (hostfiles w)(f_file fl := None)),
      fdfiles := (fdfiles w)(f := None)\<rparr>"
    have h: "host_of ?w g = host_of w g" if "g \<noteq> f" for g using that by (intro host_of_cong) auto
    have ne: "host_of w g \<noteq> host_of w f" if "g \<noteq> f" "fdfiles w g = Some u" for g u
      using ok that std v(1) unfolding objs_ok_def by (metis domI)
    have "objs_ok (cnt(f := cnt f - 1)) pin H ?w"
      unfolding objs_ok_def
    proof (intro conjI allI impI)
      fix g assume "g \<noteq> NULL" "0 < (cnt(f := cnt f - 1)) g"
      then show "\<exists>v. fdfiles ?w g = Some v \<and> unat (refs v) = (cnt(f := cnt f - 1)) g"
        using True objs_ok_cnt [OF ok] by (auto split: if_splits)
    next
      fix g u assume "fdfiles ?w g = Some u"
      then have g: "g \<noteq> f" "fdfiles w g = Some u" by (auto split: if_splits)
      from objs_ok_obj [OF ok g(2)] ne [OF g] h [OF g(1)] fl(2)
      show "g \<noteq> NULL" "g \<le> nextp ?w" "fns_set u" "dev u \<noteq> NULL" "host_of ?w g \<noteq> NULL"
        "host_of ?w g \<in> dom (hostfiles ?w)" "host_of ?w g \<notin> H"
        by auto
      assume "host_of ?w g \<in> std_hosts"
      then show "g \<in> pin" using objs_ok_obj [OF ok g(2)] h [OF g(1)] by simp
    next
      fix a b assume "a \<in> dom (fdfiles ?w)" "b \<in> dom (fdfiles ?w)" "host_of ?w a = host_of ?w b"
      then show "a = b \<or> host_of ?w a \<in> std_hosts"
        using ok h [of a] h [of b] unfolding objs_ok_def by (auto split: if_splits)
    next
      show "\<forall>h\<in>H. h \<noteq> NULL \<and> h \<in> dom (hostfiles ?w) \<and> h \<notin> std_hosts"
        using ok fl obj unfolding objs_ok_def by auto
      show "std_hosts \<subseteq> dom (hostfiles ?w)"
        using ok fl std unfolding objs_ok_def by auto
      show "dom (files ?w) \<subseteq> {..nextp ?w}" "dom (hostfiles ?w) \<subseteq> {..nextp ?w}"
        using ok unfolding objs_ok_def by (auto split: if_splits)
    qed
    moreover have "released f w ?w" using fl(2) by (simp add: released_def)
    ultimately show ?thesis
      using fdrelease_last [OF f(1) v(1) one cl _ fl(1) _ _ _ k, of p] obj fl hf std
      by (simp add: wp_def std_hosts_def)
  qed
qed

definition pinned :: "('x, 'z) tuxw_scheme \<Rightarrow> ptr set" where
  "pinned w = {f. \<exists>t tx. tuxes w t = Some tx \<and> 0 < tux_refs tx f}"

definition cwds :: "('x, 'z) tuxw_scheme \<Rightarrow> ptr \<Rightarrow> Dir option" where
  "cwds w p = map_option cwd (procs w p)"

definition cwd_hosts :: "('x, 'z) tuxw_scheme \<Rightarrow> ptr set" where
  "cwd_hosts w = {h. h \<noteq> NULL \<and> (\<exists>p d. cwds w p = Some d \<and> dir_fd d = NULL \<and> dir_file d = h)}"

definition procs_ok :: "('x, 'z) tuxw_scheme \<Rightarrow> bool" where
  "procs_ok w \<longleftrightarrow>
     finite (dom (procs w)) \<and> finite (dom (tuxes w)) \<and>
     card (dom (procs w)) \<le> 2 ^ 32 \<and> card (dom (tuxes w)) \<le> 2 ^ 32 \<and>
     (\<forall>p pr. procs w p = Some pr \<longrightarrow> length (ft_files (fdtable pr)) = TUX_NOFILE) \<and>
     (\<forall>p d. cwds w p = Some d \<longrightarrow> dir_fd d \<noteq> NULL \<longrightarrow> dir_file d = host_of w (dir_fd d)) \<and>
     (\<forall>p q d e. cwds w p = Some d \<longrightarrow> cwds w q = Some e \<longrightarrow> dir_fd d = NULL \<longrightarrow> dir_fd e = NULL \<longrightarrow>
        dir_file d = dir_file e \<longrightarrow> dir_file d = NULL \<or> p = q)"

definition fd_inv :: "('x, 'z) tuxw_scheme \<Rightarrow> bool" where
  "fd_inv w \<longleftrightarrow> objs_ok (refcount w) (pinned w) (cwd_hosts w) w \<and> procs_ok w"

lemma objs_ok_cong:
  assumes "\<And>f. f \<noteq> NULL \<Longrightarrow> cnt f = cnt' f"
  shows "objs_ok cnt pin H w = objs_ok cnt' pin H w"
  unfolding objs_ok_def using assms by auto

text \<open>The invariant depends on six stores only.\<close>

lemma host_of_frame: "fdfiles w' = fdfiles w \<Longrightarrow> files w' = files w \<Longrightarrow> host_of w' = host_of w"
  by (intro ext host_of_cong) auto

lemma objs_ok_frame:
  assumes "fdfiles w' = fdfiles w" "files w' = files w" "hostfiles w' = hostfiles w" "nextp w' = nextp w"
  shows "objs_ok cnt pin H w' = objs_ok cnt pin H w"
  unfolding objs_ok_def host_of_frame [OF assms(1,2)] assms ..

lemma refcount_frame: "procs w' = procs w \<Longrightarrow> tuxes w' = tuxes w \<Longrightarrow> refcount w' = refcount w"
  by (intro ext) (simp add: refcount_def)

lemma pinned_frame: "tuxes w' = tuxes w \<Longrightarrow> pinned w' = pinned w"
  by (simp add: pinned_def)

lemma cwds_frame: "procs w' = procs w \<Longrightarrow> cwds w' = cwds w"
  by (intro ext) (simp add: cwds_def)

lemma procs_ok_frame:
  assumes "procs w' = procs w" "tuxes w' = tuxes w" "host_of w' = host_of w"
  shows "procs_ok w' = procs_ok w"
  unfolding procs_ok_def cwds_frame [OF assms(1)] assms ..

lemma cwd_hosts_frame: "procs w' = procs w \<Longrightarrow> cwd_hosts w' = cwd_hosts w"
  by (simp add: cwd_hosts_def cwds_def)

lemma refcount_proc:
  assumes "finite (dom (procs w))" "procs w p = Some pr"
  shows "refcount (w\<lparr>procs := (procs w)(p \<mapsto> pr')\<rparr>) f + proc_refs pr f = refcount w f + proc_refs pr' f"
proof -
  let ?g = "\<lambda>q. proc_refs (the (procs w q)) f" and ?g' = "\<lambda>q. proc_refs (the (((procs w)(p \<mapsto> pr')) q)) f"
  have p: "p \<in> dom (procs w)" using assms(2) by blast
  have "sum ?g' (dom (procs w)) = ?g' p + sum ?g' (dom (procs w) - {p})"
    by (rule sum.remove [OF assms(1) p])
  moreover have "sum ?g (dom (procs w)) = ?g p + sum ?g (dom (procs w) - {p})"
    by (rule sum.remove [OF assms(1) p])
  moreover have "sum ?g' (dom (procs w) - {p}) = sum ?g (dom (procs w) - {p})"
    by (rule sum.cong) auto
  moreover have "insert p (dom (procs w)) = dom (procs w)" using p by blast
  ultimately show ?thesis using assms(2) by (simp add: refcount_def)
qed

lemma refcount_ge:
  assumes "finite (dom (procs w))" "finite (dom (tuxes w))" "procs w p = Some pr"
  shows "proc_refs pr f + (if f \<in> pinned w then 1 else 0) \<le> refcount w f"
proof -
  have "proc_refs pr f \<le> (\<Sum>q\<in>dom (procs w). proc_refs (the (procs w q)) f)"
    using assms member_le_sum [of p "dom (procs w)" "\<lambda>q. proc_refs (the (procs w q)) f"]
    by force
  moreover have "1 \<le> (\<Sum>t\<in>dom (tuxes w). tux_refs (the (tuxes w t)) f)" if "f \<in> pinned w"
  proof -
    from that obtain t tx where t: "tuxes w t = Some tx" "0 < tux_refs tx f" by (auto simp: pinned_def)
    then have "tux_refs tx f \<le> (\<Sum>t\<in>dom (tuxes w). tux_refs (the (tuxes w t)) f)"
      using assms(2) member_le_sum [of t "dom (tuxes w)" "\<lambda>t. tux_refs (the (tuxes w t)) f"]
      by force
    then show ?thesis using t(2) by simp
  qed
  ultimately show ?thesis by (simp add: refcount_def add_mono)
qed

lemma proc_refs_le: "length (ft_files (fdtable pr)) = TUX_NOFILE \<Longrightarrow> proc_refs pr f \<le> 129"
  using count_list_le [of "ft_files (fdtable pr)" f] by (simp add: proc_refs_def)

lemma tux_refs_le: "tux_refs t f \<le> 3"
  using count_list_le [of "[fstdin t, fstdout t, fstderr t]" f] by (simp add: tux_refs_def)

text \<open>The counts stay far below the range of \<^verbatim>\<open>size_t\<close>.\<close>

lemma refcount_room:
  assumes "procs_ok w"
  shows "refcount w f + 1 < 2 ^ 64"
proof -
  have "(\<Sum>p\<in>dom (procs w). proc_refs (the (procs w p)) f) \<le> card (dom (procs w)) * 129"
    using assms sum_bounded_above [of "dom (procs w)" "\<lambda>p. proc_refs (the (procs w p)) f" 129]
    by (force simp: procs_ok_def intro: proc_refs_le)
  moreover have "(\<Sum>t\<in>dom (tuxes w). tux_refs (the (tuxes w t)) f) \<le> card (dom (tuxes w)) * 3"
    using sum_bounded_above [of "dom (tuxes w)" "\<lambda>t. tux_refs (the (tuxes w t)) f" 3]
    by (simp add: tux_refs_le)
  ultimately show ?thesis using assms by (simp add: refcount_def procs_ok_def)
qed

text \<open>The address space \<open>as\<close> is live, on a platform with a system call handler.\<close>

definition as_ready :: "('x, 'z) tuxw_scheme \<Rightarrow> ptr \<Rightarrow> bool" where
  "as_ready w as \<longleftrightarrow> as \<noteq> NULL \<and> (\<exists>a pl. aspaces w as = Some a \<and> as_plat a \<noteq> NULL \<and>
     plats w (as_plat a) = Some pl \<and> syshandler pl \<noteq> None)"

definition proc_ready :: "('x, 'z) tuxw_scheme \<Rightarrow> ptr \<Rightarrow> bool" where
  "proc_ready w p \<longleftrightarrow> p \<noteq> NULL \<and> (\<exists>pr. procs w p = Some pr \<and>
     p_tux pr \<noteq> NULL \<and> p_tux pr \<in> dom (tuxes w) \<and> as_ready w (p_as pr))"

text \<open>Every thread of the processes \<open>R\<close> has a live context that leads back to it.\<close>

definition threads_ok :: "ptr set \<Rightarrow> ('x, 'z) tuxw_scheme \<Rightarrow> bool" where
  "threads_ok R w \<longleftrightarrow> dom (threads w) \<subseteq> {..nextp w} \<and> dom (ctxs w) \<subseteq> {..nextp w} \<and>
     (\<forall>t th. threads w t = Some th \<longrightarrow> proc th \<in> R \<longrightarrow>
        t \<noteq> NULL \<and> p_ctx th \<noteq> NULL \<and> 
        (\<exists>c. ctxs w (p_ctx th) = Some c \<and> ctxp c = t \<and> as_ready w (ctx_as c)))"

definition tux_inv :: "ptr set \<Rightarrow> ('x, 'z) tuxw_scheme \<Rightarrow> bool" where
  "tux_inv R w \<longleftrightarrow> fd_inv w \<and> (\<forall>p\<in>R. proc_ready w p) \<and> threads_ok R w"

lemma threads_ok_frame:
  assumes "threads_ok R w" "threads w' = threads w" "ctxs w' = ctxs w" "nextp w \<le> nextp w'"
    "aspaces w' = aspaces w" "plats w' = plats w"
  shows "threads_ok R w'"
proof -
  have r: "as_ready w' = as_ready w" by (intro ext) (simp add: as_ready_def assms(5,6))
 
  have "{..nextp w} \<subseteq> {..nextp w'}" using assms(4) by simp
  then show ?thesis using assms(1) unfolding threads_ok_def assms(2,3) r
    by (elim conjE) (intro conjI; (assumption | erule (1) subset_trans))
qed

lemma threads_ok_upd [simp]:
  "threads_ok R (w\<lparr>procs := ps\<rparr>) = threads_ok R w" "threads_ok R (w\<lparr>fdfiles := fs\<rparr>) = threads_ok R w"
  "threads_ok R (w\<lparr>ext := x\<rparr>) = threads_ok R w" "threads_ok R (w\<lparr>hostfiles := hs\<rparr>) = threads_ok R w"
  by (simp_all add: threads_ok_def as_ready_def)

lemma tux_inv_frame:
  assumes "procs w' = procs w" "tuxes w' = tuxes w" "fdfiles w' = fdfiles w" "files w' = files w"
    "hostfiles w' = hostfiles w" "nextp w' = nextp w" "aspaces w' = aspaces w" "plats w' = plats w"
    "threads w' = threads w" "ctxs w' = ctxs w"
  shows "tux_inv R w' = tux_inv R w"
  unfolding tux_inv_def fd_inv_def procs_ok_def proc_ready_def threads_ok_def as_ready_def
    refcount_frame [OF assms(1,2)] pinned_frame [OF assms(2)] cwd_hosts_frame [OF assms(1)] cwds_frame [OF assms(1)]
    objs_ok_frame [OF assms(3-6)] host_of_frame [OF assms(3,4)] assms ..

lemma tux_inv_mem [simp]: "tux_inv R (w\<lparr>mem := m\<rparr>) = tux_inv R w"
  and tux_inv_ext [simp]: "tux_inv R (w\<lparr>ext := x\<rparr>) = tux_inv R w"
  and tux_inv_myctx [simp]: "tux_inv R (w\<lparr>lfi_myctx := q\<rparr>) = tux_inv R w"
  and tux_inv_tid [simp]: "tux_inv R (w\<lparr>next_tid := i\<rparr>) = tux_inv R w"
  by (rule tux_inv_frame; simp)+

text \<open>The host file \<open>h\<close> is live, unless it is \<^verbatim>\<open>NULL\<close>.\<close>

definition tux_inv_host :: "ptr set \<Rightarrow> ptr \<Rightarrow> ('x, 'z) tuxw_scheme \<Rightarrow> bool" where
  "tux_inv_host R h w \<longleftrightarrow> tux_inv R w \<and> (h \<noteq> NULL \<longrightarrow> h \<in> dom (hostfiles w))"

interpretation fdc: host_client "tux_inv_host R h" h for R h
  by unfold_locales (auto simp: tux_inv_host_def)

lemma fd_inv_slot:
  assumes "fd_inv w" "procs w t = Some pr" "fdhas_x (ft_files (fdtable pr)) fd"
  shows "0 < proc_refs pr (ft_files (fdtable pr) ! nat fd)" "nat fd < length (ft_files (fdtable pr))"
proof -
  show "nat fd < length (ft_files (fdtable pr))"
    using assms by (auto simp: fd_inv_def procs_ok_def fdhas_x_def)
  then show "0 < proc_refs pr (ft_files (fdtable pr) ! nat fd)"
    by (simp add: proc_refs_def count_list_pos)
qed

text \<open>A descriptor that is in use denotes a live file object on a live host file.\<close>

lemma fdget_spec:
  assumes "tux_inv R w" "t \<in> R"
  shows "wp F (fdget t fd) (\<lambda>f w'. w' = w \<and> (f \<noteq> NULL \<longrightarrow>
     (\<exists>v fl. fdfiles w f = Some v \<and> fns_set v \<and> dev v \<noteq> NULL \<and> files w (dev v) = Some fl \<and>
       f_file fl = host_of w f \<and> f_file fl \<noteq> NULL \<and> f_file fl \<in> dom (hostfiles w)))) E w"
proof -
  obtain pr where pr: "t \<noteq> NULL" "procs w t = Some pr"
    using assms by (auto simp: tux_inv_def proc_ready_def)
  have inv: "fd_inv w" using assms by (simp add: tux_inv_def)
  let ?f = "ft_files (fdtable pr) ! nat fd"
  have "\<exists>v fl. fdfiles w ?f = Some v \<and> fns_set v \<and> dev v \<noteq> NULL \<and> files w (dev v) = Some fl \<and>
       f_file fl = host_of w ?f \<and> f_file fl \<noteq> NULL \<and> f_file fl \<in> dom (hostfiles w)"
    if has: "fdhas_x (ft_files (fdtable pr)) fd"
  proof -
    have f: "?f \<noteq> NULL" using has by (simp add: fdhas_x_def)
    have "0 < refcount w ?f"
      using fd_inv_slot [OF inv pr(2) has] refcount_ge [of w t pr ?f] pr inv
      by (simp add: fd_inv_def procs_ok_def)
    then obtain v where v: "fdfiles w ?f = Some v"
      using objs_ok_cnt [of "refcount w" "pinned w" "cwd_hosts w" w ?f] inv f by (auto simp: fd_inv_def)
    then show ?thesis
      using objs_ok_obj [OF _ v] host_of_File [OF _ v] inv by (fastforce simp: fd_inv_def)
  qed
  then show ?thesis using pr by (simp add: fdget_def wp_rules)
qed

lemma proc_refs_slot:
  assumes "i < length (ft_files (fdtable pr))"
  shows "proc_refs (pr\<lparr>fdtable := \<lparr>ft_files = (ft_files (fdtable pr))[i := v]\<rparr>\<rparr>) f +
           (if ft_files (fdtable pr) ! i = f then 1 else 0) =
         proc_refs pr f + (if v = f then 1 else 0)"
  using count_list_update [OF assms, of v f] by (simp add: proc_refs_def)

text \<open>Changing one slot of a table, with the file objects already counted accordingly.\<close>

lemma fd_inv_set_slot:
  assumes objs: "objs_ok cnt (pinned w) (cwd_hosts w) w" and procs: "procs_ok w"
    and pr: "procs w t = Some pr" and i: "i < TUX_NOFILE"
    and cnt: "\<And>f. f \<noteq> NULL \<Longrightarrow> cnt f + (if ft_files (fdtable pr) ! i = f then 1 else 0) =
                     refcount w f + (if v = f then 1 else 0)"
  shows "fd_inv (w\<lparr>procs := (procs w)(t \<mapsto> pr\<lparr>fdtable := \<lparr>ft_files = (ft_files (fdtable pr))[i := v]\<rparr>\<rparr>)\<rparr>)"
    (is "fd_inv ?w")
proof -
  have fin: "finite (dom (Tux_State.procs w))" and len: "length (ft_files (fdtable pr)) = TUX_NOFILE"
    using procs pr by (auto simp: procs_ok_def)
  have rc: "refcount ?w f = cnt f" if "f \<noteq> NULL" for f
    using refcount_proc [OF fin pr, of "pr\<lparr>fdtable := \<lparr>ft_files = (ft_files (fdtable pr))[i := v]\<rparr>\<rparr>" f]
      proc_refs_slot [of i pr v f] cnt [OF that] i len by simp
  have cwds: "cwds ?w = cwds w" using pr by (auto simp: cwds_def)
  moreover have "host_of ?w = host_of w" by (rule host_of_frame) simp_all
  ultimately have H: "cwd_hosts ?w = cwd_hosts w" "pinned ?w = pinned w" "host_of ?w = host_of w"
    by (simp_all add: cwd_hosts_def pinned_def)
  have "objs_ok cnt (pinned w) (cwd_hosts w) ?w"
    using objs by (subst objs_ok_frame [of _ w]) simp_all
  then have "objs_ok (refcount ?w) (pinned ?w) (cwd_hosts ?w) ?w"
    unfolding H by (subst objs_ok_cong [OF rc]) simp_all
  moreover have "procs_ok ?w"
    using procs pr len unfolding procs_ok_def H cwds by (auto simp: insert_absorb domI)
  ultimately show ?thesis by (simp add: fd_inv_def)
qed

lemma released_same:
  assumes "released f w w'"
  shows "procs w' = procs w" "tuxes w' = tuxes w" "files w' = files w" "aspaces w' = aspaces w"
    "nextp w' = nextp w" "mem w' = mem w" "plats w' = plats w" "threads w' = threads w" "ctxs w' = ctxs w"
proof -
  have eq: "w' = w\<lparr>ext := ext w', hostfiles := hostfiles w', fdfiles := fdfiles w'\<rparr>"
    using assms by (simp add: released_def)
  show "procs w' = procs w" using arg_cong [OF eq, of procs] by simp
  show "tuxes w' = tuxes w" using arg_cong [OF eq, of tuxes] by simp
  show "files w' = files w" using arg_cong [OF eq, of files] by simp
  show "aspaces w' = aspaces w" using arg_cong [OF eq, of aspaces] by simp
  show "nextp w' = nextp w" using arg_cong [OF eq, of nextp] by simp
  show "mem w' = mem w" using arg_cong [OF eq, of mem] by simp
  show "plats w' = plats w" using arg_cong [OF eq, of plats] by simp
  show "threads w' = threads w" using arg_cong [OF eq, of threads] by simp
  show "ctxs w' = ctxs w" using arg_cong [OF eq, of ctxs] by simp
qed

lemma released_host_of:
  assumes "released f w w'" "g \<in> dom (fdfiles w')"
  shows "host_of w' g = host_of w g"
proof (rule host_of_cong)
  show "files w' = files w" by (rule released_same [OF assms(1)])
  show "map_option dev (fdfiles w' g) = map_option dev (fdfiles w g)"
    using assms unfolding released_def by (cases "g = f") auto
qed

text \<open>
  Releasing a reference keeps the well-formedness of processes when every
  file that is some process's current directory is still referenced.
\<close>

lemma released_procs_ok:
  assumes "procs_ok w" "released f w w'" "objs_ok cnt pin H w'"
    and "\<And>p d. cwds w p = Some d \<Longrightarrow> dir_fd d \<noteq> NULL \<Longrightarrow> 0 < cnt (dir_fd d)"
  shows "procs_ok w'"
proof -
  note same = released_same [OF assms(2)]
  have "host_of w' (dir_fd d) = host_of w (dir_fd d)" if "cwds w p = Some d" "dir_fd d \<noteq> NULL" for p d
    using assms(4) [OF that] objs_ok_cnt [OF assms(3) that(2)]
    by (intro released_host_of [OF assms(2)]) auto
  then show ?thesis
    using assms(1) unfolding procs_ok_def cwds_frame [OF same(1)] same by simp
qed

lemma proc_ready_upd:
  assumes "proc_ready w q" "procs w t = Some pr" "p_tux pr' = p_tux pr" "p_as pr' = p_as pr"
  shows "proc_ready (w\<lparr>procs := (procs w)(t \<mapsto> pr')\<rparr>) q"
  using assms by (auto simp: proc_ready_def as_ready_def)

lemma proc_ready_frame:
  "procs w' = procs w \<Longrightarrow> tuxes w' = tuxes w \<Longrightarrow> aspaces w' = aspaces w \<Longrightarrow>
    plats w' = plats w \<Longrightarrow> proc_ready w' q = proc_ready w q"
  by (simp add: proc_ready_def as_ready_def)

text \<open>A file that a process uses as its directory keeps a reference when a slot is cleared.\<close>

lemma cwd_still_referenced:
  assumes "procs_ok w" "procs w t = Some pr" "i < TUX_NOFILE" "cwds w q = Some d"
    and "ft_files (fdtable pr) ! i = dir_fd d" "dir_fd d \<noteq> NULL"
  shows "1 < refcount w (dir_fd d)"
proof -
  let ?f = "dir_fd d" and ?pr = "pr\<lparr>fdtable := \<lparr>ft_files = (ft_files (fdtable pr))[i := NULL]\<rparr>\<rparr>"
  let ?w = "w\<lparr>procs := (procs w)(t \<mapsto> ?pr)\<rparr>"
  have fin: "finite (dom (procs w))" "finite (dom (tuxes w))" and len: "i < length (ft_files (fdtable pr))"
    using assms(1-3) by (auto simp: procs_ok_def)
  obtain qr where q: "procs ?w q = Some qr" "dir_fd (cwd qr) = ?f"
    using assms(2,4) by (cases "q = t") (auto simp: cwds_def)
  then have "1 \<le> refcount ?w ?f"
    using refcount_ge [of ?w q qr ?f] fin by (auto simp: proc_refs_def split: if_splits)
  then show ?thesis
    using refcount_proc [OF fin(1) assms(2), of ?pr ?f] proc_refs_slot [OF len, of NULL ?f] assms(5,6)
    by simp
qed

lemma fdremove_x_spec:
  assumes inv: "tux_inv R w" and t: "t \<in> R"
  shows "wp F (fdremove_x P t fd p) (\<lambda>_. tux_inv R) E w"
proof -
  obtain pr where pr: "t \<noteq> NULL" "procs w t = Some pr"
    using assms by (auto simp: tux_inv_def proc_ready_def)
  have fi: "fd_inv w" and po: "procs_ok w" using inv by (simp_all add: tux_inv_def fd_inv_def)
  show ?thesis
  proof (cases "fdhas_x (ft_files (fdtable pr)) fd")
    case False
    then show ?thesis using pr inv by (simp add: fdremove_x_def wp_rules)
  next
    case has: True
    let ?i = "nat fd" and ?f = "ft_files (fdtable pr) ! nat fd"
    have f: "?f \<noteq> NULL" and i: "?i < TUX_NOFILE" using has by (auto simp: fdhas_x_def)
    have ge: "proc_refs pr ?f + (if ?f \<in> pinned w then 1 else 0) \<le> refcount w ?f" "0 < proc_refs pr ?f"
      using refcount_ge [of w t pr] po pr fd_inv_slot [OF fi pr(2) has] by (auto simp: procs_ok_def)
    let ?cnt = "(refcount w)(?f := refcount w ?f - 1)"
    have "wp F (fdrelease P ?f p) (\<lambda>_ w'. objs_ok ?cnt (pinned w) (cwd_hosts w) w' \<and> released ?f w w') E w"
      using fi ge f by (intro wp_weaken_fault [OF fdrelease_spec]) (auto simp: fd_inv_def)
    moreover have "tux_inv R (w'\<lparr>procs := (procs w')(t \<mapsto> pr\<lparr>fdtable := \<lparr>ft_files = (ft_files (fdtable pr))[?i := NULL]\<rparr>\<rparr>)\<rparr>)"
      (is "tux_inv R ?w2") if w': "objs_ok ?cnt (pinned w) (cwd_hosts w) w'" "released ?f w w'" for w'
    proof -
      note same = released_same [OF w'(2)]
      have "procs_ok w'"
      proof (rule released_procs_ok [OF po w'(2,1)])
        fix q d assume d: "cwds w q = Some d" "dir_fd d \<noteq> NULL"
        then obtain qr where "procs w q = Some qr" "dir_fd (cwd qr) = dir_fd d" by (auto simp: cwds_def)
        then have "0 < refcount w (dir_fd d)"
          using refcount_ge [of w q qr "dir_fd d"] po by (auto simp: procs_ok_def proc_refs_def)
        then show "0 < ?cnt (dir_fd d)"
          using cwd_still_referenced [OF po pr(2) i d(1)] d(2) by auto
      qed
      then have "fd_inv ?w2"
        using w'(1) pr(2) i same ge f refcount_frame [OF same(1,2)] pinned_frame [OF same(2)] cwd_hosts_frame [OF same(1)]
        by (intro fd_inv_set_slot [where cnt = ?cnt]) auto
      moreover have "proc_ready ?w2 q" if "q \<in> R" for q
      proof (rule proc_ready_upd)
        show "proc_ready w' q"
          using inv that proc_ready_frame [OF same(1,2,4,7)] by (simp add: tux_inv_def)
      qed (use pr same in auto)
      moreover have "threads_ok R w'"
        using inv same by (auto simp: tux_inv_def intro: threads_ok_frame)
      ultimately show ?thesis by (simp add: tux_inv_def)
    qed
    ultimately show ?thesis
      using pr has released_same(1) [of ?f w]
      by (auto simp: fdremove_x_def set_proc_def wp_rules elim!: wp_mono)
  qed
qed

lemma objs_ok_inj: "objs_ok cnt pin H w \<Longrightarrow> f \<in> dom (fdfiles w) \<Longrightarrow> g \<in> dom (fdfiles w) \<Longrightarrow>
   host_of w f = host_of w g \<Longrightarrow> f = g \<or> host_of w f \<in> std_hosts"
  unfolding objs_ok_def by blast

text \<open>Growing the stores.\<close>

lemma objs_ok_nextp: "objs_ok cnt pin H w \<Longrightarrow> nextp w \<le> n \<Longrightarrow> objs_ok cnt pin H (w\<lparr>nextp := n\<rparr>)"
proof -
  assume ok: "objs_ok cnt pin H w" and n: "nextp w \<le> n"
  have h: "host_of (w\<lparr>nextp := n\<rparr>) = host_of w" by (rule host_of_frame) simp_all
  have u: "fdfiles (w\<lparr>nextp := n\<rparr>) = fdfiles w" "files (w\<lparr>nextp := n\<rparr>) = files w"
    "hostfiles (w\<lparr>nextp := n\<rparr>) = hostfiles w" "nextp (w\<lparr>nextp := n\<rparr>) = n" by simp_all
  have sub: "{..nextp w} \<subseteq> {..n}" and le: "\<And>f. f \<le> nextp w \<Longrightarrow> f \<le> n" using n by auto
  show ?thesis using ok unfolding objs_ok_def h u
    by (elim conjE) (intro conjI; (assumption | erule subset_trans [OF _ sub] | blast intro: le))
qed

lemma objs_ok_host:
  assumes "objs_ok cnt pin H w" "h \<le> nextp w"
  shows "objs_ok cnt pin H (w\<lparr>hostfiles := (hostfiles w)(h \<mapsto> hf)\<rparr>)"
proof -
  have h: "host_of (w\<lparr>hostfiles := (hostfiles w)(h \<mapsto> hf)\<rparr>) = host_of w" by (rule host_of_frame) simp_all
  show ?thesis using assms unfolding objs_ok_def h by (auto; blast)
qed

lemma objs_ok_file:
  assumes ok: "objs_ok cnt pin H w" and f: "f \<notin> dom (files w)" "f \<le> nextp w"
  shows "objs_ok cnt pin H (w\<lparr>files := (files w)(f := fl)\<rparr>)"
proof -
  have h: "host_of (w\<lparr>files := (files w)(f := fl)\<rparr>) g = host_of w g" if "fdfiles w g = Some v" for g v
  proof -
    have "dev v \<noteq> f" using objs_ok_obj [OF ok that] host_of_File [OF _ that] f by auto
    then show ?thesis using that by (simp add: host_of_def)
  qed
  have "host_of (w\<lparr>files := (files w)(f := fl)\<rparr>) g = host_of w g" for g
  proof (cases "fdfiles w g")
    case None then show ?thesis by (simp add: host_of_def)
  qed (rule h)
  then have h: "host_of (w\<lparr>files := (files w)(f := fl)\<rparr>) = host_of w" by blast
  show ?thesis using ok f unfolding objs_ok_def h by (auto split: if_splits; blast)
qed

text \<open>A live host file that nothing owns.\<close>

definition unowned :: "('x, 'z) tuxw_scheme \<Rightarrow> ptr \<Rightarrow> bool" where
  "unowned w h \<longleftrightarrow> h \<noteq> NULL \<and> h \<in> dom (hostfiles w) \<and> h \<notin> std_hosts \<and> h \<notin> cwd_hosts w \<and>
     (\<forall>f \<in> dom (fdfiles w). host_of w f \<noteq> h)"

lemma objs_ok_fdfile:
  assumes ok: "objs_ok cnt pin H w" and ff: "ff \<noteq> NULL" "ff \<notin> dom (fdfiles w)" "ff \<le> nextp w"
    and v: "fns_set v" "dev v \<noteq> NULL" "files w (dev v) = Some fl"
    and h: "f_file fl \<noteq> NULL" "f_file fl \<in> dom (hostfiles w)" "f_file fl \<notin> H"
      "f_file fl \<in> std_hosts \<and> ff \<in> pin \<or> f_file fl \<notin> std_hosts \<and> (\<forall>f \<in> dom (fdfiles w). host_of w f \<noteq> f_file fl)"
  shows "objs_ok cnt pin H (w\<lparr>fdfiles := (fdfiles w)(ff \<mapsto> v)\<rparr>)" (is "objs_ok _ _ _ ?w")
proof -
  have old: "host_of ?w g = host_of w g" if "g \<noteq> ff" for g
    using that by (intro host_of_cong) simp_all
  have new: "host_of ?w ff = f_file fl" using v by (simp add: host_of_def)
  have "cnt ff = 0" using objs_ok_cnt [OF ok ff(1)] ff(2) by fastforce
  show ?thesis
    unfolding objs_ok_def
  proof (intro conjI allI impI)
    fix g assume "g \<noteq> NULL" "0 < cnt g"
    then show "\<exists>v. fdfiles ?w g = Some v \<and> unat (refs v) = cnt g"
      using objs_ok_cnt [OF ok] \<open>cnt ff = 0\<close> by (auto split: if_splits)
  next
    fix g u assume u: "fdfiles ?w g = Some u"
    show "g \<noteq> NULL" "g \<le> nextp ?w" "fns_set u" "dev u \<noteq> NULL" "host_of ?w g \<noteq> NULL"
      "host_of ?w g \<in> dom (hostfiles ?w)" "host_of ?w g \<notin> H"
      using u objs_ok_obj [OF ok, of g u] old [of g] new ff v h by (auto split: if_splits)
    assume "host_of ?w g \<in> std_hosts"
    then show "g \<in> pin" using u objs_ok_obj [OF ok, of g u] old [of g] new h by (auto split: if_splits)
  next
    fix a b assume "a \<in> dom (fdfiles ?w)" "b \<in> dom (fdfiles ?w)" "host_of ?w a = host_of ?w b"
    then show "a = b \<or> host_of ?w a \<in> std_hosts"
      using objs_ok_inj [OF ok, of a b] old [of a] old [of b] new h(4)
      by (cases "a = ff"; cases "b = ff") auto
  qed (use ok in \<open>auto simp: objs_ok_def\<close>)
qed

lemma objs_ok_incref:
  assumes ok: "objs_ok cnt pin H w" and v: "fdfiles w f = Some v" "unat (refs v) = cnt f" "cnt f + 1 < 2 ^ 64"
  shows "objs_ok (cnt(f := cnt f + 1)) pin H (w\<lparr>fdfiles := (fdfiles w)(f \<mapsto> v\<lparr>refs := refs v + 1\<rparr>)\<rparr>)"
    (is "objs_ok _ _ _ ?w")
proof -
  have h: "host_of ?w = host_of w" using v(1) by (intro ext host_of_cong) auto
  have "unat (refs v + 1) = cnt f + 1" using v unat_add_u64 [of "refs v" 1] by simp
  then show ?thesis
    using ok v unfolding objs_ok_def h by (simp add: fns_set_def) (metis domI)
qed

text \<open>What is live stays live: a fresh pointer is in no store.\<close>

lemma objs_ok_fresh:
  assumes "objs_ok cnt pin H w"
  shows "Suc (nextp w) \<notin> dom (files w)" "Suc (nextp w) \<notin> dom (fdfiles w)" "Suc (nextp w) \<notin> dom (hostfiles w)"
proof -
  have "Suc (nextp w) \<notin> {..nextp w}" by simp
  then show "Suc (nextp w) \<notin> dom (files w)" "Suc (nextp w) \<notin> dom (hostfiles w)"
    using assms unfolding objs_ok_def by blast+
  show "Suc (nextp w) \<notin> dom (fdfiles w)"
    using objs_ok_obj [OF assms] by fastforce
qed

lemma tux_inv_objs:
  assumes inv: "tux_inv R w" and same: "procs w' = procs w" "tuxes w' = tuxes w" "aspaces w' = aspaces w"
      "plats w' = plats w"
    and thr: "threads w' = threads w" "ctxs w' = ctxs w" "nextp w \<le> nextp w'"
    and objs: "objs_ok (refcount w) (pinned w) (cwd_hosts w) w'"
    and hosts: "\<And>f. f \<in> dom (fdfiles w) \<Longrightarrow> host_of w' f = host_of w f"
  shows "tux_inv R w'"
proof -
  have po: "procs_ok w" and ok: "objs_ok (refcount w) (pinned w) (cwd_hosts w) w"
    using inv by (simp_all add: tux_inv_def fd_inv_def)
  have "host_of w' (dir_fd d) = host_of w (dir_fd d)" if d: "cwds w p = Some d" "dir_fd d \<noteq> NULL" for p d
  proof (rule hosts)
    obtain pr where "procs w p = Some pr" "dir_fd (cwd pr) = dir_fd d" using d by (auto simp: cwds_def)
    then have "0 < refcount w (dir_fd d)"
      using refcount_ge [of w p pr "dir_fd d"] po by (auto simp: procs_ok_def proc_refs_def)
    then show "dir_fd d \<in> dom (fdfiles w)" using objs_ok_cnt [OF ok d(2)] by blast
  qed
  then have "procs_ok w'"
    using po unfolding procs_ok_def cwds_frame [OF same(1)] same by simp
  then show ?thesis
    using inv objs proc_ready_frame [OF same] threads_ok_frame [of R, OF _ thr same(3,4)] unfolding tux_inv_def fd_inv_def
      refcount_frame [OF same(1,2)] pinned_frame [OF same(2)] cwd_hosts_frame [OF same(1)] by simp
qed

lemma tux_inv_objsD: "tux_inv R w \<Longrightarrow> objs_ok (refcount w) (pinned w) (cwd_hosts w) w"
  by (simp add: tux_inv_def fd_inv_def)

lemma tux_inv_nextp: "tux_inv R w \<Longrightarrow> tux_inv R (w\<lparr>nextp := Suc (nextp w)\<rparr>)"
  by (rule tux_inv_objs [of R w]) (auto intro: objs_ok_nextp tux_inv_objsD host_of_cong)

lemma tux_inv_new_host:
  assumes "tux_inv R w" "h \<le> nextp w"
  shows "tux_inv R (w\<lparr>hostfiles := (hostfiles w)(h \<mapsto> hf)\<rparr>)"
  by (rule tux_inv_objs [OF assms(1)]) (use assms in \<open>auto intro: objs_ok_host tux_inv_objsD host_of_cong\<close>)

lemma unowned_fresh:
  assumes "tux_inv R w" "\<not> h \<le> nextp w"
  shows "unowned (w\<lparr>nextp := h, ext := x, hostfiles := (hostfiles w)(h \<mapsto> hf)\<rparr>) h"
proof -
  let ?w = "w\<lparr>nextp := h, ext := x, hostfiles := (hostfiles w)(h \<mapsto> hf)\<rparr>"
  have ok: "objs_ok (refcount w) (pinned w) (cwd_hosts w) w" by (rule tux_inv_objsD [OF assms(1)])
  have "h \<notin> dom (hostfiles w)" using ok assms(2) by (auto simp: objs_ok_def)
  moreover have "cwd_hosts ?w = cwd_hosts w" by (rule cwd_hosts_frame) simp
  moreover have "host_of ?w = host_of w" by (rule host_of_frame) simp_all
  ultimately show ?thesis
    using ok assms(2) unfolding objs_ok_def unowned_def by auto
qed

lemma host_openat_spec:
  assumes inv: "tux_inv R w" and dir: "dir \<noteq> NULL \<Longrightarrow> dir \<in> dom (hostfiles w)"
  shows "wp F (host_openat P dir path fl md) (\<lambda>h w'. tux_inv R w' \<and> (h \<noteq> NULL \<longrightarrow> unowned w' h)) E w"
proof -
  have n: "tux_inv R (w\<lparr>nextp := Suc (nextp w)\<rparr>)" by (rule tux_inv_nextp [OF inv])
  have "tux_inv R (w\<lparr>nextp := Suc (nextp w), ext := x, hostfiles := (hostfiles w)(Suc (nextp w) \<mapsto> hf)\<rparr>)" for x hf
    using tux_inv_new_host [of R "w\<lparr>nextp := Suc (nextp w), ext := x\<rparr>" "Suc (nextp w)" hf] n by simp
  moreover have "unowned (w\<lparr>nextp := Suc (nextp w), ext := x, hostfiles := (hostfiles w)(Suc (nextp w) \<mapsto> hf)\<rparr>) (Suc (nextp w))" for x hf
    by (rule unowned_fresh [OF inv]) simp
  ultimately show ?thesis
    using dir n by (auto simp: host_openat_def fd_or_cwd_def set_hostfile_def wp_rules Let_def split: option.splits)
qed

lemma host_fdopen_spec:
  assumes inv: "tux_inv R w" and "\<And>n. \<not> oom P n"
  shows "wp F (host_fdopen P fd) (\<lambda>h w'. tux_inv R w' \<and> (h \<noteq> NULL \<longrightarrow> unowned w' h)) E w"
proof -
  have n: "tux_inv R (w\<lparr>nextp := Suc (nextp w)\<rparr>)" by (rule tux_inv_nextp [OF inv])
  have "tux_inv R (w\<lparr>nextp := Suc (nextp w), hostfiles := (hostfiles w)(Suc (nextp w) \<mapsto> hf)\<rparr>)" for hf
    using tux_inv_new_host [of R "w\<lparr>nextp := Suc (nextp w)\<rparr>" "Suc (nextp w)" hf] n by simp
  moreover have "unowned (w\<lparr>nextp := Suc (nextp w), hostfiles := (hostfiles w)(Suc (nextp w) \<mapsto> hf)\<rparr>) (Suc (nextp w))" for hf
    using unowned_fresh [OF inv, of "Suc (nextp w)" hf "ext w"] by simp
  ultimately show ?thesis
    using assms(2) by (auto simp: host_fdopen_def set_hostfile_def wp_rules Let_def)
qed

text \<open>A file object that is new: no reference counted, none held.\<close>

definition fresh_obj :: "('x, 'z) tuxw_scheme \<Rightarrow> ptr \<Rightarrow> bool" where
  "fresh_obj w ff \<longleftrightarrow> ff \<noteq> NULL \<and> refcount w ff = 0 \<and> (\<exists>v. fdfiles w ff = Some v \<and> refs v = 0)"

lemma tux_inv_new_file:
  assumes inv: "tux_inv R w" and f: "f \<notin> dom (files w)" "f \<le> nextp w"
  shows "tux_inv R (w\<lparr>files := (files w)(f := u)\<rparr>)"
proof (rule tux_inv_objs [OF inv])
  show "objs_ok (refcount w) (pinned w) (cwd_hosts w) (w\<lparr>files := (files w)(f := u)\<rparr>)"
    by (rule objs_ok_file [OF tux_inv_objsD [OF inv] f])
  fix g assume "g \<in> dom (fdfiles w)"
  then obtain v where v: "fdfiles w g = Some v" by blast
  from objs_ok_obj [OF tux_inv_objsD [OF inv] v] host_of_File [OF _ v] f(1)
  have "dev v \<noteq> f" by auto
  then show "host_of (w\<lparr>files := (files w)(f := u)\<rparr>) g = host_of w g" using v by (simp add: host_of_def)
qed simp_all

lemma tux_inv_new_fdfile:
  assumes inv: "tux_inv R w" and ff: "ff \<noteq> NULL" "ff \<notin> dom (fdfiles w)" "ff \<le> nextp w"
    and v: "fns_set v" "dev v \<noteq> NULL" "refs v = 0" "files w (dev v) = Some fl" "unowned w (f_file fl)"
  shows "tux_inv R (w\<lparr>fdfiles := (fdfiles w)(ff \<mapsto> v)\<rparr>)" "fresh_obj (w\<lparr>fdfiles := (fdfiles w)(ff \<mapsto> v)\<rparr>) ff"
proof -
  let ?w = "w\<lparr>fdfiles := (fdfiles w)(ff \<mapsto> v)\<rparr>"
  show "tux_inv R ?w"
  proof (rule tux_inv_objs [OF inv])
    show "objs_ok (refcount w) (pinned w) (cwd_hosts w) ?w"
      using v by (intro objs_ok_fdfile [OF tux_inv_objsD [OF inv] ff]) (auto simp: unowned_def)
    show "host_of ?w f = host_of w f" if "f \<in> dom (fdfiles w)" for f
      using that ff(2) by (intro host_of_cong) auto
  qed simp_all
  have "refcount w ff = 0"
    using objs_ok_cnt [OF tux_inv_objsD [OF inv] ff(1)] ff(2) by fastforce
  then show "fresh_obj ?w ff"
    using ff v refcount_frame [of ?w w] by (simp add: fresh_obj_def)
qed

lemma unowned_frame:
  assumes "unowned w h" "procs w' = procs w" "hostfiles w' = hostfiles w" "fdfiles w' = fdfiles w"
    and "\<And>f. f \<in> dom (fdfiles w) \<Longrightarrow> host_of w' f = host_of w f"
  shows "unowned w' h"
  using assms cwd_hosts_frame [OF assms(2)] by (auto simp: unowned_def)

lemma filefnew_spec:
  assumes inv: "tux_inv R w" and h: "unowned w h"
  shows "wp F (filefnew P h fl) (\<lambda>ff w'. tux_inv R w' \<and> (ff \<noteq> NULL \<longrightarrow> fresh_obj w' ff)) E w"
proof -
  let ?f = "Suc (nextp w)" and ?ff = "Suc (Suc (nextp w))" and ?fl = "\<lparr>f_file = h, f_flags = fl\<rparr>"
  let ?w1 = "w\<lparr>nextp := ?f\<rparr>"
  let ?w2 = "w\<lparr>nextp := ?f, files := (files w)(?f \<mapsto> ?fl)\<rparr>"
  let ?w3 = "w\<lparr>files := (files w)(?f \<mapsto> ?fl), nextp := ?ff\<rparr>"
  note fresh = objs_ok_fresh [OF tux_inv_objsD [OF inv]]
  have i1: "tux_inv R ?w1" by (rule tux_inv_nextp [OF inv])
  then have i2: "tux_inv R ?w2" using tux_inv_new_file [of R ?w1 ?f "Some ?fl"] fresh by simp
  then have i3: "tux_inv R ?w3" using tux_inv_nextp [of R ?w2] by simp
  have none: "(files w)(?f := None) = files w" using fresh(1) by (auto simp: fun_upd_idem_iff)
  have "tux_inv R (w\<lparr>nextp := ?ff\<rparr>)" using tux_inv_nextp [OF i1] by simp
  moreover have "unowned ?w3 h"
  proof (rule unowned_frame [OF h])
    fix g assume "g \<in> dom (fdfiles w)"
    then obtain v where v: "fdfiles w g = Some v" by blast
    from objs_ok_obj [OF tux_inv_objsD [OF inv] v] host_of_File [OF _ v] fresh(1)
    have "dev v \<noteq> ?f" by auto
    then show "host_of ?w3 g = host_of w g" using v by (simp add: host_of_def)
  qed simp_all
  moreover note n = tux_inv_new_fdfile [OF i3, of ?ff _ ?fl]
  moreover have "?ff \<notin> dom (fdfiles w)"
    using objs_ok_obj [OF tux_inv_objsD [OF inv]] by fastforce
  ultimately show ?thesis
    using i1 i2 i3 by (auto simp: filefnew_def wp_rules Let_def none fns_set_def)
qed

definition fs_open_safe :: "('x, 'e) tuxenv_scheme \<Rightarrow> bool" where
  "fs_open_safe P \<longleftrightarrow> (\<forall>n. \<not> oom P n) \<or> (\<forall>path fl md x. fst (fs_open P path fl md x) = None)"

lemma tux_inv_tux: "tux_inv R w \<Longrightarrow> p \<in> R \<Longrightarrow> procs w p = Some pr \<Longrightarrow>
    p_tux pr \<noteq> NULL \<and> (\<exists>t. tuxes w (p_tux pr) = Some t)"
  by (auto simp: tux_inv_def proc_ready_def)

lemma tux_inv_proc: "tux_inv R w \<Longrightarrow> p \<in> R \<Longrightarrow> p \<noteq> NULL \<and> (\<exists>pr. procs w p = Some pr)"
  by (auto simp: tux_inv_def proc_ready_def)

lemma opts_fs_open_spec:
  assumes "fs_open_safe P" "tux_inv R w"
  shows "wp F (opts_fs_open P path fl md) (\<lambda>h w'. tux_inv R w' \<and> (h \<noteq> NULL \<longrightarrow> unowned w' h)) E w"
proof -
  have "wp F (case fst (fs_open P path fl md (ext w)) of None \<Rightarrow> ret NULL | Some fd \<Rightarrow> lfi_host_fdopen P fd)
     (\<lambda>h w'. tux_inv R w' \<and> (h \<noteq> NULL \<longrightarrow> unowned w' h)) E (w\<lparr>ext := x\<rparr>)" for x
    using assms host_fdopen_spec [of R "w\<lparr>ext := x\<rparr>" P]
    by (auto simp: fs_open_safe_def wp_rules lfi_host_fdopen_def split: option.split)
  then show ?thesis by (simp add: opts_fs_open_def wp_rules)
qed

lemma filenew_spec:
  assumes "fs_open_safe P" "tux_inv R w" "tux \<noteq> NULL" "tux \<in> dom (tuxes w)"
    and dir: "dir \<noteq> NULL \<Longrightarrow> dir \<in> dom (hostfiles w)"
  shows "wp F (filenew P tux dir path flags md) (\<lambda>ff w'. tux_inv R w' \<and> (ff \<noteq> NULL \<longrightarrow> fresh_obj w' ff)) E w"
proof -
  let ?Q = "\<lambda>ff w'. tux_inv R w' \<and> (ff \<noteq> NULL \<longrightarrow> fresh_obj w' ff)"
  have step: "wp F (if f = NULL then ret NULL else filefnew P f fl) ?Q E w'"
    if "tux_inv R w' \<and> (f \<noteq> NULL \<longrightarrow> unowned w' f)" for f fl w'
    using that filefnew_spec [of R w' f F P fl E] by (simp add: wp_rules)
  have open': "wp F (bindM (if f0 = NULL then host_openat P dir path fl md else ret f0) (\<lambda>f.
     if f = NULL then ret NULL else filefnew P f fl')) ?Q E w'"
    if "tux_inv R w'" "f0 \<noteq> NULL \<longrightarrow> unowned w' f0" "f0 = NULL \<longrightarrow> dir \<noteq> NULL \<longrightarrow> dir \<in> dom (hostfiles w')" for f0 fl fl' w'
  proof (cases "f0 = NULL")
    case True
    then show ?thesis
      using wp_bindI [OF host_openat_spec [of R w' dir F P path fl md E] step] that by simp
  next
    case False
    then show ?thesis using step [of w' f0] that by (simp add: wp_rules)
  qed
  obtain t where t: "tuxes w tux = Some t" using assms by blast
  have fs: "wp F (bindM (opts_fs_open P path fl md) (\<lambda>f0.
      bindM (if f0 = NULL then host_openat P dir path fl md else ret f0) (\<lambda>f.
      if f = NULL then ret NULL else filefnew P f fl'))) ?Q E w" if "dir = NULL" for fl fl'
    by (rule wp_bindI [OF opts_fs_open_spec [OF assms(1,2)] open']) (use that in auto)
  show ?thesis
    using t assms(2,3) dir open' [of w NULL] fs
    by (simp add: filenew_def validflags_def wp_bind [of _ "deref tuxes tux"] wp_deref
        wp_bind [of _ "ret NULL"] wp_ret Let_def)
qed

lemma fdassign_spec:
  assumes inv: "tux_inv R w" and t: "t \<in> R" "procs w t = Some pr"
    and ff: "ff \<noteq> NULL" "fdfiles w ff = Some v" "unat (refs v) = refcount w ff"
    and fd: "0 \<le> fd" "fd < int TUX_NOFILE" "ft_files (fdtable pr) ! nat fd = NULL"
  shows "wp F (fdassign t fd ff) (\<lambda>_. tux_inv R) E w"
proof -
  let ?w = "w\<lparr>fdfiles := (fdfiles w)(ff \<mapsto> v\<lparr>refs := refs v + 1\<rparr>)\<rparr>"
  let ?pr = "pr\<lparr>fdtable := \<lparr>ft_files = (ft_files (fdtable pr))[nat fd := ff]\<rparr>\<rparr>"
  have po: "procs_ok w" using inv by (simp add: tux_inv_def fd_inv_def)
  have "host_of ?w = host_of w" using ff(2) by (intro ext host_of_cong) auto
  then have po': "procs_ok ?w" using po procs_ok_frame [of ?w w] by simp
  have rc: "refcount ?w = refcount w" by (rule refcount_frame) simp_all
  have ok: "objs_ok ((refcount w)(ff := refcount w ff + 1)) (pinned ?w) (cwd_hosts ?w) ?w"
    using objs_ok_incref [OF tux_inv_objsD [OF inv] ff(2,3) refcount_room [OF po]]
    unfolding pinned_frame [of ?w w, simplified] cwd_hosts_frame [of ?w w, simplified] .
  have "fd_inv (?w\<lparr>procs := (procs ?w)(t \<mapsto> ?pr)\<rparr>)"
    by (rule fd_inv_set_slot [OF ok po']) (use t(2) fd rc in auto)
  moreover have "proc_ready (?w\<lparr>procs := (procs ?w)(t \<mapsto> ?pr)\<rparr>) q" if "q \<in> R" for q
    using inv that t(2) by (intro proc_ready_upd) (auto simp: tux_inv_def proc_ready_def as_ready_def)
  ultimately have "tux_inv R (w\<lparr>fdfiles := (fdfiles w)(ff \<mapsto> v\<lparr>refs := refs v + 1\<rparr>), procs := (procs w)(t \<mapsto> ?pr)\<rparr>)"
    using inv by (simp add: tux_inv_def)
  then show ?thesis
    using ff fd t tux_inv_proc [OF inv t(1)] by (simp add: fdassign_def set_fdfile_def set_proc_def wp_rules)
qed

lemma fdalloc_spec:
  assumes inv: "tux_inv R w" and t: "t \<in> R" "procs w t = Some pr"
  shows "wp F (fdalloc t) (\<lambda>i w'. w' = w \<and> (i = - 1 \<or>
     0 \<le> i \<and> i < int TUX_NOFILE \<and> ft_files (fdtable pr) ! nat i = NULL)) E w"
proof -
  have "length (ft_files (fdtable pr)) = TUX_NOFILE"
    using inv t(2) by (auto simp: tux_inv_def fd_inv_def procs_ok_def)
  moreover have "0 \<le> fdalloc_loop (ft_files (fdtable pr)) 0" by (simp add: fdalloc_loop_spec)
  ultimately show ?thesis
    using fdalloc_loop_free [of "ft_files (fdtable pr)"] t tux_inv_proc [OF inv t(1)]
    by (auto simp: fdalloc_def wp_rules Let_def)
qed

text \<open>An unreferenced object may have any count: nobody will look at it.\<close>

lemma tux_inv_unref:
  assumes inv: "tux_inv R w" and f: "fdfiles w f = Some v" "refcount w f = 0"
  shows "tux_inv R (w\<lparr>fdfiles := (fdfiles w)(f \<mapsto> v\<lparr>refs := r\<rparr>)\<rparr>)" (is "tux_inv R ?w")
proof (rule tux_inv_objs [OF inv])
  have h: "host_of ?w = host_of w" using f(1) by (intro ext host_of_cong) auto
  then show "host_of ?w g = host_of w g" for g by simp
  show "objs_ok (refcount w) (pinned w) (cwd_hosts w) ?w"
    using tux_inv_objsD [OF inv] f unfolding objs_ok_def h by (simp add: fns_set_def) (metis domI)
qed simp_all

section \<open>The invariant on the concrete state\<close>

lemma demo_refcount: "f \<noteq> NULL \<Longrightarrow> refcount demo_world f = (if f \<in> {5, 7, 9} then 2 else 0)"
  by (auto simp: refcount_def proc_refs_def tux_refs_def demo_proc_def demo_tux_def count_replicate_other)

lemma demo_host_of: "host_of demo_world f = (if f = 5 then 1 else if f = 7 then 2 else if f = 9 then 3 else NULL)"
  by (auto simp: host_of_def demo_file_def)

lemma demo_pinned: "pinned demo_world = {5, 7, 9}"
  by (auto simp: pinned_def demo_tux_def tux_refs_def split: if_splits)

lemma demo_cwd_hosts: "cwd_hosts demo_world = {}"
  by (auto simp: cwd_hosts_def cwds_def demo_proc_def split: if_splits)

lemma demo_objs: "objs_ok (refcount demo_world) (pinned demo_world) (cwd_hosts demo_world) demo_world"
proof -
  have 1: "f \<noteq> NULL \<Longrightarrow> 0 < refcount demo_world f \<Longrightarrow>
     \<exists>v. fdfiles demo_world f = Some v \<and> unat (refs v) = refcount demo_world f" for f
    by (auto simp: demo_refcount demo_file_def split: if_splits)
  have 2: "fdfiles demo_world f = Some v \<Longrightarrow> f \<in> {5, 7, 9} \<and> v \<in> {demo_file 4 2, demo_file 6 2, demo_file 8 2}" for f v
    by (auto split: if_splits)
  have 3: "dom (hostfiles demo_world) = {1, 2, 3}" "dom (files demo_world) = {4, 6, 8}" "nextp demo_world = 15"
    "dom (fdfiles demo_world) = {5, 7, 9}"
    by auto
  show ?thesis
    unfolding objs_ok_def demo_pinned demo_cwd_hosts 3 using 1
    by (auto simp: demo_host_of std_hosts_def host_stdin_def host_stdout_def host_stderr_def fns_set_def demo_file_def dest!: 2)
qed

lemma demo_inv: "tux_inv {14} demo_world"
proof -
  have "procs_ok demo_world"
    by (auto simp: procs_ok_def cwds_def demo_proc_def split: if_splits)
  moreover have "proc_ready demo_world 14"
    by (simp add: proc_ready_def as_ready_def demo_proc_def demo_as_def)
  moreover have "threads_ok {14} demo_world"
    by (auto simp: threads_ok_def as_ready_def demo_as_def split: if_splits)
  ultimately show ?thesis using demo_objs by (simp add: tux_inv_def fd_inv_def)
qed

lemma demo_fs_safe [simp]: "fs_open_safe demo_env"
  by (simp add: fs_open_safe_def demo_env_defs)

end
