(* ===== verification/Tux_SysFile.thy ===== *)
theory Tux_SysFile
  imports Tux_FDInv
begin

text \<open>
  The file system calls (\<^verbatim>\<open>src/syscalls/sys_file.c\<close>) and those on the current
  directory (\<^verbatim>\<open>src/syscalls/sys_cwd.c\<close>).  A handler returns the signed value
  that the dispatcher stores in the result register.
\<close>

section \<open>Calls through the function pointers\<close>

definition call_read :: "('x, 'e) tuxenv_scheme \<Rightarrow> read_fn \<Rightarrow> ptr \<Rightarrow> u64 \<Rightarrow> u64 \<Rightarrow> (('x, 'z) tuxw_scheme, int) prog" where
  "call_read P fn d buf n = (case fn of Fileread \<Rightarrow> fileread P d buf n)"

definition call_write :: "('x, 'e) tuxenv_scheme \<Rightarrow> write_fn \<Rightarrow> ptr \<Rightarrow> u64 \<Rightarrow> u64 \<Rightarrow> (('x, 'z) tuxw_scheme, int) prog" where
  "call_write P fn d buf n = (case fn of Filewrite \<Rightarrow> filewrite P d buf n)"

definition call_lseek :: "('x, 'e) tuxenv_scheme \<Rightarrow> int \<Rightarrow> int \<Rightarrow> lseek_fn \<Rightarrow> ptr \<Rightarrow> (('x, 'z) tuxw_scheme, int) prog" where
  "call_lseek P off whence fn d = (case fn of Filelseek \<Rightarrow> filelseek P d off whence)"

definition call_truncate :: "('x, 'e) tuxenv_scheme \<Rightarrow> int \<Rightarrow> truncate_fn \<Rightarrow> ptr \<Rightarrow> (('x, 'z) tuxw_scheme, int) prog" where
  "call_truncate P len fn d = (case fn of Filetruncate \<Rightarrow> filetruncate P d len)"

definition call_chown :: "('x, 'e) tuxenv_scheme \<Rightarrow> u32 \<Rightarrow> u32 \<Rightarrow> chown_fn \<Rightarrow> ptr \<Rightarrow> (('x, 'z) tuxw_scheme, int) prog" where
  "call_chown P owner grp fn d = (case fn of Filechown \<Rightarrow> filechown P d owner grp)"

definition call_chmod :: "('x, 'e) tuxenv_scheme \<Rightarrow> u32 \<Rightarrow> chmod_fn \<Rightarrow> ptr \<Rightarrow> (('x, 'z) tuxw_scheme, int) prog" where
  "call_chmod P mode fn d = (case fn of Filechmod \<Rightarrow> filechmod P d mode)"

definition call_sync :: "('x, 'e) tuxenv_scheme \<Rightarrow> sync_fn \<Rightarrow> ptr \<Rightarrow> (('x, 'z) tuxw_scheme, int) prog" where
  "call_sync P fn d = (case fn of Filesync \<Rightarrow> filesync P d)"

definition call_stat :: "('x, 'e) tuxenv_scheme \<Rightarrow> stat_fn \<Rightarrow> ptr \<Rightarrow> u64 \<Rightarrow> (('x, 'z) tuxw_scheme, int) prog" where
  "call_stat P fn d st = (case fn of Filestat \<Rightarrow> filestat P d st)"

definition call_getdents :: "('x, 'e) tuxenv_scheme \<Rightarrow> getdents_fn \<Rightarrow> ptr \<Rightarrow> u64 \<Rightarrow> u64 \<Rightarrow> (('x, 'z) tuxw_scheme, int) prog" where
  "call_getdents P fn d buf n = (case fn of Filegetdents \<Rightarrow> filegetdents P d buf n)"

section \<open>Directories\<close>

definition getfdir :: "('x, 'e) tuxenv_scheme \<Rightarrow> ptr \<Rightarrow> int \<Rightarrow> (('x, 'z) tuxw_scheme, ptr) prog" where
  "getfdir P p dirfd =
     (if dirfd = TUX_AT_FDCWD then bindM (deref procs p) (\<lambda>pr. ret (dir_file (cwd pr)))
      else
        bindM (fdget p dirfd) (\<lambda>f.
        if f = NULL then ret NULL
        else
          bindM (deref fdfiles f) (\<lambda>v.
          case ff_file v of None \<Rightarrow> ret NULL
          | Some fn \<Rightarrow>
              bindM (call_file fn (dev v)) (\<lambda>dir.
              bindM (host_isdir P dir) (\<lambda>isdir.
              if \<not> isdir then ret NULL else ret dir)))))"

section \<open>Reading and writing\<close>

definition sys_write :: "('x, 'e) tuxenv_scheme \<Rightarrow> ptr \<Rightarrow> int \<Rightarrow> u64 \<Rightarrow> u64 \<Rightarrow> (('x, 'z) tuxw_scheme, int) prog" where
  "sys_write P p fd bufp sz =
     (if sz = 0 then ret 0
      else
        bindM (fdget p fd) (\<lambda>f.
        if f = NULL then ret (- TUX_EBADF)
        else
          bindM (deref fdfiles f) (\<lambda>v.
          case ff_write v of None \<Rightarrow> ret (- TUX_EPERM)
          | Some fn \<Rightarrow>
              bindM (procbuf p bufp sz) (\<lambda>buf.
              if buf = 0 then ret (- TUX_EFAULT)
              else call_write P fn (dev v) buf sz))))"

definition sys_read :: "('x, 'e) tuxenv_scheme \<Rightarrow> ptr \<Rightarrow> int \<Rightarrow> u64 \<Rightarrow> u64 \<Rightarrow> (('x, 'z) tuxw_scheme, int) prog" where
  "sys_read P p fd bufp sz =
     (if sz = 0 then ret 0
      else
        bindM (fdget p fd) (\<lambda>f.
        if f = NULL then ret (- TUX_EBADF)
        else
          bindM (deref fdfiles f) (\<lambda>v.
          case ff_read v of None \<Rightarrow> ret (- TUX_EPERM)
          | Some fn \<Rightarrow>
              bindM (procbuf p bufp sz) (\<lambda>buf.
              if buf = 0 then ret (- TUX_EFAULT)
              else call_read P fn (dev v) buf sz))))"

text \<open>\<^verbatim>\<open>struct IOVec\<close>: two 8-byte members.  An element is read when its turn comes.\<close>

definition iov_at :: "memory \<Rightarrow> u64 \<Rightarrow> u64 \<times> u64" where
  "iov_at m a = (le_word (load_bytes m a 8), le_word (load_bytes m (a + 8) 8))"

text \<open>The loop over the remaining \<open>n\<close> elements from address \<open>iov\<close>.\<close>

fun iov_loop ::
  "(u64 \<Rightarrow> u64 \<Rightarrow> (('x, 'z) tuxw_scheme, int) prog) \<Rightarrow> u64 \<Rightarrow> nat \<Rightarrow> int \<Rightarrow> (('x, 'z) tuxw_scheme, int) prog" where
  "iov_loop f iov 0 tot = ret tot"
| "iov_loop f iov (Suc n) tot =
     bindM (gets (\<lambda>w. iov_at (mem w) iov)) (\<lambda>v.
     bindM (f (fst v) (snd v)) (\<lambda>r.
     if r < 0 then ret r
     else iov_loop f (iov + 16) n (add_ssize tot r)))"

definition sys_writev :: "('x, 'e) tuxenv_scheme \<Rightarrow> ptr \<Rightarrow> int \<Rightarrow> u64 \<Rightarrow> u64 \<Rightarrow> (('x, 'z) tuxw_scheme, int) prog" where
  "sys_writev P p fd iovp iovcnt =
     bindM (procbufalign p iovp (iovcnt * 16) 8) (\<lambda>iov.
     if iov = 0 then ret (- TUX_EFAULT)
     else iov_loop (sys_write P p fd) iov (unat iovcnt) 0)"

definition sys_readv :: "('x, 'e) tuxenv_scheme \<Rightarrow> ptr \<Rightarrow> int \<Rightarrow> u64 \<Rightarrow> u64 \<Rightarrow> (('x, 'z) tuxw_scheme, int) prog" where
  "sys_readv P p fd iovp iovcnt =
     bindM (procbufalign p iovp (iovcnt * 16) 8) (\<lambda>iov.
     if iov = 0 then ret (- TUX_EFAULT)
     else iov_loop (sys_read P p fd) iov (unat iovcnt) 0)"

definition sys_pread64 ::
  "('x, 'e) tuxenv_scheme \<Rightarrow> ptr \<Rightarrow> int \<Rightarrow> u64 \<Rightarrow> u64 \<Rightarrow> int \<Rightarrow> (('x, 'z) tuxw_scheme, int) prog" where
  "sys_pread64 P p fd bufp sz offset =
     bindM (fdget p fd) (\<lambda>f.
     if f = NULL then ret (- TUX_EBADF)
     else
       bindM (deref fdfiles f) (\<lambda>v.
       case ff_read v of None \<Rightarrow> ret (- TUX_EPERM) | Some rd \<Rightarrow>
       (case ff_lseek v of None \<Rightarrow> ret (- TUX_EPERM) | Some sk \<Rightarrow>
         bindM (procbuf p bufp sz) (\<lambda>buf.
         if buf = 0 then ret (- TUX_EFAULT)
         else
           bindM (call_lseek P 0 TUX_SEEK_CUR sk (dev v)) (\<lambda>orig.
           bindM (call_lseek P offset TUX_SEEK_SET sk (dev v)) (\<lambda>_.
           bindM (call_read P rd (dev v) buf sz) (\<lambda>n.
           bindM (call_lseek P orig TUX_SEEK_SET sk (dev v)) (\<lambda>_.
           ret n))))))))"

definition sys_lseek :: "('x, 'e) tuxenv_scheme \<Rightarrow> ptr \<Rightarrow> int \<Rightarrow> int \<Rightarrow> int \<Rightarrow> (('x, 'z) tuxw_scheme, int) prog" where
  "sys_lseek P p fd offset whence =
     bindM (fdget p fd) (\<lambda>f.
     if f = NULL then ret (- TUX_EBADF)
     else
       bindM (deref fdfiles f) (\<lambda>v.
       case ff_lseek v of None \<Rightarrow> ret (- TUX_EPERM)
       | Some fn \<Rightarrow> call_lseek P offset whence fn (dev v)))"

definition sys_getdents64 :: "('x, 'e) tuxenv_scheme \<Rightarrow> ptr \<Rightarrow> int \<Rightarrow> u64 \<Rightarrow> u64 \<Rightarrow> (('x, 'z) tuxw_scheme, int) prog" where
  "sys_getdents64 P p fd dirp cnt =
     bindM (fdget p fd) (\<lambda>f.
     if f = NULL then ret (- TUX_EBADF)
     else
       bindM (deref fdfiles f) (\<lambda>v.
       case ff_getdents v of None \<Rightarrow> ret (- TUX_EPERM)
       | Some fn \<Rightarrow>
           bindM (procbufalign p dirp cnt 8) (\<lambda>buf.
           if buf = 0 then ret (- TUX_EFAULT)
           else call_getdents P fn (dev v) buf cnt)))"

section \<open>Opening and closing\<close>

definition sys_openat ::
  "('x, 'e) tuxenv_scheme \<Rightarrow> ptr \<Rightarrow> int \<Rightarrow> u64 \<Rightarrow> u32 \<Rightarrow> u32 \<Rightarrow> (('x, 'z) tuxw_scheme, int) prog" where
  "sys_openat P p dirfd pathp flags mode =
     bindM (getfdir P p dirfd) (\<lambda>dir.
     if dirfd \<noteq> TUX_AT_FDCWD \<and> dir = NULL then ret (- TUX_EBADF)
     else
       bindM (procpath p pathp) (\<lambda>path.
       case path of None \<Rightarrow> ret (- TUX_EFAULT)
       | Some path \<Rightarrow>
           bindM (deref procs p) (\<lambda>pr.
           bindM (filenew P (p_tux pr) dir path flags mode) (\<lambda>f.
           if f = NULL then ret (- TUX_ENOENT)
           else
             bindM (fdalloc p) (\<lambda>fd.
             if fd < 0 then bindM (fdrelease P f p) (\<lambda>_. ret (- TUX_EMFILE))
             else bindM (fdassign p fd f) (\<lambda>_. ret fd))))))"

definition sys_open :: "('x, 'e) tuxenv_scheme \<Rightarrow> ptr \<Rightarrow> u64 \<Rightarrow> u32 \<Rightarrow> u32 \<Rightarrow> (('x, 'z) tuxw_scheme, int) prog" where
  "sys_open P p pathp flags mode = sys_openat P p TUX_AT_FDCWD pathp flags mode"

definition sys_close :: "('x, 'e) tuxenv_scheme \<Rightarrow> ptr \<Rightarrow> int \<Rightarrow> (('x, 'z) tuxw_scheme, int) prog" where
  "sys_close P p fd =
     bindM (fdremove P p fd p) (\<lambda>ok. if \<not> ok then ret (- TUX_EBADF) else ret 0)"

section \<open>Links and status\<close>

text \<open>\<^verbatim>\<open>int r = ...\<close> of an \<^verbatim>\<open>ssize_t\<close> keeps the low 32 bits.\<close>

definition int_of_ssize :: "int \<Rightarrow> int" where
  "int_of_ssize r = signed_take_bit 31 r"

definition sys_readlinkat ::
  "('x, 'e) tuxenv_scheme \<Rightarrow> ptr \<Rightarrow> int \<Rightarrow> u64 \<Rightarrow> u64 \<Rightarrow> u64 \<Rightarrow> (('x, 'z) tuxw_scheme, int) prog" where
  "sys_readlinkat P p dirfd pathp bufp sz =
     bindM (getfdir P p dirfd) (\<lambda>dir.
     if dirfd \<noteq> TUX_AT_FDCWD \<and> dir = NULL then ret (- TUX_EBADF)
     else
       bindM (procpath p pathp) (\<lambda>path.
       bindM (procbuf p bufp sz) (\<lambda>buf.
       case path of None \<Rightarrow> ret (- TUX_EFAULT)
       | Some path \<Rightarrow>
           if buf = 0 then ret (- TUX_EFAULT)
           else
             bindM (host_readlinkat P dir path buf sz) (\<lambda>r.
             if int_of_ssize r < 0 then gets (\<lambda>w. - k_errno P (ext w)) else ret (int_of_ssize r)))))"

definition sys_readlink :: "('x, 'e) tuxenv_scheme \<Rightarrow> ptr \<Rightarrow> u64 \<Rightarrow> u64 \<Rightarrow> u64 \<Rightarrow> (('x, 'z) tuxw_scheme, int) prog" where
  "sys_readlink P p pathp bufp sz = sys_readlinkat P p TUX_AT_FDCWD pathp bufp sz"

definition sys_newfstatat ::
  "('x, 'e) tuxenv_scheme \<Rightarrow> ptr \<Rightarrow> int \<Rightarrow> u64 \<Rightarrow> u64 \<Rightarrow> u32 \<Rightarrow> (('x, 'z) tuxw_scheme, int) prog" where
  "sys_newfstatat P p dirfd pathp statbufp flags =
     bindM (procbufalign p statbufp (of_nat (layout_end 0 (stat_members (target P)))) 8) (\<lambda>st.
     if st = 0 then ret (- TUX_EFAULT)
     else if flags AND TUX_AT_EMPTY_PATH = 0 then
       bindM (procpath p pathp) (\<lambda>path.
       case path of None \<Rightarrow> ret (- TUX_EFAULT)
       | Some path \<Rightarrow>
           bindM (getfdir P p dirfd) (\<lambda>dir.
           if dirfd \<noteq> TUX_AT_FDCWD \<and> dir = NULL then ret (- TUX_EBADF)
           else host_fstatat P (target P) dir path st 0))
     else
       bindM (fdget p dirfd) (\<lambda>f.
       if f = NULL then ret (- TUX_EBADF)
       else
         bindM (deref fdfiles f) (\<lambda>v.
         case ff_stat v of None \<Rightarrow> ret (- TUX_EACCES)
         | Some fn \<Rightarrow> call_stat P fn (dev v) st)))"

definition sys_fstat :: "('x, 'e) tuxenv_scheme \<Rightarrow> ptr \<Rightarrow> int \<Rightarrow> u64 \<Rightarrow> (('x, 'z) tuxw_scheme, int) prog" where
  "sys_fstat P p fd statbufp = sys_newfstatat P p fd 0 statbufp TUX_AT_EMPTY_PATH"

definition sys_stat :: "('x, 'e) tuxenv_scheme \<Rightarrow> ptr \<Rightarrow> u64 \<Rightarrow> u64 \<Rightarrow> (('x, 'z) tuxw_scheme, int) prog" where
  "sys_stat P p pathp statbufp = sys_newfstatat P p TUX_AT_FDCWD pathp statbufp 0"

definition sys_lstat :: "('x, 'e) tuxenv_scheme \<Rightarrow> ptr \<Rightarrow> u64 \<Rightarrow> u64 \<Rightarrow> (('x, 'z) tuxw_scheme, int) prog" where
  "sys_lstat P p pathp statbufp = sys_stat P p pathp statbufp"

section \<open>Attributes\<close>

definition sys_truncate :: "('x, 'e) tuxenv_scheme \<Rightarrow> ptr \<Rightarrow> u64 \<Rightarrow> int \<Rightarrow> (('x, 'z) tuxw_scheme, int) prog" where
  "sys_truncate P p pathp len =
     bindM (procpath p pathp) (\<lambda>path.
     case path of None \<Rightarrow> ret (- TUX_EFAULT)
     | Some path \<Rightarrow>
         if cwk_path_is_absolute P path then host_truncate P path len
         else
           bindM (deref procs p) (\<lambda>pr.
           bindM (host_getpath_str P (dir_file (cwd pr)) (of_nat TUX_PATH_MAX)) (\<lambda>(r, dir).
           if r < 0 then ret r
           else host_truncate P (cwk_path_join P (takeWhile (\<lambda>b. b \<noteq> 0) dir) path TUX_PATH_MAX) len)))"

definition sys_ftruncate :: "('x, 'e) tuxenv_scheme \<Rightarrow> ptr \<Rightarrow> int \<Rightarrow> int \<Rightarrow> (('x, 'z) tuxw_scheme, int) prog" where
  "sys_ftruncate P p fd len =
     bindM (fdget p fd) (\<lambda>f.
     if f = NULL then ret (- TUX_EBADF)
     else
       bindM (deref fdfiles f) (\<lambda>v.
       case ff_truncate v of None \<Rightarrow> ret (- TUX_EPERM)
       | Some fn \<Rightarrow> call_truncate P len fn (dev v)))"

definition sys_chown :: "('x, 'e) tuxenv_scheme \<Rightarrow> ptr \<Rightarrow> u64 \<Rightarrow> u32 \<Rightarrow> u32 \<Rightarrow> (('x, 'z) tuxw_scheme, int) prog" where
  "sys_chown P p pathp owner grp =
     bindM (procpath p pathp) (\<lambda>path.
     case path of None \<Rightarrow> ret (- TUX_EFAULT)
     | Some path \<Rightarrow>
         bindM (deref procs p) (\<lambda>pr. host_fchownat P (dir_file (cwd pr)) path owner grp 0))"

definition sys_fchown :: "('x, 'e) tuxenv_scheme \<Rightarrow> ptr \<Rightarrow> int \<Rightarrow> u32 \<Rightarrow> u32 \<Rightarrow> (('x, 'z) tuxw_scheme, int) prog" where
  "sys_fchown P p fd owner grp =
     bindM (fdget p fd) (\<lambda>f.
     if f = NULL then ret (- TUX_EBADF)
     else
       bindM (deref fdfiles f) (\<lambda>v.
       case ff_chown v of None \<Rightarrow> ret (- TUX_EPERM)
       | Some fn \<Rightarrow> call_chown P owner grp fn (dev v)))"

definition sys_chmod :: "('x, 'e) tuxenv_scheme \<Rightarrow> ptr \<Rightarrow> u64 \<Rightarrow> u32 \<Rightarrow> (('x, 'z) tuxw_scheme, int) prog" where
  "sys_chmod P p pathp mode =
     bindM (procpath p pathp) (\<lambda>path.
     case path of None \<Rightarrow> ret (- TUX_EFAULT)
     | Some path \<Rightarrow>
         bindM (deref procs p) (\<lambda>pr. host_fchmodat P (dir_file (cwd pr)) path mode 0))"

definition sys_fchmod :: "('x, 'e) tuxenv_scheme \<Rightarrow> ptr \<Rightarrow> int \<Rightarrow> u32 \<Rightarrow> (('x, 'z) tuxw_scheme, int) prog" where
  "sys_fchmod P p fd mode =
     bindM (fdget p fd) (\<lambda>f.
     if f = NULL then ret (- TUX_EBADF)
     else
       bindM (deref fdfiles f) (\<lambda>v.
       case ff_chmod v of None \<Rightarrow> ret (- TUX_EPERM)
       | Some fn \<Rightarrow> call_chmod P mode fn (dev v)))"

definition sys_fsync :: "('x, 'e) tuxenv_scheme \<Rightarrow> ptr \<Rightarrow> int \<Rightarrow> (('x, 'z) tuxw_scheme, int) prog" where
  "sys_fsync P p fd =
     bindM (fdget p fd) (\<lambda>f.
     if f = NULL then ret (- TUX_EBADF)
     else
       bindM (deref fdfiles f) (\<lambda>v.
       case ff_sync v of None \<Rightarrow> ret (- TUX_EPERM)
       | Some fn \<Rightarrow> call_sync P fn (dev v)))"

section \<open>Names\<close>

definition sys_unlinkat :: "('x, 'e) tuxenv_scheme \<Rightarrow> ptr \<Rightarrow> int \<Rightarrow> u64 \<Rightarrow> u32 \<Rightarrow> (('x, 'z) tuxw_scheme, int) prog" where
  "sys_unlinkat P p dirfd pathp flags =
     bindM (getfdir P p dirfd) (\<lambda>dir.
     if dirfd \<noteq> TUX_AT_FDCWD \<and> dir = NULL then ret (- TUX_EBADF)
     else if flags \<noteq> 0 \<and> flags \<noteq> TUX_AT_REMOVEDIR then ret (- TUX_EINVAL)
     else
       bindM (procpath p pathp) (\<lambda>path.
       case path of None \<Rightarrow> ret (- TUX_EFAULT)
       | Some path \<Rightarrow>
           bindM (host_unlinkat P dir path flags) (\<lambda>r.
           if r < 0 then gets (\<lambda>w. - k_errno P (ext w)) else ret r)))"

definition sys_unlink :: "('x, 'e) tuxenv_scheme \<Rightarrow> ptr \<Rightarrow> u64 \<Rightarrow> (('x, 'z) tuxw_scheme, int) prog" where
  "sys_unlink P p pathp = sys_unlinkat P p TUX_AT_FDCWD pathp 0"

definition sys_renameat :: "('x, 'e) tuxenv_scheme \<Rightarrow> ptr \<Rightarrow> int \<Rightarrow> u64 \<Rightarrow> int \<Rightarrow> u64 \<Rightarrow> (('x, 'z) tuxw_scheme, int) prog" where
  "sys_renameat P p olddir oldpathp newdir newpathp =
     bindM (getfdir P p olddir) (\<lambda>oldf.
     bindM (getfdir P p newdir) (\<lambda>newf.
     if (olddir \<noteq> TUX_AT_FDCWD \<and> oldf = NULL) \<or> (newdir \<noteq> TUX_AT_FDCWD \<and> newf = NULL) then ret (- TUX_EBADF)
     else
       bindM (procpath p oldpathp) (\<lambda>oldpath.
       bindM (procpath p newpathp) (\<lambda>newpath.
       case oldpath of None \<Rightarrow> ret (- TUX_EFAULT) | Some oldpath \<Rightarrow>
       (case newpath of None \<Rightarrow> ret (- TUX_EFAULT) | Some newpath \<Rightarrow>
         host_renameat2 P oldf oldpath newf newpath 0)))))"

definition sys_rename :: "('x, 'e) tuxenv_scheme \<Rightarrow> ptr \<Rightarrow> u64 \<Rightarrow> u64 \<Rightarrow> (('x, 'z) tuxw_scheme, int) prog" where
  "sys_rename P p oldpathp newpathp = sys_renameat P p TUX_AT_FDCWD oldpathp TUX_AT_FDCWD newpathp"

definition sys_faccessat2 :: "('x, 'e) tuxenv_scheme \<Rightarrow> ptr \<Rightarrow> int \<Rightarrow> u64 \<Rightarrow> u32 \<Rightarrow> u32 \<Rightarrow> (('x, 'z) tuxw_scheme, int) prog" where
  "sys_faccessat2 P p dirfd pathp mode flags =
     bindM (getfdir P p dirfd) (\<lambda>dir.
     if dirfd \<noteq> TUX_AT_FDCWD \<and> dir = NULL then ret (- TUX_EBADF)
     else if flags \<noteq> 0 then ret (- TUX_EINVAL)
     else
       bindM (procpath p pathp) (\<lambda>path.
       case path of None \<Rightarrow> ret (- TUX_EFAULT)
       | Some path \<Rightarrow> host_faccessat2 P dir path mode 0))"

definition sys_faccessat :: "('x, 'e) tuxenv_scheme \<Rightarrow> ptr \<Rightarrow> int \<Rightarrow> u64 \<Rightarrow> u32 \<Rightarrow> (('x, 'z) tuxw_scheme, int) prog" where
  "sys_faccessat P p dirfd pathp mode = sys_faccessat2 P p dirfd pathp mode 0"

definition sys_access :: "('x, 'e) tuxenv_scheme \<Rightarrow> ptr \<Rightarrow> u64 \<Rightarrow> u32 \<Rightarrow> (('x, 'z) tuxw_scheme, int) prog" where
  "sys_access P p pathp mode = sys_faccessat2 P p TUX_AT_FDCWD pathp mode 0"

definition sys_mkdirat :: "('x, 'e) tuxenv_scheme \<Rightarrow> ptr \<Rightarrow> int \<Rightarrow> u64 \<Rightarrow> u32 \<Rightarrow> (('x, 'z) tuxw_scheme, int) prog" where
  "sys_mkdirat P p dirfd pathp mode =
     bindM (getfdir P p dirfd) (\<lambda>dir.
     if dirfd \<noteq> TUX_AT_FDCWD \<and> dir = NULL then ret (- TUX_EBADF)
     else
       bindM (procpath p pathp) (\<lambda>path.
       case path of None \<Rightarrow> ret (- TUX_EFAULT)
       | Some path \<Rightarrow> host_mkdirat P dir path mode))"

definition sys_mkdir :: "('x, 'e) tuxenv_scheme \<Rightarrow> ptr \<Rightarrow> u64 \<Rightarrow> u32 \<Rightarrow> (('x, 'z) tuxw_scheme, int) prog" where
  "sys_mkdir P p pathp mode = sys_mkdirat P p TUX_AT_FDCWD pathp mode"

section \<open>\<^verbatim>\<open>sys_cwd.c\<close>\<close>

text \<open>The result is a \<^verbatim>\<open>uintptr_t\<close>.\<close>

definition sys_getcwd :: "('x, 'e) tuxenv_scheme \<Rightarrow> ptr \<Rightarrow> u64 \<Rightarrow> u64 \<Rightarrow> (('x, 'z) tuxw_scheme, u64) prog" where
  "sys_getcwd P p bufp sz =
     (if sz = 0 then ret 0
      else
        bindM (procbuf p bufp sz) (\<lambda>buf.
        if buf = 0 then ret (to_reg (- TUX_EFAULT))
        else
          let n = (if sz < of_nat TUX_PATH_MAX then sz else of_nat TUX_PATH_MAX) in
          bindM (deref procs p) (\<lambda>pr.
          bindM (host_getpath P (dir_file (cwd pr)) buf n) (\<lambda>r.
          if r < 0 then ret 0
          else bindM (write_mem (buf + (n - 1)) [0]) (\<lambda>_. ret buf)))))"

text \<open>Both calls drop the directory in use before they install the new one.\<close>

definition drop_cwd :: "('x, 'e) tuxenv_scheme \<Rightarrow> ptr \<Rightarrow> (('x, 'z) tuxw_scheme, unit) prog" where
  "drop_cwd P p =
     bindM (deref procs p) (\<lambda>pr.
     if dir_fd (cwd pr) \<noteq> NULL then
       bindM (fdrelease P (dir_fd (cwd pr)) p) (\<lambda>_.
       set_proc p (\<lambda>pr. pr\<lparr>cwd := (cwd pr)\<lparr>dir_fd := NULL\<rparr>\<rparr>))
     else if dir_file (cwd pr) \<noteq> NULL then
       bindM (host_close P (dir_file (cwd pr))) (\<lambda>_. ret ())
     else ret ())"

definition sys_chdir :: "('x, 'e) tuxenv_scheme \<Rightarrow> ptr \<Rightarrow> u64 \<Rightarrow> (('x, 'z) tuxw_scheme, int) prog" where
  "sys_chdir P p pathp =
     bindM (procpath p pathp) (\<lambda>path.
     case path of None \<Rightarrow> ret (- TUX_EFAULT)
     | Some path \<Rightarrow>
         bindM (deref procs p) (\<lambda>pr.
         bindM (host_openat P (dir_file (cwd pr)) path (TUX_O_DIRECTORY OR TUX_O_PATH) 0) (\<lambda>file.
         bindM (drop_cwd P p) (\<lambda>_.
         bindM (set_proc p (\<lambda>pr. pr\<lparr>cwd := (cwd pr)\<lparr>dir_file := file\<rparr>\<rparr>)) (\<lambda>_.
         ret 0)))))"

definition sys_fchdir :: "('x, 'e) tuxenv_scheme \<Rightarrow> ptr \<Rightarrow> int \<Rightarrow> (('x, 'z) tuxw_scheme, int) prog" where
  "sys_fchdir P p fd =
     bindM (fdget p fd) (\<lambda>f.
     if f = NULL then ret (- TUX_EBADF)
     else
       bindM (deref fdfiles f) (\<lambda>v.
       case ff_file v of None \<Rightarrow> ret (- TUX_EACCES)
       | Some fn \<Rightarrow>
           bindM (call_file fn (dev v)) (\<lambda>file.
           bindM (host_isdir P file) (\<lambda>isdir.
           if \<not> isdir then ret (- TUX_ENOTDIR)
           else
             bindM (drop_cwd P p) (\<lambda>_.
             bindM (set_fdfile f (\<lambda>v. v\<lparr>refs := refs v + 1\<rparr>)) (\<lambda>_.
             bindM (set_proc p (\<lambda>pr. pr\<lparr>cwd := \<lparr>dir_file = file, dir_fd = f\<rparr>\<rparr>)) (\<lambda>_.
             ret 0)))))))"

end
