(* ===== verification/Tux_SysFileInv.thy ===== *)
theory Tux_SysFileInv
  imports Tux_SysFile
begin

text \<open>
  Every file system call keeps the invariant of the file layer and never uses
  a freed or missing object; the only fault it can end in is a failed
  \<^verbatim>\<open>assert\<close>.  The two shapes the handlers have, on a descriptor and on a path,
  are locales, interpreted for each handler.
\<close>

section \<open>Handlers on a descriptor\<close>

text \<open>The device \<open>d\<close> of some file object, whose host file \<open>h\<close> is live.\<close>

definition file_live :: "ptr set \<Rightarrow> ptr \<Rightarrow> ptr \<Rightarrow> ('x, 'z) tuxw_scheme \<Rightarrow> bool" where
  "file_live R d h w \<longleftrightarrow> tux_inv R w \<and> d \<noteq> NULL \<and> h \<noteq> NULL \<and> h \<in> dom (hostfiles w) \<and>
     (\<exists>fl. files w d = Some fl \<and> f_file fl = h)"

interpretation flc: host_client "file_live R d h" h for R d h
  by unfold_locales (auto simp: file_live_def)

lemma file_live_inv: "file_live R d h w \<Longrightarrow> tux_inv R w"
  by (simp add: file_live_def)

lemma wp_filef:
  assumes "file_live R d h w"
  shows "wp F (bindM (filef d) m) Q E w = wp F (m h) Q E w"
  using assms by (auto simp: file_live_def filef_def wp_rules)

lemma file_calls:
  assumes "file_live R d h w"
  shows "wp only_assert (call_read P rd d buf n) (\<lambda>_. file_live R d h) (file_live R d h) w"
    and "wp only_assert (call_write P wr d buf n) (\<lambda>_. file_live R d h) (file_live R d h) w"
    and "wp only_assert (call_lseek P off whence sk d) (\<lambda>_. file_live R d h) (file_live R d h) w"
    and "wp only_assert (call_truncate P len tr d) (\<lambda>_. file_live R d h) (file_live R d h) w"
    and "wp only_assert (call_chown P owner grp co d) (\<lambda>_. file_live R d h) (file_live R d h) w"
    and "wp only_assert (call_chmod P mode cm d) (\<lambda>_. file_live R d h) (file_live R d h) w"
    and "wp only_assert (call_sync P sy d) (\<lambda>_. file_live R d h) (file_live R d h) w"
    and "wp only_assert (call_stat P st d buf) (\<lambda>_. file_live R d h) (file_live R d h) w"
    and "wp only_assert (call_getdents P gd d buf n) (\<lambda>_. file_live R d h) (file_live R d h) w"
proof -
  have h: "h \<noteq> NULL" using assms by (simp add: file_live_def)
  note keeps = flc.keeps_read flc.keeps_write flc.keeps_seek flc.keeps_ftruncate flc.keeps_fchown
    flc.keeps_fchmod flc.keeps_fsync flc.keeps_fstat flc.keeps_getdents
  note calls = call_read_def fileread_def call_write_def filewrite_def call_lseek_def filelseek_def
    call_truncate_def filetruncate_def call_chown_def filechown_def call_chmod_def filechmod_def
    call_sync_def filesync_def call_stat_def filestat_def call_getdents_def filegetdents_def
  note splits = read_fn.split write_fn.split lseek_fn.split truncate_fn.split chown_fn.split
    chmod_fn.split sync_fn.split stat_fn.split getdents_fn.split
  show "wp only_assert (call_read P rd d buf n) (\<lambda>_. file_live R d h) (file_live R d h) w"
    "wp only_assert (call_write P wr d buf n) (\<lambda>_. file_live R d h) (file_live R d h) w"
    "wp only_assert (call_lseek P off whence sk d) (\<lambda>_. file_live R d h) (file_live R d h) w"
    "wp only_assert (call_truncate P len tr d) (\<lambda>_. file_live R d h) (file_live R d h) w"
    "wp only_assert (call_chown P owner grp co d) (\<lambda>_. file_live R d h) (file_live R d h) w"
    "wp only_assert (call_chmod P mode cm d) (\<lambda>_. file_live R d h) (file_live R d h) w"
    "wp only_assert (call_sync P sy d) (\<lambda>_. file_live R d h) (file_live R d h) w"
    "wp only_assert (call_stat P st d buf) (\<lambda>_. file_live R d h) (file_live R d h) w"
    "wp only_assert (call_getdents P gd d buf n) (\<lambda>_. file_live R d h) (file_live R d h) w"
    by (simp_all add: calls wp_filef [OF assms] keeps [OF assms h] split: splits)
qed

text \<open>
  The pattern the descriptor calls share: look the descriptor up, \<^verbatim>\<open>EBADF\<close> when
  it is not in use, an error when the file has no such operation, the operation
  otherwise.
\<close>

locale fd_handler =
  fixes H :: "(('x, 'z) tuxw_scheme, int) prog" and early :: bool and p :: ptr and fd :: int
    and sel :: "FDFile \<Rightarrow> 'f option" and err :: int
    and call :: "'f \<Rightarrow> ptr \<Rightarrow> (('x, 'z) tuxw_scheme, int) prog"
  assumes H_eq: "H = (if early then ret 0 else
      bindM (fdget p fd) (\<lambda>f.
      if f = NULL then ret (- TUX_EBADF)
      else bindM (deref fdfiles f) (\<lambda>v.
        case sel v of None \<Rightarrow> ret (- err) | Some fn \<Rightarrow> call fn (dev v))))"
    and sel_set: "fns_set v \<Longrightarrow> sel v \<noteq> None"
    and call_keeps: "p \<in> R \<Longrightarrow> file_live R d h w \<Longrightarrow>
      wp only_assert (call fn d) (\<lambda>_. tux_inv R) (tux_inv R) w"
begin

lemma keeps_body:
  assumes "tux_inv R w" "p \<in> R"
  shows "wp only_assert (bindM (fdget p fd) (\<lambda>f.
      if f = NULL then ret (- TUX_EBADF)
      else bindM (deref fdfiles f) (\<lambda>v.
        case sel v of None \<Rightarrow> ret (- err) | Some fn \<Rightarrow> call fn (dev v)))) (\<lambda>_. tux_inv R) (tux_inv R) w"
proof (rule wp_bindI [OF fdget_spec [OF assms]], elim conjE)
  fix f w'
  assume w': "w' = w" and f: "f \<noteq> NULL \<longrightarrow> (\<exists>v fl. fdfiles w f = Some v \<and> fns_set v \<and> dev v \<noteq> NULL \<and>
      files w (dev v) = Some fl \<and> f_file fl = host_of w f \<and> f_file fl \<noteq> NULL \<and> f_file fl \<in> dom (hostfiles w))"
  show "wp only_assert (if f = NULL then ret (- TUX_EBADF)
      else bindM (deref fdfiles f) (\<lambda>v.
        case sel v of None \<Rightarrow> ret (- err) | Some fn \<Rightarrow> call fn (dev v))) (\<lambda>_. tux_inv R) (tux_inv R) w'"
  proof (cases "f = NULL")
    case False
    with f obtain v fl where v: "fdfiles w f = Some v" "fns_set v" "dev v \<noteq> NULL"
      "files w (dev v) = Some fl" "f_file fl \<noteq> NULL" "f_file fl \<in> dom (hostfiles w)" by blast
    then have live: "file_live R (dev v) (f_file fl) w" using assms(1) by (simp add: file_live_def)
    obtain fn where "sel v = Some fn" using sel_set [OF v(2)] by blast
    then show ?thesis
      using False v(1) w' call_keeps [OF assms(2) live] by (simp add: wp_rules)
  qed (simp add: w' assms wp_rules)
qed

lemma keeps: "tux_inv R w \<Longrightarrow> p \<in> R \<Longrightarrow> wp only_assert H (\<lambda>_. tux_inv R) (tux_inv R) w"
  unfolding H_eq by (simp add: keeps_body wp_ret)

lemma bad_descriptor:
  assumes "\<not> early" "p \<noteq> NULL" "procs w p = Some pr" "\<not> fdhas_x (ft_files (fdtable pr)) fd"
  shows "H w = Ret (- TUX_EBADF) w"
  using assms by (simp add: H_eq fdget_def run_simps)

end

text \<open>The accessors of user memory return without touching the state.\<close>

lemma wp_readonly:
  assumes "\<exists>b. m w = Ret b w" and "\<And>b. wp F (f b) Q E w"
  shows "wp F (bindM m f) Q E w"
  using assms by (auto simp: wp_def bindM_def)

lemma user_memory:
  assumes "tux_inv R w" "p \<in> R"
  shows "\<exists>b. procbuf p bufp n w = Ret b w" and "\<exists>b. procbufalign p bufp n al w = Ret b w"
    and "\<exists>b. procpath p bufp w = Ret b w" and "\<exists>b. procaddr p bufp w = Ret b w"
  using assms
  by (auto simp: tux_inv_def proc_ready_def as_ready_def procbuf_def procbufalign_def procpath_def procaddr_def
      lfi_as_fmptr_def lfi_as_validptr_def run_simps Let_def)

lemma wp_user:
  assumes "tux_inv R w" "p \<in> R" "\<And>b. wp F (f b) Q E w"
  shows "wp F (bindM (procbuf p bufp n) f) Q E w" and "wp F (bindM (procbufalign p bufp n al) f) Q E w"
    and "wp F (bindM (procaddr p bufp) f) Q E w"
  by (rule wp_readonly; rule user_memory [OF assms(1,2)] assms(3))+

lemma wp_procpath:
  assumes "tux_inv R w" "p \<in> R" "\<And>b. wp F (f b) Q E w"
  shows "wp F (bindM (procpath p pathp) f) Q E w"
  by (rule wp_readonly; rule user_memory [OF assms(1,2)] assms(3))

lemma file_calls_inv:
  assumes "file_live R d h w"
  shows "wp only_assert (call_read P rd d buf n) (\<lambda>_. tux_inv R) (tux_inv R) w"
    and "wp only_assert (call_write P wr d buf n) (\<lambda>_. tux_inv R) (tux_inv R) w"
    and "wp only_assert (call_lseek P off whence sk d) (\<lambda>_. tux_inv R) (tux_inv R) w"
    and "wp only_assert (call_truncate P len tr d) (\<lambda>_. tux_inv R) (tux_inv R) w"
    and "wp only_assert (call_chown P owner grp co d) (\<lambda>_. tux_inv R) (tux_inv R) w"
    and "wp only_assert (call_chmod P mode cm d) (\<lambda>_. tux_inv R) (tux_inv R) w"
    and "wp only_assert (call_sync P sy d) (\<lambda>_. tux_inv R) (tux_inv R) w"
    and "wp only_assert (call_stat P st d buf) (\<lambda>_. tux_inv R) (tux_inv R) w"
    and "wp only_assert (call_getdents P gd d buf n) (\<lambda>_. tux_inv R) (tux_inv R) w"
  by (rule file_calls [OF assms, THEN wp_mono]; simp add: file_live_inv)+

interpretation lseek: fd_handler "sys_lseek P p fd off whence" False p fd ff_lseek TUX_EPERM "call_lseek P off whence"
  for P p fd off whence
  by unfold_locales (auto simp: sys_lseek_def fns_set_def intro: file_calls_inv)

interpretation ftruncate: fd_handler "sys_ftruncate P p fd len" False p fd ff_truncate TUX_EPERM "call_truncate P len"
  for P p fd len
  by unfold_locales (auto simp: sys_ftruncate_def fns_set_def intro: file_calls_inv)

interpretation fchown: fd_handler "sys_fchown P p fd owner grp" False p fd ff_chown TUX_EPERM "call_chown P owner grp"
  for P p fd owner grp
  by unfold_locales (auto simp: sys_fchown_def fns_set_def intro: file_calls_inv)

interpretation fchmod: fd_handler "sys_fchmod P p fd mode" False p fd ff_chmod TUX_EPERM "call_chmod P mode"
  for P p fd mode
  by unfold_locales (auto simp: sys_fchmod_def fns_set_def intro: file_calls_inv)

interpretation fsync: fd_handler "sys_fsync P p fd" False p fd ff_sync TUX_EPERM "call_sync P"
  for P p fd
  by unfold_locales (auto simp: sys_fsync_def fns_set_def intro: file_calls_inv)

text \<open>The calls that also take a user buffer.\<close>

interpretation getdents: fd_handler "sys_getdents64 P p fd dirp cnt" False p fd ff_getdents TUX_EPERM
    "\<lambda>fn d. bindM (procbufalign p dirp cnt 8) (\<lambda>buf.
       if buf = 0 then ret (- TUX_EFAULT) else call_getdents P fn d buf cnt)"
  for P p fd dirp cnt
  by unfold_locales (auto simp: sys_getdents64_def fns_set_def wp_if wp_ret file_live_inv
      intro!: wp_readonly user_memory file_calls_inv)

interpretation fdread: fd_handler "sys_read P p fd bufp n" "n = 0" p fd ff_read TUX_EPERM
    "\<lambda>fn d. bindM (procbuf p bufp n) (\<lambda>buf.
       if buf = 0 then ret (- TUX_EFAULT) else call_read P fn d buf n)"
  for P p fd bufp n
  by unfold_locales (auto simp: sys_read_def fns_set_def wp_if wp_ret file_live_inv
      intro!: wp_readonly user_memory file_calls_inv)

interpretation fdwrite: fd_handler "sys_write P p fd bufp n" "n = 0" p fd ff_write TUX_EPERM
    "\<lambda>fn d. bindM (procbuf p bufp n) (\<lambda>buf.
       if buf = 0 then ret (- TUX_EFAULT) else call_write P fn d buf n)"
  for P p fd bufp n
  by unfold_locales (auto simp: sys_write_def fns_set_def wp_if wp_ret file_live_inv
      intro!: wp_readonly user_memory file_calls_inv)

text \<open>The pair of operations \<^verbatim>\<open>pread64\<close> needs.\<close>

definition read_lseek :: "FDFile \<Rightarrow> (read_fn \<times> lseek_fn) option" where
  "read_lseek v = (case ff_read v of None \<Rightarrow> None | Some rd \<Rightarrow>
     (case ff_lseek v of None \<Rightarrow> None | Some sk \<Rightarrow> Some (rd, sk)))"

lemma pread_call_keeps:
  assumes "file_live R d h w"
  shows "wp only_assert (bindM (call_lseek P 0 TUX_SEEK_CUR sk d) (\<lambda>orig.
           bindM (call_lseek P offset TUX_SEEK_SET sk d) (\<lambda>_.
           bindM (call_read P rd d buf sz) (\<lambda>n.
           bindM (call_lseek P orig TUX_SEEK_SET sk d) (\<lambda>_. ret n))))) (\<lambda>_. file_live R d h) (file_live R d h) w"
  by (rule wp_bindI [OF file_calls(3) [OF assms]], rule wp_bindI [OF file_calls(3)], assumption,
      rule wp_bindI [OF file_calls(1)], assumption, rule wp_bindI [OF file_calls(3)], assumption)
    (simp add: wp_ret)

lemma pread_keeps:
  assumes "p \<in> R" and live: "file_live R d h w"
  shows "wp only_assert (bindM (procbuf p bufp n) (\<lambda>buf.
       if buf = 0 then ret (- TUX_EFAULT)
       else bindM (call_lseek P 0 TUX_SEEK_CUR sk d) (\<lambda>orig.
            bindM (call_lseek P offset TUX_SEEK_SET sk d) (\<lambda>_.
            bindM (call_read P rd d buf n) (\<lambda>m.
            bindM (call_lseek P orig TUX_SEEK_SET sk d) (\<lambda>_. ret m))))))
       (\<lambda>_. tux_inv R) (tux_inv R) w"
  using assms wp_mono [OF pread_call_keeps [OF live], where Q' = "\<lambda>_. tux_inv R" and E' = "tux_inv R" and F' = only_assert]
  by (intro wp_readonly user_memory [OF file_live_inv]) (auto simp: file_live_inv wp_ret)

interpretation pread64: fd_handler "sys_pread64 P p fd bufp n offset" False p fd read_lseek TUX_EPERM
    "\<lambda>fns d. bindM (procbuf p bufp n) (\<lambda>buf.
       if buf = 0 then ret (- TUX_EFAULT)
       else bindM (call_lseek P 0 TUX_SEEK_CUR (snd fns) d) (\<lambda>orig.
            bindM (call_lseek P offset TUX_SEEK_SET (snd fns) d) (\<lambda>_.
            bindM (call_read P (fst fns) d buf n) (\<lambda>m.
            bindM (call_lseek P orig TUX_SEEK_SET (snd fns) d) (\<lambda>_. ret m)))))"
  for P p fd bufp n offset
proof unfold_locales
  show "sys_pread64 P p fd bufp n offset = (if False then ret 0 else
      bindM (fdget p fd) (\<lambda>f. if f = NULL then ret (- TUX_EBADF)
      else bindM (deref fdfiles f) (\<lambda>v. case read_lseek v of None \<Rightarrow> ret (- TUX_EPERM)
        | Some fns \<Rightarrow> bindM (procbuf p bufp n) (\<lambda>buf.
            if buf = 0 then ret (- TUX_EFAULT)
            else bindM (call_lseek P 0 TUX_SEEK_CUR (snd fns) (dev v)) (\<lambda>orig.
                 bindM (call_lseek P offset TUX_SEEK_SET (snd fns) (dev v)) (\<lambda>_.
                 bindM (call_read P (fst fns) (dev v) buf n) (\<lambda>m.
                 bindM (call_lseek P orig TUX_SEEK_SET (snd fns) (dev v)) (\<lambda>_. ret m))))))))" for P p fd bufp n offset
    by (auto simp: sys_pread64_def read_lseek_def fun_eq_iff bindM_def split: option.split outcome.split)
qed (auto simp: read_lseek_def fns_set_def intro: pread_keeps)

interpretation fstat: fd_handler "bindM (fdget p fd) (\<lambda>f. if f = NULL then ret (- TUX_EBADF)
      else bindM (deref fdfiles f) (\<lambda>v.
        case ff_stat v of None \<Rightarrow> ret (- TUX_EACCES) | Some fn \<Rightarrow> call_stat P fn (dev v) st))"
    False p fd ff_stat TUX_EACCES "\<lambda>fn d. call_stat P fn d st"
  for P p fd st
  by unfold_locales (auto simp: fns_set_def intro: file_calls_inv)

text \<open>The vectored calls: each element is one call.\<close>

lemma iov_loop_keeps:
  assumes "\<And>b n w. I w \<Longrightarrow> wp F (f b n) (\<lambda>_. I) I w" and "I w"
  shows "wp F (iov_loop f iov k tot) (\<lambda>_. I) I w"
  using assms(2)
proof (induction k arbitrary: iov tot w)
  case (Suc k)
  have "wp F (bindM (f b n) (\<lambda>r. if r < 0 then ret r else iov_loop f (iov + 16) k (add_ssize tot r))) (\<lambda>_. I) I w" for b n
    by (rule wp_bindI [OF assms(1) [OF Suc.prems]]) (simp add: Suc.IH wp_ret)
  then show ?case by (simp add: wp_bind [of _ "gets _"] wp_gets)
qed (simp add: wp_rules)

section \<open>Handlers on a path\<close>

lemma cwd_live:
  assumes "tux_inv R w" "procs w p = Some pr" "dir_file (cwd pr) \<noteq> NULL"
  shows "dir_file (cwd pr) \<in> dom (hostfiles w)"
proof -
  have ok: "objs_ok (refcount w) (pinned w) (cwd_hosts w) w" and po: "procs_ok w"
    using assms(1) by (simp_all add: tux_inv_def fd_inv_def)
  have c: "cwds w p = Some (cwd pr)" using assms(2) by (simp add: cwds_def)
  show ?thesis
  proof (cases "dir_fd (cwd pr) = NULL")
    case True
    then have "dir_file (cwd pr) \<in> cwd_hosts w" using c assms(3) by (auto simp: cwd_hosts_def)
    then show ?thesis using ok by (auto simp: objs_ok_def)
  next
    case False
    then have "0 < refcount w (dir_fd (cwd pr))"
      using refcount_ge [of w p pr "dir_fd (cwd pr)"] po assms(2) by (auto simp: procs_ok_def proc_refs_def)
    then obtain v where "fdfiles w (dir_fd (cwd pr)) = Some v"
      using objs_ok_cnt [OF ok] False by blast
    moreover have "dir_file (cwd pr) = host_of w (dir_fd (cwd pr))"
      using po c False by (auto simp: procs_ok_def)
    ultimately show ?thesis using objs_ok_obj [OF ok] by metis
  qed
qed

lemma isdir_keeps:
  assumes "tux_inv_host R h w" "h \<noteq> NULL"
  shows "wp F (host_isdir P h) (\<lambda>_. tux_inv_host R h) E w"
  using assms by (auto simp: host_isdir_def wp_rules tux_inv_host_def)

lemma call_file_live:
  assumes "dev v \<noteq> NULL" "files w (dev v) = Some fl"
  shows "wp F (call_file fn (dev v)) Q E w = Q (f_file fl) w"
  using assms by (cases fn) (simp add: call_file_def filefile_def filef_def wp_rules)

lemma getfdir_spec:
  assumes "tux_inv R w" "p \<in> R"
  shows "wp F (getfdir P p dirfd) (\<lambda>d. tux_inv_host R d) E w"
proof (cases "dirfd = TUX_AT_FDCWD")
  case True
  obtain pr where pr: "p \<noteq> NULL" "procs w p = Some pr" using tux_inv_proc [OF assms] by blast
  then show ?thesis
    using True assms cwd_live [OF assms(1) pr(2)] by (auto simp: getfdir_def wp_rules tux_inv_host_def)
next
  case False
  show ?thesis
    unfolding getfdir_def if_not_P [OF False]
  proof (rule wp_bindI [OF fdget_spec [OF assms]], elim conjE)
    fix f w' assume w': "w' = w" and f: "f \<noteq> NULL \<longrightarrow> (\<exists>v fl. fdfiles w f = Some v \<and> fns_set v \<and> dev v \<noteq> NULL \<and>
      files w (dev v) = Some fl \<and> f_file fl = host_of w f \<and> f_file fl \<noteq> NULL \<and> f_file fl \<in> dom (hostfiles w))"
    show "wp F (if f = NULL then ret NULL else bindM (deref fdfiles f) (\<lambda>v.
          case ff_file v of None \<Rightarrow> ret NULL | Some fn \<Rightarrow> bindM (call_file fn (dev v)) (\<lambda>dir.
          bindM (host_isdir P dir) (\<lambda>isdir. if \<not> isdir then ret NULL else ret dir)))) (\<lambda>d. tux_inv_host R d) E w'"
    proof (cases "f = NULL")
      case False
      with f obtain v fl where v: "fdfiles w f = Some v" "fns_set v" "dev v \<noteq> NULL" "files w (dev v) = Some fl"
        "f_file fl \<noteq> NULL" "f_file fl \<in> dom (hostfiles w)" by blast
      then have "tux_inv_host R (f_file fl) w" using assms(1) by (simp add: tux_inv_host_def)
      from isdir_keeps [OF this v(5), of F P E]
      have "wp F (host_isdir P (f_file fl)) (\<lambda>b w. if b then tux_inv_host R (f_file fl) w else tux_inv_host R NULL w) E w"
        by (rule wp_mono) (auto simp: tux_inv_host_def)
      then show ?thesis
        using False v w' by (auto simp: wp_rules call_file_live fns_set_def elim!: wp_mono split: if_splits)
    qed (use assms(1) w' in \<open>simp add: wp_rules tux_inv_host_def\<close>)
  qed
qed

text \<open>
  The pattern the calls relative to a directory share: resolve the directory,
  \<^verbatim>\<open>EBADF\<close> unless it is the current one, reject bad flags, copy the path in,
  \<^verbatim>\<open>EFAULT\<close> when it is not readable, the operation otherwise.
\<close>

locale at_handler =
  fixes H :: "(('x, 'z) tuxw_scheme, int) prog" and P :: "('x, 'e) tuxenv_scheme" and p :: ptr
    and dirfd :: int and pathp :: u64
    and guard :: "int option" and op :: "ptr \<Rightarrow> bytes \<Rightarrow> (('x, 'z) tuxw_scheme, int) prog"
  assumes H_eq: "H = bindM (getfdir P p dirfd) (\<lambda>dir.
      if dirfd \<noteq> TUX_AT_FDCWD \<and> dir = NULL then ret (- TUX_EBADF)
      else case guard of Some e \<Rightarrow> ret (- e)
      | None \<Rightarrow> bindM (procpath p pathp) (\<lambda>path.
          case path of None \<Rightarrow> ret (- TUX_EFAULT) | Some s \<Rightarrow> op dir s))"
    and op_keeps: "p \<in> R \<Longrightarrow> tux_inv_host R d w \<Longrightarrow> wp only_assert (op d s) (\<lambda>_. tux_inv R) (tux_inv R) w"
begin

lemma keeps:
  assumes "tux_inv R w" "p \<in> R"
  shows "wp only_assert H (\<lambda>_. tux_inv R) (tux_inv R) w"
  unfolding H_eq
proof (rule wp_bindI [OF getfdir_spec [OF assms]])
  fix d and w' :: "('x, 'z) tuxw_scheme" assume d: "tux_inv_host R d w'"
  then have inv: "tux_inv R w'" by (simp add: tux_inv_host_def)
  have "wp only_assert (bindM (procpath p pathp) (\<lambda>path.
      case path of None \<Rightarrow> ret (- TUX_EFAULT) | Some s \<Rightarrow> op d s)) (\<lambda>_. tux_inv R) (tux_inv R) w'"
    using op_keeps [OF assms(2) d] inv
    by (intro wp_readonly user_memory(3) [OF inv assms(2)]) (simp add: wp_ret split: option.split)
  then show "wp only_assert (if dirfd \<noteq> TUX_AT_FDCWD \<and> d = NULL then ret (- TUX_EBADF)
      else case guard of Some e \<Rightarrow> ret (- e)
      | None \<Rightarrow> bindM (procpath p pathp) (\<lambda>path.
          case path of None \<Rightarrow> ret (- TUX_EFAULT) | Some s \<Rightarrow> op d s)) (\<lambda>_. tux_inv R) (tux_inv R) w'"
    using inv by (simp add: wp_ret split: option.split)
qed

end

lemma host_inv_drop:
  assumes "wp only_assert m (\<lambda>_. tux_inv_host R h) (tux_inv_host R h) w"
  shows "wp only_assert m (\<lambda>_. tux_inv R) (tux_inv R) w"
  by (rule wp_mono [OF assms]) (auto simp: tux_inv_host_def)

interpretation mkdirat: at_handler "sys_mkdirat P p dirfd pathp mode" P p dirfd pathp None
    "\<lambda>dir path. host_mkdirat P dir path mode" for P p dirfd pathp mode
  by unfold_locales (auto simp: sys_mkdirat_def cong: if_cong intro: host_inv_drop fdc.keeps_mkdirat)

interpretation faccessat2: at_handler "sys_faccessat2 P p dirfd pathp mode flags" P p dirfd pathp
    "if flags \<noteq> 0 then Some TUX_EINVAL else None"
    "\<lambda>dir path. host_faccessat2 P dir path mode 0" for P p dirfd pathp mode flags
  by unfold_locales (auto simp: sys_faccessat2_def cong: if_cong intro: host_inv_drop fdc.keeps_faccessat)

interpretation unlinkat: at_handler "sys_unlinkat P p dirfd pathp flags" P p dirfd pathp
    "if flags \<noteq> 0 \<and> flags \<noteq> TUX_AT_REMOVEDIR then Some TUX_EINVAL else None"
    "\<lambda>dir path. bindM (host_unlinkat P dir path flags) (\<lambda>r.
        if r < 0 then gets (\<lambda>w. - k_errno P (ext w)) else ret r)" for P p dirfd pathp flags
  by unfold_locales (auto simp: sys_unlinkat_def wp_if wp_ret wp_gets cong: if_cong
      intro!: wp_bindI [OF host_inv_drop [OF fdc.keeps_unlinkat]])

lemma open_tail_keeps:
  assumes "fs_open_safe P" "p \<in> R" "tux_inv_host R d w"
  shows "wp only_assert (bindM (deref procs p) (\<lambda>pr.
           bindM (filenew P (p_tux pr) d path flags mode) (\<lambda>f.
           if f = NULL then ret (- TUX_ENOENT)
           else
             bindM (fdalloc p) (\<lambda>fd.
             if fd < 0 then bindM (fdrelease P f p) (\<lambda>_. ret (- TUX_EMFILE))
             else bindM (fdassign p fd f) (\<lambda>_. ret fd))))) (\<lambda>_. tux_inv R) (tux_inv R) w"
proof -
  have inv: "tux_inv R w" and d: "d \<noteq> NULL \<Longrightarrow> d \<in> dom (hostfiles w)"
    using assms(3) by (simp_all add: tux_inv_host_def)
  obtain pr where pr: "p \<noteq> NULL" "procs w p = Some pr" using tux_inv_proc [OF inv assms(2)] by blast
  have t: "p_tux pr \<noteq> NULL" "p_tux pr \<in> dom (tuxes w)" using tux_inv_tux [OF inv assms(2) pr(2)] by auto
  have "wp only_assert (if f = NULL then ret (- TUX_ENOENT)
           else
             bindM (fdalloc p) (\<lambda>fd.
             if fd < 0 then bindM (fdrelease P f p) (\<lambda>_. ret (- TUX_EMFILE))
             else bindM (fdassign p fd f) (\<lambda>_. ret fd))) (\<lambda>_. tux_inv R) (tux_inv R) w1"
    if w1: "tux_inv R w1 \<and> (f \<noteq> NULL \<longrightarrow> fresh_obj w1 f)" for f w1
  proof (cases "f = NULL")
    case False
    then obtain v where v: "fdfiles w1 f = Some v" "refs v = 0" "refcount w1 f = 0"
      using w1 by (auto simp: fresh_obj_def)
    obtain pr1 where pr1: "procs w1 p = Some pr1" using tux_inv_proc w1 assms(2) by blast
    have "wp only_assert (bindM (fdrelease P f p) (\<lambda>_. ret (- TUX_EMFILE))) (\<lambda>_. tux_inv R) (tux_inv R) w1"
      using fdrelease_shared [OF False v(1), of P p] v tux_inv_unref [of R w1 f v "- 1"] w1
      by (simp add: wp_def bindM_def ret_def)
    moreover have "wp only_assert (bindM (fdassign p fd f) (\<lambda>_. ret fd)) (\<lambda>_. tux_inv R) (tux_inv R) w1"
      if "0 \<le> fd" "fd < int TUX_NOFILE" "ft_files (fdtable pr1) ! nat fd = NULL" for fd
      by (rule wp_bindI [OF fdassign_spec [of R w1 p pr1 f v]])
        (use w1 v pr1 that False assms(2) in \<open>auto simp: wp_ret\<close>)
    ultimately show ?thesis
      using False w1 by (auto intro!: wp_bindI [OF fdalloc_spec [of R w1 p pr1]] simp: assms(2) pr1)
  qed (use w1 in \<open>simp add: wp_ret\<close>)
  note tail = this
  have "wp only_assert (bindM (filenew P (p_tux pr) d path flags mode) (\<lambda>f.
           if f = NULL then ret (- TUX_ENOENT)
           else
             bindM (fdalloc p) (\<lambda>fd.
             if fd < 0 then bindM (fdrelease P f p) (\<lambda>_. ret (- TUX_EMFILE))
             else bindM (fdassign p fd f) (\<lambda>_. ret fd)))) (\<lambda>_. tux_inv R) (tux_inv R) w"
    by (rule wp_bindI [OF filenew_spec [OF assms(1) inv t d]]) (simp, rule tail)
  then show ?thesis using pr by (simp add: wp_bind [of _ "deref procs p"] wp_deref)
qed

lemma openat_keeps:
  fixes w :: "('x, 'z) tuxw_scheme"
  assumes "fs_open_safe P" "tux_inv R w" "p \<in> R"
  shows "wp only_assert (sys_openat P p dirfd pathp flags mode) (\<lambda>_. tux_inv R) (tux_inv R) w"
  unfolding sys_openat_def
proof (rule wp_bindI [OF getfdir_spec [OF assms(2,3)]])
  fix d and w' :: "('x, 'z) tuxw_scheme" assume d: "tux_inv_host R d w'"
  then have inv: "tux_inv R w'" by (simp add: tux_inv_host_def)
  show "wp only_assert (if dirfd \<noteq> TUX_AT_FDCWD \<and> d = NULL then ret (- TUX_EBADF)
     else bindM (procpath p pathp) (\<lambda>path. case path of None \<Rightarrow> ret (- TUX_EFAULT)
       | Some path \<Rightarrow> bindM (deref procs p) (\<lambda>pr.
           bindM (filenew P (p_tux pr) d path flags mode) (\<lambda>f.
           if f = NULL then ret (- TUX_ENOENT)
           else bindM (fdalloc p) (\<lambda>fd.
             if fd < 0 then bindM (fdrelease P f p) (\<lambda>_. ret (- TUX_EMFILE))
             else bindM (fdassign p fd f) (\<lambda>_. ret fd)))))) (\<lambda>_. tux_inv R) (tux_inv R) w'"
    using inv open_tail_keeps [OF assms(1,3) d]
    by (auto simp: wp_ret split: option.split intro!: wp_readonly user_memory(3) [OF inv assms(3)])
qed

lemma close_keeps:
  assumes "tux_inv R w" "p \<in> R"
  shows "wp only_assert (sys_close P p fd) (\<lambda>_. tux_inv R) (tux_inv R) w"
  unfolding sys_close_def fdremove_def
  by (rule wp_bindI [OF fdremove_x_spec [OF assms]]) (simp add: wp_rules)

lemma readlinkat_keeps:
  fixes w :: "('x, 'z) tuxw_scheme"
  assumes "tux_inv R w" "p \<in> R"
  shows "wp only_assert (sys_readlinkat P p dirfd pathp bufp n) (\<lambda>_. tux_inv R) (tux_inv R) w"
  unfolding sys_readlinkat_def
proof (rule wp_bindI [OF getfdir_spec [OF assms]])
  fix d and w' :: "('x, 'z) tuxw_scheme" assume d: "tux_inv_host R d w'"
  then have inv: "tux_inv R w'" by (simp add: tux_inv_host_def)
  have "wp only_assert (bindM (host_readlinkat P d path buf n) (\<lambda>r.
             if int_of_ssize r < 0 then gets (\<lambda>w. - k_errno P (ext w)) else ret (int_of_ssize r)))
           (\<lambda>_. tux_inv R) (tux_inv R) w'" for path buf
    by (rule wp_bindI [OF host_inv_drop [OF fdc.keeps_readlinkat [OF d]]]) (simp add: wp_rules)
  then show "wp only_assert (if dirfd \<noteq> TUX_AT_FDCWD \<and> d = NULL then ret (- TUX_EBADF)
     else bindM (procpath p pathp) (\<lambda>path. bindM (procbuf p bufp n) (\<lambda>buf.
       case path of None \<Rightarrow> ret (- TUX_EFAULT)
       | Some path \<Rightarrow> if buf = 0 then ret (- TUX_EFAULT)
           else bindM (host_readlinkat P d path buf n) (\<lambda>r.
             if int_of_ssize r < 0 then gets (\<lambda>w. - k_errno P (ext w)) else ret (int_of_ssize r)))))
           (\<lambda>_. tux_inv R) (tux_inv R) w'"
    using inv by (auto simp: wp_ret split: option.split intro!: wp_readonly user_memory [OF inv assms(2)])
qed

lemma newfstatat_keeps:
  assumes "tux_inv R w" "p \<in> R"
  shows "wp only_assert (sys_newfstatat P p dirfd pathp statbufp flags) (\<lambda>_. tux_inv R) (tux_inv R) w"
proof -
  have "wp only_assert (bindM (getfdir P p dirfd) (\<lambda>dir.
           if dirfd \<noteq> TUX_AT_FDCWD \<and> dir = NULL then ret (- TUX_EBADF)
           else host_fstatat P (target P) dir path st 0)) (\<lambda>_. tux_inv R) (tux_inv R) w" for path st
    by (rule wp_bindI [OF getfdir_spec [OF assms]])
      (auto simp: wp_ret tux_inv_host_def intro!: host_inv_drop [OF fdc.keeps_fstatat])
  then show ?thesis
    unfolding sys_newfstatat_def using assms fstat.keeps [OF assms]
    by (auto simp: wp_ret split: option.split
        intro!: wp_user(2) [OF assms] wp_procpath [OF assms])
qed

section \<open>The current directory\<close>

lemma fd_inv_cwd:
  assumes po: "procs_ok w" and pr: "procs w p = Some pr"
    and w': "procs w' = (procs w)(p \<mapsto> pr\<lparr>cwd := d\<rparr>)" "tuxes w' = tuxes w"
    and objs: "objs_ok (refcount w') (pinned w') (cwd_hosts w') w'"
    and hosts: "\<And>q e. q \<noteq> p \<Longrightarrow> cwds w q = Some e \<Longrightarrow> dir_fd e \<noteq> NULL \<Longrightarrow> host_of w' (dir_fd e) = host_of w (dir_fd e)"
    and d: "dir_fd d \<noteq> NULL \<Longrightarrow> dir_file d = host_of w' (dir_fd d)"
    and inj: "\<And>q e. q \<noteq> p \<Longrightarrow> cwds w q = Some e \<Longrightarrow> dir_fd e = NULL \<Longrightarrow> dir_fd d = NULL \<Longrightarrow>
       dir_file d \<noteq> NULL \<Longrightarrow> dir_file e \<noteq> dir_file d"
  shows "fd_inv w'"
proof -
  have c: "cwds w' = (cwds w)(p \<mapsto> d)" by (intro ext) (simp add: cwds_def w')
  have dom: "dom (procs w') = dom (procs w)" using w' pr by auto
  have len: "length (ft_files (fdtable qr)) = TUX_NOFILE" if "procs w' q = Some qr" for q qr
    using that po pr by (auto simp: w' procs_ok_def split: if_splits)
  have fd: "dir_file e = host_of w' (dir_fd e)" if "cwds w' q = Some e" "dir_fd e \<noteq> NULL" for q e
    using that po hosts [of q e] d by (auto simp: c procs_ok_def split: if_splits)
  have one: "dir_file e = NULL \<or> q = q'" if "cwds w' q = Some e" "cwds w' q' = Some e'" "dir_fd e = NULL"
      "dir_fd e' = NULL" "dir_file e = dir_file e'" for q q' e e'
    using that po inj [of q e] inj [of q' e'] unfolding c procs_ok_def
    by (cases "q = p"; cases "q' = p") auto
  have "procs_ok w'"
    using po len fd one unfolding procs_ok_def dom w'(2) by blast
  then show ?thesis using objs by (simp add: fd_inv_def)
qed

lemma refcount_cwd:
  assumes "procs_ok w" "procs w p = Some pr"
  shows "refcount (w\<lparr>procs := (procs w)(p \<mapsto> pr\<lparr>cwd := d\<rparr>)\<rparr>) f + (if dir_fd (cwd pr) = f then 1 else 0) =
         refcount w f + (if dir_fd d = f then 1 else 0)"
  using refcount_proc [of w p pr "pr\<lparr>cwd := d\<rparr>" f] assms by (simp add: procs_ok_def proc_refs_def)

text \<open>The host file a directory owns: the one it was opened with by path.\<close>

definition owned :: "Dir \<Rightarrow> ptr set" where
  "owned d = (if dir_fd d = NULL \<and> dir_file d \<noteq> NULL then {dir_file d} else {})"

lemma cwd_hosts_owned: "cwd_hosts w = (\<Union>p \<in> dom (cwds w). owned (the (cwds w p)))"
  by (force simp: cwd_hosts_def owned_def split: if_splits)

lemma procs_ok_inj:
  "procs_ok w \<Longrightarrow> cwds w p = Some d \<Longrightarrow> cwds w q = Some e \<Longrightarrow> p \<noteq> q \<Longrightarrow> owned d \<inter> owned e = {}"
proof (rule equals0I)
  assume "procs_ok w" and pq: "cwds w p = Some d" "cwds w q = Some e" "p \<noteq> q"
  then have inj: "dir_fd d = NULL \<Longrightarrow> dir_fd e = NULL \<Longrightarrow> dir_file d = dir_file e \<Longrightarrow> dir_file d = NULL"
    unfolding procs_ok_def by blast
  fix x assume "x \<in> owned d \<inter> owned e"
  then show False using inj by (auto simp: owned_def split: if_splits)
qed

lemma cwd_hosts_upd:
  assumes "procs_ok w" "cwds w p = Some e" "cwds w' = (cwds w)(p \<mapsto> d)"
  shows "cwd_hosts w' = cwd_hosts w - owned e \<union> owned d"
proof -
  have "x \<notin> owned e" if "q \<noteq> p" "cwds w q = Some y" "x \<in> owned y" for q x y
    using procs_ok_inj [OF assms(1) that(2) assms(2) that(1)] that(3) by blast
  moreover have "dom (cwds w') = insert p (dom (cwds w) - {p})" using assms(3) by auto
  moreover have "cwd_hosts w = owned e \<union> (\<Union>q \<in> dom (cwds w) - {p}. owned (the (cwds w q)))"
    using assms(2) by (auto simp: cwd_hosts_owned)
  ultimately show ?thesis
    unfolding cwd_hosts_owned [of w'] using assms(3) by (auto split: if_splits)
qed

abbreviation no_dir :: Dir where "no_dir \<equiv> \<lparr>dir_file = NULL, dir_fd = NULL\<rparr>"

text \<open>
  The state after the directory in use was dropped, seen with the field
  cleared: the invariant holds, and what was unowned or in the table is as
  before.
\<close>

definition cwd_dropped :: "ptr set \<Rightarrow> ptr \<Rightarrow> ('x, 'z) tuxw_scheme \<Rightarrow> ('x, 'z) tuxw_scheme \<Rightarrow> bool" where
  "cwd_dropped R p w w' \<longleftrightarrow> (\<exists>pr'. procs w' p = Some pr' \<and> dir_fd (cwd pr') = NULL \<and>
     fdtable pr' = fdtable (the (procs w p)) \<and>
     (let w2 = w'\<lparr>procs := (procs w')(p \<mapsto> pr'\<lparr>cwd := no_dir\<rparr>)\<rparr> in
       tux_inv R w2 \<and> (\<forall>h. unowned w h \<longrightarrow> unowned w2 h) \<and>
       (\<forall>f \<in> dom (fdfiles w2). host_of w2 f = host_of w f)))"

lemma drop_cwd_fd:
  assumes inv: "tux_inv R w" and p: "p \<in> R" "procs w p = Some pr" and g: "dir_fd (cwd pr) \<noteq> NULL"
  shows "wp F (drop_cwd P p) (\<lambda>_. cwd_dropped R p w) E w"
proof -
  let ?g = "dir_fd (cwd pr)"
  let ?cnt = "(refcount w)(?g := refcount w ?g - 1)"
  have po: "procs_ok w" and ok: "objs_ok (refcount w) (pinned w) (cwd_hosts w) w"
    using inv by (simp_all add: tux_inv_def fd_inv_def)
  have ge: "proc_refs pr ?g + (if ?g \<in> pinned w then 1 else 0) \<le> refcount w ?g" "0 < proc_refs pr ?g"
    using refcount_ge [of w p pr ?g] po p by (auto simp: procs_ok_def proc_refs_def)
  have rel: "wp F (fdrelease P ?g p) (\<lambda>_ w'. objs_ok ?cnt (pinned w) (cwd_hosts w) w' \<and> released ?g w w') E w"
    using ok ge g by (intro wp_weaken_fault [OF fdrelease_spec]) auto
  have "cwd_dropped R p w (w1\<lparr>procs := (procs w1)(p \<mapsto> pr\<lparr>cwd := (cwd pr)\<lparr>dir_fd := NULL\<rparr>\<rparr>)\<rparr>)"
    if w1: "objs_ok ?cnt (pinned w) (cwd_hosts w) w1" "released ?g w w1" for w1
  proof -
    note same = released_same [OF w1(2)]
    let ?w2 = "w1\<lparr>procs := (procs w1)(p \<mapsto> pr\<lparr>cwd := no_dir\<rparr>)\<rparr>"
    have rc: "refcount ?w2 f = ?cnt f" if "f \<noteq> NULL" for f
      using refcount_cwd [OF po p(2), of no_dir f] that ge
        refcount_frame [of ?w2 "w\<lparr>procs := (procs w)(p \<mapsto> pr\<lparr>cwd := no_dir\<rparr>)\<rparr>"] same by (auto split: if_splits)
    have h2: "host_of ?w2 = host_of w1" by (rule host_of_frame) simp_all
    have live: "dir_fd e \<in> dom (fdfiles w1)" if "q \<noteq> p" "cwds w q = Some e" "dir_fd e \<noteq> NULL" for q e
    proof -
      from that obtain qr where "procs ?w2 q = Some qr" "dir_fd (cwd qr) = dir_fd e" by (auto simp: cwds_def same)
      then have "0 < refcount ?w2 (dir_fd e)"
        using refcount_ge [of ?w2 q qr "dir_fd e"] po same by (auto simp: procs_ok_def proc_refs_def)
      then show ?thesis using objs_ok_cnt [OF w1(1) that(3)] rc [OF that(3)] by auto
    qed
    have H: "cwd_hosts ?w2 = cwd_hosts w"
      using cwd_hosts_upd [OF po, of p "cwd pr" ?w2 no_dir] p(2) g
      by (auto simp: cwds_def same owned_def fun_eq_iff)
    have "objs_ok ?cnt (pinned w) (cwd_hosts w) ?w2" using w1(1) by (subst objs_ok_frame [of _ w1]) simp_all
    then have "objs_ok (refcount ?w2) (pinned ?w2) (cwd_hosts ?w2) ?w2"
      unfolding H pinned_frame [of ?w2 w, simplified, OF same(2)] by (subst objs_ok_cong [OF rc]) simp_all
    then have "fd_inv ?w2"
      by (rule fd_inv_cwd [OF po p(2), rotated 2]) (use same h2 released_host_of [OF w1(2)] live in auto)
    moreover have "proc_ready ?w2 q" if "q \<in> R" for q
      using inv that p(2) proc_ready_frame [OF same(1,2,4,7)] same
      by (intro proc_ready_upd) (auto simp: tux_inv_def)
    moreover have "threads_ok R w1"
      using inv same by (auto simp: tux_inv_def intro: threads_ok_frame)
    ultimately have "tux_inv R ?w2" by (simp add: tux_inv_def)
    moreover have hh: "host_of ?w2 f = host_of w f" if "f \<in> dom (fdfiles ?w2)" for f
      using released_host_of [OF w1(2)] that h2 by simp
    moreover have "unowned ?w2 h" if "unowned w h" for h
    proof -
      have "?g \<in> dom (fdfiles w)" using objs_ok_cnt [OF ok g] ge by auto
      then have "host_of w ?g \<noteq> h" using that by (auto simp: unowned_def)
      then have "hostfiles w1 h = hostfiles w h" using w1(2) by (simp add: released_def)
      moreover have "dom (fdfiles ?w2) \<subseteq> dom (fdfiles w)"
      proof
        fix f assume "f \<in> dom (fdfiles ?w2)"
        then show "f \<in> dom (fdfiles w)" using w1(2) by (cases "f = ?g") (auto simp: released_def)
      qed
      ultimately show ?thesis using that hh by (auto simp: unowned_def H)
    qed
    ultimately show ?thesis by (simp add: cwd_dropped_def Let_def p(2))
  qed
  then show ?thesis
    using p g tux_inv_proc [OF inv p(1)] released_same(1) [of ?g w]
    by (auto simp: drop_cwd_def set_proc_def wp_rules intro!: wp_mono [OF rel])
qed

text \<open>A directory of its own may be closed: only the directory used it.\<close>

lemma objs_ok_close_owned:
  assumes ok: "objs_ok cnt pin H w" and h: "h \<in> H"
  shows "objs_ok cnt pin (H - {h}) (w\<lparr>ext := x, hostfiles := (hostfiles w)(h := None)\<rparr>)" (is "objs_ok _ _ _ ?w")
    and "objs_ok cnt pin (H - {h}) (w\<lparr>ext := x\<rparr>)"
proof -
  have e: "host_of ?w = host_of w" "host_of (w\<lparr>ext := x\<rparr>) = host_of w" by (rule host_of_frame; simp)+
  have s: "h \<notin> std_hosts" using ok h by (auto simp: objs_ok_def)
  have u: "fdfiles ?w = fdfiles w" "files ?w = files w" "hostfiles ?w = (hostfiles w)(h := None)" "nextp ?w = nextp w"
    "fdfiles (w\<lparr>ext := x\<rparr>) = fdfiles w" "files (w\<lparr>ext := x\<rparr>) = files w" "hostfiles (w\<lparr>ext := x\<rparr>) = hostfiles w"
    "nextp (w\<lparr>ext := x\<rparr>) = nextp w" by simp_all
  have f: "host_of w f \<noteq> h" if "fdfiles w f = Some v" for f v using objs_ok_obj [OF ok that] h by auto
  show "objs_ok cnt pin (H - {h}) ?w"
    using ok s f unfolding objs_ok_def e u by (elim conjE) (intro conjI; (assumption | auto))
  show "objs_ok cnt pin (H - {h}) (w\<lparr>ext := x\<rparr>)"
    using ok unfolding objs_ok_def e u by (elim conjE) (intro conjI; (assumption | auto))
qed

lemma drop_cwd_path:
  assumes inv: "tux_inv R w" and p: "p \<in> R" "procs w p = Some pr"
    and h: "dir_fd (cwd pr) = NULL" "dir_file (cwd pr) \<noteq> NULL"
  shows "wp F (drop_cwd P p) (\<lambda>_. cwd_dropped R p w) E w"
proof -
  let ?h = "dir_file (cwd pr)"
  have po: "procs_ok w" and ok: "objs_ok (refcount w) (pinned w) (cwd_hosts w) w"
    using inv by (simp_all add: tux_inv_def fd_inv_def)
  have c: "cwds w p = Some (cwd pr)" using p by (simp add: cwds_def)
  have hH: "?h \<in> cwd_hosts w" using c h by (auto simp: cwd_hosts_def)
  obtain hf where hf: "hostfiles w ?h = Some hf" using cwd_live [OF inv p(2) h(2)] by blast
  have std: "?h \<notin> {host_stdin, host_stdout, host_stderr}" using ok hH by (auto simp: objs_ok_def std_hosts_def)
  have "cwd_dropped R p w w1" if w1: "objs_ok (refcount w) (pinned w) (cwd_hosts w - {?h}) w1"
    "procs w1 = procs w" "tuxes w1 = tuxes w" "aspaces w1 = aspaces w" "fdfiles w1 = fdfiles w" "files w1 = files w"
    "plats w1 = plats w" "threads_ok R w1"
    "\<And>g. g \<noteq> ?h \<Longrightarrow> hostfiles w1 g = hostfiles w g" for w1
  proof -
    let ?w2 = "w1\<lparr>procs := (procs w1)(p \<mapsto> pr\<lparr>cwd := no_dir\<rparr>)\<rparr>"
    have rc: "refcount ?w2 f = refcount w f" if "f \<noteq> NULL" for f
      using refcount_cwd [OF po p(2), of no_dir f] h that w1
        refcount_frame [of ?w2 "w\<lparr>procs := (procs w)(p \<mapsto> pr\<lparr>cwd := no_dir\<rparr>)\<rparr>"] by simp
    have h2: "host_of ?w2 = host_of w" by (rule host_of_frame) (simp_all add: w1)
    have H: "cwd_hosts ?w2 = cwd_hosts w - {?h}"
      using cwd_hosts_upd [OF po c, of ?w2 no_dir] h by (auto simp: cwds_def w1 owned_def fun_eq_iff)
    have "objs_ok (refcount w) (pinned w) (cwd_hosts w - {?h}) ?w2" using w1(1) by (subst objs_ok_frame [of _ w1]) simp_all
    then have "objs_ok (refcount ?w2) (pinned ?w2) (cwd_hosts ?w2) ?w2"
      unfolding H pinned_frame [of ?w2 w, simplified, OF w1(3)] by (subst objs_ok_cong [OF rc]) simp_all
    then have "fd_inv ?w2" by (rule fd_inv_cwd [OF po p(2), rotated 2]) (use w1 h2 in auto)
    moreover have "proc_ready ?w2 q" if "q \<in> R" for q
      using inv that p(2) proc_ready_frame [OF w1(2,3,4,7)] w1(2) by (intro proc_ready_upd) (auto simp: tux_inv_def)
    moreover have "unowned ?w2 g" if "unowned w g" for g
    proof -
      have "g \<noteq> ?h" using that hH by (auto simp: unowned_def)
      then show ?thesis using that w1(5,9) unfolding unowned_def H h2 by auto
    qed
    ultimately show ?thesis using h2 by (simp add: cwd_dropped_def Let_def tux_inv_def w1 p(2) h)
  qed
  note drop = this
  have "cwd_dropped R p w (w\<lparr>ext := x, hostfiles := (hostfiles w)(?h := None)\<rparr>)"
    "cwd_dropped R p w (w\<lparr>ext := x\<rparr>)" for x
    using objs_ok_close_owned [OF ok hH, of x] inv
    by (auto intro!: drop simp: tux_inv_def)
  then show ?thesis
    using p h hf std tux_inv_proc [OF inv p(1)]
    by (auto simp: drop_cwd_def host_close_def set_hostfile_def free_hostfile_def return_tuxerr_def wp_rules)
qed

lemma drop_cwd_spec:
  assumes inv: "tux_inv R w" and p: "p \<in> R"
  shows "wp F (drop_cwd P p) (\<lambda>_. cwd_dropped R p w) E w"
proof -
  obtain pr where pr: "p \<noteq> NULL" "procs w p = Some pr" using tux_inv_proc [OF inv p] by blast
  consider "dir_fd (cwd pr) \<noteq> NULL" | "dir_fd (cwd pr) = NULL" "dir_file (cwd pr) \<noteq> NULL"
    | "dir_fd (cwd pr) = NULL" "dir_file (cwd pr) = NULL" by blast
  then show ?thesis
  proof cases
    case 3
    then have "pr\<lparr>cwd := no_dir\<rparr> = pr" by (cases pr; cases "cwd pr") simp
    then have "cwd_dropped R p w w"
      using inv pr 3 by (simp add: cwd_dropped_def Let_def fun_upd_idem)
    then show ?thesis using 3 pr by (simp add: drop_cwd_def wp_rules)
  qed (use drop_cwd_fd drop_cwd_path assms pr in auto)
qed

lemma unowned_cwd: "unowned w h \<Longrightarrow> cwds w q = Some e \<Longrightarrow> dir_fd e = NULL \<Longrightarrow> dir_file e \<noteq> h"
  unfolding unowned_def cwd_hosts_def by blast

text \<open>Installing a directory where there is none.\<close>

lemma tux_inv_set_cwd_path:
  assumes inv: "tux_inv R w" and pr: "procs w p = Some pr" "cwd pr = no_dir" and h: "h \<noteq> NULL \<Longrightarrow> unowned w h"
  shows "tux_inv R (w\<lparr>procs := (procs w)(p \<mapsto> pr\<lparr>cwd := \<lparr>dir_file = h, dir_fd = NULL\<rparr>\<rparr>)\<rparr>)"
proof -
  let ?d = "\<lparr>dir_file = h, dir_fd = NULL\<rparr>"
  let ?w = "w\<lparr>procs := (procs w)(p \<mapsto> pr\<lparr>cwd := ?d\<rparr>)\<rparr>"
  have po: "procs_ok w" and ok: "objs_ok (refcount w) (pinned w) (cwd_hosts w) w"
    using inv by (simp_all add: tux_inv_def fd_inv_def)
  have rc: "refcount ?w f = refcount w f" if "f \<noteq> NULL" for f
    using refcount_cwd [OF po pr(1), of ?d f] pr(2) that by simp
  have e: "host_of ?w = host_of w" by (rule host_of_frame) simp_all
  have H: "cwd_hosts ?w = cwd_hosts w \<union> owned ?d"
    using cwd_hosts_upd [OF po, of p "cwd pr" ?w ?d] pr by (auto simp: cwds_def owned_def fun_eq_iff)
  have "objs_ok (refcount w) (pinned w) (cwd_hosts w \<union> owned ?d) ?w"
    using ok h unfolding objs_ok_def e unowned_def owned_def by (auto split: if_splits)
  then have "objs_ok (refcount ?w) (pinned ?w) (cwd_hosts ?w) ?w"
    unfolding H pinned_frame [of ?w w, simplified] by (subst objs_ok_cong [OF rc]) simp_all
  then have "fd_inv ?w"
    by (rule fd_inv_cwd [OF po pr(1), rotated 2]) (use e h in \<open>auto dest: unowned_cwd\<close>)
  moreover have "proc_ready ?w q" if "q \<in> R" for q
    using inv that pr(1) by (intro proc_ready_upd) (auto simp: tux_inv_def)
  ultimately show ?thesis using inv by (simp add: tux_inv_def)
qed

lemma tux_inv_set_cwd_fd:
  assumes inv: "tux_inv R w" and pr: "procs w p = Some pr" "cwd pr = no_dir"
    and f: "f \<noteq> NULL" "fdfiles w f = Some v" "unat (refs v) = refcount w f"
  shows "tux_inv R (w\<lparr>fdfiles := (fdfiles w)(f \<mapsto> v\<lparr>refs := refs v + 1\<rparr>),
     procs := (procs w)(p \<mapsto> pr\<lparr>cwd := \<lparr>dir_file = host_of w f, dir_fd = f\<rparr>\<rparr>)\<rparr>)"
proof -
  let ?d = "\<lparr>dir_file = host_of w f, dir_fd = f\<rparr>"
  let ?w1 = "w\<lparr>fdfiles := (fdfiles w)(f \<mapsto> v\<lparr>refs := refs v + 1\<rparr>)\<rparr>"
  let ?w = "?w1\<lparr>procs := (procs w)(p \<mapsto> pr\<lparr>cwd := ?d\<rparr>)\<rparr>"
  have po: "procs_ok w" and ok: "objs_ok (refcount w) (pinned w) (cwd_hosts w) w"
    using inv by (simp_all add: tux_inv_def fd_inv_def)
  have rc: "refcount ?w g = ((refcount w)(f := refcount w f + 1)) g" if "g \<noteq> NULL" for g
    using refcount_cwd [OF po pr(1), of ?d g] pr(2) that
      refcount_frame [of ?w "w\<lparr>procs := (procs w)(p \<mapsto> pr\<lparr>cwd := ?d\<rparr>)\<rparr>"] by simp
  have e: "host_of ?w = host_of w" using f(2) by (intro ext host_of_cong) auto
  have H: "cwd_hosts ?w = cwd_hosts w"
    using cwd_hosts_upd [OF po, of p "cwd pr" ?w ?d] pr f(1) by (auto simp: cwds_def owned_def fun_eq_iff)
  have "objs_ok ((refcount w)(f := refcount w f + 1)) (pinned w) (cwd_hosts w) ?w"
    using objs_ok_incref [OF ok f(2,3) refcount_room [OF po]] by (subst objs_ok_frame [of _ ?w1]) simp_all
  then have "objs_ok (refcount ?w) (pinned ?w) (cwd_hosts ?w) ?w"
    unfolding H pinned_frame [of ?w w, simplified] by (subst objs_ok_cong [OF rc]) simp_all
  then have "fd_inv ?w"
    by (rule fd_inv_cwd [OF po pr(1), rotated 2]) (use e f(1) in auto)
  moreover have "proc_ready ?w q" if "q \<in> R" for q
    using inv that pr(1) by (fastforce simp: tux_inv_def proc_ready_def as_ready_def)
  ultimately show ?thesis using inv by (simp add: tux_inv_def)
qed

lemma chdir_keeps:
  fixes w :: "('x, 'z) tuxw_scheme"
  assumes "tux_inv R w" "p \<in> R"
  shows "wp only_assert (sys_chdir P p pathp) (\<lambda>_. tux_inv R) (tux_inv R) w"
proof -
  obtain pr where pr: "p \<noteq> NULL" "procs w p = Some pr" using tux_inv_proc [OF assms] by blast
  have tail: "wp only_assert (bindM (drop_cwd P p) (\<lambda>_.
         bindM (set_proc p (\<lambda>pr. pr\<lparr>cwd := (cwd pr)\<lparr>dir_file := hf\<rparr>\<rparr>)) (\<lambda>_. ret (0::int)))) (\<lambda>_. tux_inv R) (tux_inv R) w1"
    if w1: "tux_inv R w1 \<and> (hf \<noteq> NULL \<longrightarrow> unowned w1 hf)" for hf and w1 :: "('x, 'z) tuxw_scheme"
  proof (rule wp_bindI [OF drop_cwd_spec])
    fix u and w2 :: "('x, 'z) tuxw_scheme" assume "cwd_dropped R p w1 w2"
    then obtain pr2 where p2: "procs w2 p = Some pr2" "dir_fd (cwd pr2) = NULL"
      and i2: "tux_inv R (w2\<lparr>procs := (procs w2)(p \<mapsto> pr2\<lparr>cwd := no_dir\<rparr>)\<rparr>)"
      and un: "\<forall>h. unowned w1 h \<longrightarrow> unowned (w2\<lparr>procs := (procs w2)(p \<mapsto> pr2\<lparr>cwd := no_dir\<rparr>)\<rparr>) h"
      by (auto simp: cwd_dropped_def Let_def)
    have eq: "(cwd pr2)\<lparr>dir_file := hf\<rparr> = \<lparr>dir_file = hf, dir_fd = NULL\<rparr>" using p2(2) by (cases "cwd pr2") simp
    have "tux_inv R (w2\<lparr>procs := (procs w2)(p \<mapsto> pr2\<lparr>cwd := (cwd pr2)\<lparr>dir_file := hf\<rparr>\<rparr>)\<rparr>)"
      unfolding eq using tux_inv_set_cwd_path [OF i2, of p _ hf] un w1 by simp
    then show "wp only_assert (bindM (set_proc p (\<lambda>pr. pr\<lparr>cwd := (cwd pr)\<lparr>dir_file := hf\<rparr>\<rparr>)) (\<lambda>_. ret (0::int))) (\<lambda>_. tux_inv R) (tux_inv R) w2"
      using p2 pr by (simp add: set_proc_def wp_rules)
  qed (use w1 assms in auto)
  have "wp only_assert (bindM (host_openat P (dir_file (cwd pr)) path (TUX_O_DIRECTORY OR TUX_O_PATH) 0) (\<lambda>hf.
         bindM (drop_cwd P p) (\<lambda>_.
         bindM (set_proc p (\<lambda>pr. pr\<lparr>cwd := (cwd pr)\<lparr>dir_file := hf\<rparr>\<rparr>)) (\<lambda>_. ret (0::int))))) (\<lambda>_. tux_inv R) (tux_inv R) w" for path
    by (rule wp_bindI [OF host_openat_spec [OF assms(1) cwd_live [OF assms(1) pr(2)]] tail])
  then show ?thesis
    unfolding sys_chdir_def using assms(1) pr
    by (intro wp_procpath [OF assms]) (simp add: wp_ret wp_bind [of _ "deref procs p"] wp_deref split: option.split)
qed

lemma fchdir_keeps:
  fixes w :: "('x, 'z) tuxw_scheme"
  assumes "tux_inv R w" "p \<in> R"
  shows "wp only_assert (sys_fchdir P p fd) (\<lambda>_. tux_inv R) (tux_inv R) w"
proof -
  obtain pr where pr: "p \<noteq> NULL" "procs w p = Some pr" using tux_inv_proc [OF assms] by blast
  have inst: "wp only_assert (bindM (drop_cwd P p) (\<lambda>_.
             bindM (set_fdfile f (\<lambda>v. v\<lparr>refs := refs v + 1\<rparr>)) (\<lambda>_.
             bindM (set_proc p (\<lambda>pr. pr\<lparr>cwd := \<lparr>dir_file = host_of w f, dir_fd = f\<rparr>\<rparr>)) (\<lambda>_.
             ret (0::int))))) (\<lambda>_. tux_inv R) (tux_inv R) (w\<lparr>ext := x\<rparr>)"
    if f: "f \<noteq> NULL" "f = ft_files (fdtable pr) ! nat fd" "fdhas_x (ft_files (fdtable pr)) fd" for f x
  proof (rule wp_bindI [OF drop_cwd_spec])
    fix u and w2 :: "('x, 'z) tuxw_scheme" assume "cwd_dropped R p (w\<lparr>ext := x\<rparr>) w2"
    then obtain pr2 where p2: "procs w2 p = Some pr2" "fdtable pr2 = fdtable pr"
      and i2: "tux_inv R (w2\<lparr>procs := (procs w2)(p \<mapsto> pr2\<lparr>cwd := no_dir\<rparr>)\<rparr>)"
      and ho: "\<forall>f \<in> dom (fdfiles w2). host_of (w2\<lparr>procs := (procs w2)(p \<mapsto> pr2\<lparr>cwd := no_dir\<rparr>)\<rparr>) f = host_of (w\<lparr>ext := x\<rparr>) f"
      using pr by (auto simp: cwd_dropped_def Let_def)
    let ?w2 = "w2\<lparr>procs := (procs w2)(p \<mapsto> pr2\<lparr>cwd := no_dir\<rparr>)\<rparr>"
    have hx: "host_of (w\<lparr>ext := x\<rparr>) = host_of w" by (rule host_of_frame) simp_all
    have po: "procs_ok ?w2" and ok: "objs_ok (refcount ?w2) (pinned ?w2) (cwd_hosts ?w2) ?w2"
      using i2 by (simp_all add: tux_inv_def fd_inv_def)
    have "0 < refcount ?w2 f"
      using fd_inv_slot(1) [of ?w2 p "pr2\<lparr>cwd := no_dir\<rparr>" fd] refcount_ge [of ?w2 p "pr2\<lparr>cwd := no_dir\<rparr>" f] i2 f p2(2) po
      by (auto simp: tux_inv_def procs_ok_def)
    then obtain v where v: "fdfiles ?w2 f = Some v" "unat (refs v) = refcount ?w2 f"
      using objs_ok_cnt [OF ok f(1)] by blast
    then have "host_of ?w2 f = host_of w f" using ho hx by auto
    then have "tux_inv R (w2\<lparr>fdfiles := (fdfiles w2)(f \<mapsto> v\<lparr>refs := refs v + 1\<rparr>),
       procs := (procs w2)(p \<mapsto> pr2\<lparr>cwd := \<lparr>dir_file = host_of w f, dir_fd = f\<rparr>\<rparr>)\<rparr>)"
      using tux_inv_set_cwd_fd [OF i2, of p "pr2\<lparr>cwd := no_dir\<rparr>" f v] f(1) v by simp
    then show "wp only_assert (bindM (set_fdfile f (\<lambda>v. v\<lparr>refs := refs v + 1\<rparr>)) (\<lambda>_.
             bindM (set_proc p (\<lambda>pr. pr\<lparr>cwd := \<lparr>dir_file = host_of w f, dir_fd = f\<rparr>\<rparr>)) (\<lambda>_.
             ret (0::int)))) (\<lambda>_. tux_inv R) (tux_inv R) w2"
      using p2 v pr f(1) by (simp add: set_proc_def set_fdfile_def wp_rules)
  qed (use assms in auto)
  show ?thesis
  proof (cases "fdhas_x (ft_files (fdtable pr)) fd")
    case True
    let ?f = "ft_files (fdtable pr) ! nat fd"
    have f0: "?f \<noteq> NULL" using True by (simp add: fdhas_x_def)
    have "\<exists>v fl. fdfiles w ?f = Some v \<and> fns_set v \<and> dev v \<noteq> NULL \<and> files w (dev v) = Some fl \<and>
       f_file fl = host_of w ?f \<and> f_file fl \<noteq> NULL \<and> f_file fl \<in> dom (hostfiles w)"
      using fdget_spec [OF assms, of no_fault fd] pr True f0 by (simp add: fdget_def wp_rules)
    then obtain v fl where v: "fdfiles w ?f = Some v" "fns_set v" "dev v \<noteq> NULL" "files w (dev v) = Some fl"
      "f_file fl = host_of w ?f" "f_file fl \<noteq> NULL" "f_file fl \<in> dom (hostfiles w)" by blast
    then show ?thesis
      using pr True f0 assms(1) inst [OF f0 refl True]
      by (auto simp: sys_fchdir_def fdget_def call_file_def filefile_def filef_def host_isdir_def fns_set_def wp_rules)
  qed (use pr assms(1) in \<open>simp add: sys_fchdir_def fdget_def wp_rules\<close>)
qed

section \<open>The other handlers\<close>

lemma writev_keeps:
  assumes "tux_inv R w" "p \<in> R"
  shows "wp only_assert (sys_writev P p fd iovp n) (\<lambda>_. tux_inv R) (tux_inv R) w"
  unfolding sys_writev_def
  by (rule wp_user(2) [OF assms]) (auto simp: assms wp_ret intro!: iov_loop_keeps fdwrite.keeps)

lemma readv_keeps:
  assumes "tux_inv R w" "p \<in> R"
  shows "wp only_assert (sys_readv P p fd iovp n) (\<lambda>_. tux_inv R) (tux_inv R) w"
  unfolding sys_readv_def
  by (rule wp_user(2) [OF assms]) (auto simp: assms wp_ret intro!: iov_loop_keeps fdread.keeps)

lemma cwd_inv_host:
  assumes "tux_inv R w" "procs w p = Some pr"
  shows "tux_inv_host R (dir_file (cwd pr)) w"
  using assms cwd_live [OF assms] by (simp add: tux_inv_host_def)

lemma host_truncate_keeps:
  assumes "tux_inv R w"
  shows "wp only_assert (host_truncate P path len) (\<lambda>_. tux_inv R) E w"
  using assms by (simp add: host_truncate_def return_zero_def return_tuxerr_def wp_rules)

lemma truncate_keeps:
  assumes "tux_inv R w" "p \<in> R"
  shows "wp only_assert (sys_truncate P p pathp len) (\<lambda>_. tux_inv R) (tux_inv R) w"
proof -
  obtain pr where pr: "p \<noteq> NULL" "procs w p = Some pr" using tux_inv_proc [OF assms] by blast
  have "wp only_assert (bindM (host_getpath_str P (dir_file (cwd pr)) (of_nat TUX_PATH_MAX)) (\<lambda>(r, dir).
           if r < 0 then ret r
           else host_truncate P (cwk_path_join P (takeWhile (\<lambda>b. b \<noteq> 0) dir) path TUX_PATH_MAX) len))
         (\<lambda>_. tux_inv R) (tux_inv R) w" for path
    by (rule wp_bindI [OF host_inv_drop [OF fdc.keeps_getpath_str [OF cwd_inv_host [OF assms(1) pr(2)]]]])
      (auto simp: wp_ret host_truncate_keeps split: prod.split)
  then show ?thesis
    unfolding sys_truncate_def using assms(1) pr
    by (intro wp_procpath [OF assms])
      (simp add: wp_ret wp_bind [of _ "deref procs p"] wp_deref host_truncate_keeps split: option.split)
qed

lemma chown_keeps:
  assumes "tux_inv R w" "p \<in> R"
  shows "wp only_assert (sys_chown P p pathp owner grp) (\<lambda>_. tux_inv R) (tux_inv R) w"
proof -
  obtain pr where pr: "p \<noteq> NULL" "procs w p = Some pr" using tux_inv_proc [OF assms] by blast
  have "wp only_assert (host_fchownat P (dir_file (cwd pr)) path owner grp 0) (\<lambda>_. tux_inv R) (tux_inv R) w" for path
    by (rule host_inv_drop [OF fdc.keeps_fchownat [OF cwd_inv_host [OF assms(1) pr(2)]]])
  then show ?thesis
    unfolding sys_chown_def using assms(1) pr
    by (intro wp_procpath [OF assms]) (simp add: wp_ret wp_bind [of _ "deref procs p"] wp_deref split: option.split)
qed

lemma chmod_keeps:
  assumes "tux_inv R w" "p \<in> R"
  shows "wp only_assert (sys_chmod P p pathp mode) (\<lambda>_. tux_inv R) (tux_inv R) w"
proof -
  obtain pr where pr: "p \<noteq> NULL" "procs w p = Some pr" using tux_inv_proc [OF assms] by blast
  have "wp only_assert (host_fchmodat P (dir_file (cwd pr)) path mode 0) (\<lambda>_. tux_inv R) (tux_inv R) w" for path
    by (rule host_inv_drop [OF fdc.keeps_fchmodat [OF cwd_inv_host [OF assms(1) pr(2)]]])
  then show ?thesis
    unfolding sys_chmod_def using assms(1) pr
    by (intro wp_procpath [OF assms]) (simp add: wp_ret wp_bind [of _ "deref procs p"] wp_deref split: option.split)
qed

lemma getcwd_keeps:
  assumes "tux_inv R w" "p \<in> R"
  shows "wp only_assert (sys_getcwd P p bufp n) (\<lambda>_. tux_inv R) (tux_inv R) w"
proof -
  obtain pr where pr: "p \<noteq> NULL" "procs w p = Some pr" using tux_inv_proc [OF assms] by blast
  have "wp only_assert (bindM (host_getpath P (dir_file (cwd pr)) buf k) (\<lambda>r.
          if r < 0 then ret 0
          else bindM (write_mem (buf + (k - 1)) [0]) (\<lambda>_. ret buf))) (\<lambda>_. tux_inv R) (tux_inv R) w" for buf k
    by (rule wp_bindI [OF host_inv_drop [OF fdc.keeps_getpath [OF cwd_inv_host [OF assms(1) pr(2)]]]])
      (auto simp: wp_rules write_mem_def)
  then show ?thesis
    unfolding sys_getcwd_def using assms(1) pr
    by (auto simp: wp_ret wp_bind [of _ "deref procs p"] wp_deref Let_def intro!: wp_user(1) [OF assms])
qed

text \<open>Resolving a second directory keeps the first one live.\<close>

lemma getfdir_keeps_host:
  assumes "tux_inv_host R h w" "p \<in> R"
  shows "wp only_assert (getfdir P p dirfd) (\<lambda>d w'. tux_inv_host R h w' \<and> tux_inv_host R d w') E w"
proof -
  have inv: "tux_inv R w" using assms(1) by (simp add: tux_inv_host_def)
  have "wp any_fault (getfdir P p dirfd) (\<lambda>_ w'. hostfiles w' = hostfiles w) (\<lambda>_. True) w"
    by (auto simp: getfdir_def fdget_def call_file_def filefile_def filef_def host_isdir_def wp_rules
        split: option.splits file_fn.splits)
  with getfdir_spec [OF inv assms(2), of only_assert P dirfd E]
  show ?thesis using assms(1) by (auto simp: wp_def tux_inv_host_def split: outcome.splits)
qed

lemma renameat_keeps:
  fixes w :: "('x, 'z) tuxw_scheme"
  assumes "tux_inv R w" "p \<in> R"
  shows "wp only_assert (sys_renameat P p olddir oldp newdir newp) (\<lambda>_. tux_inv R) (tux_inv R) w"
  unfolding sys_renameat_def
proof (rule wp_bindI [OF getfdir_spec [OF assms]], rule wp_bindI [OF getfdir_keeps_host [OF _ assms(2)]], assumption)
  fix d e and w1 w2 :: "('x, 'z) tuxw_scheme"
  assume d: "tux_inv_host R d w2 \<and> tux_inv_host R e w2"
  then have inv: "tux_inv R w2" by (simp add: tux_inv_host_def)
  have "wp only_assert (host_renameat2 P d s e t 0) (\<lambda>_. tux_inv R) (tux_inv R) w2" for s t
    using d by (auto simp: host_renameat2_def fd_or_cwd_def return_zero_def return_tuxerr_def tux_inv_host_def wp_rules)
  then show "wp only_assert (if (olddir \<noteq> TUX_AT_FDCWD \<and> d = NULL) \<or> (newdir \<noteq> TUX_AT_FDCWD \<and> e = NULL) then ret (- TUX_EBADF)
     else bindM (procpath p oldp) (\<lambda>oldpath. bindM (procpath p newp) (\<lambda>newpath.
       case oldpath of None \<Rightarrow> ret (- TUX_EFAULT) | Some oldpath \<Rightarrow>
       (case newpath of None \<Rightarrow> ret (- TUX_EFAULT) | Some newpath \<Rightarrow>
         host_renameat2 P d oldpath e newpath 0)))) (\<lambda>_. tux_inv R) (tux_inv R) w2"
    using inv by (auto simp: wp_ret intro!: wp_procpath [OF inv assms(2)] split: option.split)
qed

end
