(* ===== verification/Tux_Align.thy ===== *)
theory Tux_Align
  imports Tux_Prelude
begin

text \<open>
  The alignment helpers of \<^verbatim>\<open>src/align.h\<close> on 64-bit words, and the interface of
  page rounding that the memory system calls and the ELF loader rely on: a
  locale with the laws of rounding down and up, its consequences, and its
  interpretation on \<open>truncp\<close> and \<open>ceilp\<close>.
\<close>

definition truncp :: "u64 \<Rightarrow> u64 \<Rightarrow> u64" where
  "truncp addr align = (let align_mask = align - 1 in addr AND NOT align_mask)"

definition ceilp :: "u64 \<Rightarrow> u64 \<Rightarrow> u64" where
  "ceilp addr align = (let align_mask = align - 1 in (addr + align_mask) AND NOT align_mask)"

text \<open>The macro \<^verbatim>\<open>MIN\<close>, used on \<^verbatim>\<open>unsigned\<close> operands.\<close>

definition MIN_u :: "u32 \<Rightarrow> u32 \<Rightarrow> u32" where
  "MIN_u a b = (if a < b then a else b)"

text \<open>The alignments in use are powers of two.\<close>

definition is_pow2 :: "u64 \<Rightarrow> bool" where
  "is_pow2 al \<longleftrightarrow> al \<in> (\<lambda>k. 2 ^ k) ` {..<64}"

lemma is_pow2_4096 [simp]: "is_pow2 4096"
  unfolding is_pow2_def by (rule image_eqI [of _ _ 12]) simp_all

lemma is_pow2_16384 [simp]: "is_pow2 16384"
  unfolding is_pow2_def by (rule image_eqI [of _ _ 14]) simp_all

lemma is_pow2E:
  assumes "is_pow2 al"
  obtains k where "k < 64" "al = 2 ^ k" "unat al = 2 ^ k" "al - 1 = mask k"
proof -
  from assms obtain k where k: "k < 64" "al = 2 ^ k" by (auto simp: is_pow2_def)
  have "unat (word_of_nat (2 ^ k) :: u64) = 2 ^ k"
    using k(1) power_strict_increasing [of k 64 "2::nat"] by (simp only: unat_of_nat) simp
  with k show thesis by (intro that) (auto simp: mask_eq_decr_exp)
qed

lemma and_not_mask_shift: "a AND NOT (mask k) = push_bit k (drop_bit k (a :: u64))"
  by (rule bit_word_eqI) (auto simp: bit_simps)

lemma unat_and_not_mask:
  "unat (a AND NOT (mask k) :: u64) = unat a div 2 ^ k * 2 ^ k"
proof -
  have fits: "unat a < 2 ^ 64" using unsigned_less [of a, where 'a = nat] by simp
  have "unat (a AND NOT (mask k)) = take_bit 64 (push_bit k (drop_bit k (unat a)))"
    using fits by (simp add: and_not_mask_shift unsigned_push_bit_eq unsigned_drop_bit_eq
        take_bit_nat_eq_self)
  also have "push_bit k (drop_bit k (unat a)) = unat a div 2 ^ k * 2 ^ k"
    by (simp add: push_bit_eq_mult drop_bit_eq_div)
  finally show ?thesis
    using le_less_trans [OF div_times_less_eq_dividend fits]
    by (simp only: take_bit_nat_eq_self)
qed

lemma unat_truncp:
  "is_pow2 al \<Longrightarrow> unat (truncp a al) = unat a div unat al * unat al"
  by (elim is_pow2E) (simp add: truncp_def Let_def unat_and_not_mask)

lemma unat_ceilp:
  assumes "is_pow2 al"
  shows "unat (ceilp a al) = (unat a + (unat al - 1)) mod 2 ^ 64 div unat al * unat al"
  using assms
proof (elim is_pow2E)
  fix k assume k: "k < 64" "al = 2 ^ k" "unat al = 2 ^ k" "al - 1 = mask k"
  have "unat (mask k :: u64) = 2 ^ k - 1"
    using k by (metis mask_eq_decr_exp unat_minus_one unsigned_1 unat_eq_zero power_not_zero
        zero_neq_numeral nat_power_eq_Suc_0_iff unsigned_0 k(3) power_eq_0_iff)
  then have "unat (a + mask k) = (unat a + (2 ^ k - 1)) mod 2 ^ 64"
    by (simp add: unat_word_ariths)
  then show ?thesis
    using k by (simp add: ceilp_def Let_def unat_and_not_mask)
qed

section \<open>The interface of page rounding\<close>

text \<open>
  \<open>down a al\<close> and \<open>up a al\<close> are the multiples of \<open>al\<close> next to \<open>a\<close>; \<open>up\<close> is
  specified only where the result fits in 64 bits.
\<close>

locale rounding =
  fixes down up :: "u64 \<Rightarrow> u64 \<Rightarrow> u64" and valid :: "u64 \<Rightarrow> bool"
  assumes valid_pos: "valid al \<Longrightarrow> 0 < unat al"
    and down_dvd: "valid al \<Longrightarrow> unat al dvd unat (down a al)"
    and down_le: "valid al \<Longrightarrow> down a al \<le> a"
    and down_close: "valid al \<Longrightarrow> unat a < unat (down a al) + unat al"
    and up_dvd: "valid al \<Longrightarrow> unat al dvd unat (up a al)"
    and up_ge: "valid al \<Longrightarrow> unat a + unat al \<le> 2 ^ 64 \<Longrightarrow> a \<le> up a al"
    and up_close: "valid al \<Longrightarrow> unat a + unat al \<le> 2 ^ 64 \<Longrightarrow> unat (up a al) < unat a + unat al"
begin

lemma dvd_between:
  fixes x y d :: nat
  assumes "d dvd x" "d dvd y" "x < y + d"
  shows "x \<le> y"
proof -
  obtain m n where mn: "x = d * m" "y = d * n" using assms(1,2) by (auto elim!: dvdE)
  have "0 < d" using assms(3) mn by (cases "d = 0") auto
  moreover have "d * m < d * Suc n" using assms(3) mn by simp
  ultimately have "m < Suc n" by (metis mult_less_cancel1)
  then show ?thesis using mn by simp
qed

text \<open>Rounding down is the greatest multiple below, rounding up the least one above.\<close>

lemma down_greatest: "valid al \<Longrightarrow> unat al dvd unat b \<Longrightarrow> b \<le> a \<Longrightarrow> b \<le> down a al"
  using dvd_between [of "unat al" "unat b" "unat (down a al)"] down_dvd [of al a] down_close [of al a]
  by (simp add: word_le_nat_alt)

lemma up_least:
  "valid al \<Longrightarrow> unat a + unat al \<le> 2 ^ 64 \<Longrightarrow> unat al dvd unat b \<Longrightarrow> a \<le> b \<Longrightarrow> up a al \<le> b"
  using dvd_between [of "unat al" "unat (up a al)" "unat b"] up_dvd [of al a] up_close [of al a]
  by (simp add: word_le_nat_alt)

lemma down_fixed: "valid al \<Longrightarrow> unat al dvd unat a \<Longrightarrow> down a al = a"
  by (rule antisym) (auto intro: down_le down_greatest)

lemma up_fixed: "valid al \<Longrightarrow> unat a + unat al \<le> 2 ^ 64 \<Longrightarrow> unat al dvd unat a \<Longrightarrow> up a al = a"
  by (rule antisym) (auto intro: up_ge up_least)

text \<open>The rounded range covers the range it was made from.\<close>

lemma cover:
  assumes "valid al" and "unat a + unat n + unat al \<le> 2 ^ 64"
  shows "down a al \<le> a \<and> a + n \<le> up (a + n) al"
proof -
  have "0 < unat al" using assms(1) by (rule valid_pos)
  then have "unat (a + n) = unat a + unat n" using assms(2) by (intro unat_add_u64) simp
  then show ?thesis using assms by (simp add: down_le up_ge)
qed

end

interpretation page: rounding truncp ceilp is_pow2
proof
  fix al a :: u64 assume v: "is_pow2 al"
  then have al: "0 < unat al" by (elim is_pow2E) simp
  then show "0 < unat al" .
  show "unat al dvd unat (truncp a al)" "unat al dvd unat (ceilp a al)"
    using v by (simp_all add: unat_truncp unat_ceilp)
  show "truncp a al \<le> a" using v by (simp add: word_le_nat_alt unat_truncp)
  show "unat a < unat (truncp a al) + unat al"
    using dividend_less_div_times [OF al, of "unat a"] v by (simp add: unat_truncp add.commute)
  assume fits: "unat a + unat al \<le> 2 ^ 64"
  let ?s = "unat a + (unat al - 1)"
  have c: "unat (ceilp a al) = ?s div unat al * unat al"
    using v al fits by (simp add: unat_ceilp)
  have s: "?s < ?s div unat al * unat al + unat al"
    using dividend_less_div_times [OF al, of ?s] by (simp only: add.commute)
  show "a \<le> ceilp a al" unfolding word_le_nat_alt c using s by linarith
  show "unat (ceilp a al) < unat a + unat al"
    unfolding c using div_times_less_eq_dividend [of ?s "unat al"] al by linarith
qed

section \<open>Properties\<close>

text \<open>Page rounding is exact: for a power of two, \<^verbatim>\<open>truncp\<close> is the greatest multiple of
  the alignment that is not above the address, and \<^verbatim>\<open>ceilp\<close> is the least one not below
  it; within the last page of the 64-bit range, where there is none, \<^verbatim>\<open>ceilp\<close> wraps to 0.\<close>

lemma rounding_exact:
  assumes "is_pow2 al"
  shows "(unat al dvd unat b \<and> b \<le> a \<longrightarrow> b \<le> truncp a al) \<and> unat al dvd unat (truncp a al) \<and> truncp a al \<le> a \<and>
    (unat a + unat al \<le> 2 ^ 64 \<longrightarrow> a \<le> ceilp a al \<and> unat al dvd unat (ceilp a al) \<and>
       (unat al dvd unat b \<and> a \<le> b \<longrightarrow> ceilp a al \<le> b)) \<and>
    (2 ^ 64 < unat a + unat al \<longrightarrow> ceilp a al = 0)"
proof -
  have "ceilp a al = 0" if w: "2 ^ 64 < unat a + unat al"
  proof -
    have a: "unat a < 2 ^ 64" "unat al < 2 ^ 64" using unsigned_less [of a, where 'a = nat] unsigned_less [of al, where 'a = nat] by simp_all
    have "(unat a + (unat al - 1)) mod 2 ^ 64 = unat a + (unat al - 1) - 2 ^ 64"
      using a w by (simp add: le_mod_geq)
    moreover have "unat a + (unat al - 1) - 2 ^ 64 < unat al" using a w by linarith
    ultimately have "unat (ceilp a al) = 0" by (simp add: unat_ceilp [OF assms])
    then show ?thesis by (simp add: unat_eq_zero)
  qed
  then show ?thesis
    using page.down_greatest [OF assms, of b a] page.down_dvd [OF assms, of a] page.down_le [OF assms, of a]
      page.up_ge [OF assms, of a] page.up_dvd [OF assms, of a] page.up_least [OF assms, of a b]
    by blast
qed

lemma rounding_exact_example:
  "is_pow2 4096 \<and> ceilp 0xFFFFFFFFFFFFF001 4096 = 0 \<and> ceilp 4097 4096 \<le> 0x2000 \<and> 0x1000 \<le> truncp 0x1234 4096"
  using rounding_exact [of 4096 "0x1000" "0xFFFFFFFFFFFFF001"] rounding_exact [of 4096 "0x2000" 4097]
    rounding_exact [of 4096 "0x1000" "0x1234"]
  by simp

end
