(* ===== verification/Tux_SysMem.thy ===== *)
theory Tux_SysMem
  imports Tux_SysFileInv Tux_Align
begin

text \<open>
  The memory system calls (\<^verbatim>\<open>src/syscalls/sys_mem.c\<close>) and the mapping functions
  of a process they go through (\<^verbatim>\<open>procmapany\<close>, \<^verbatim>\<open>procmapat\<close>, \<^verbatim>\<open>procunmap\<close> of
  \<^verbatim>\<open>src/proc.c\<close>).
\<close>

section \<open>\<^verbatim>\<open>proc.c\<close>: mappings of a process\<close>

text \<open>
  The file a mapping is made from: \<^verbatim>\<open>NULL\<close> for a negative descriptor.  The
  result is the error code the two functions return, or the host file.
\<close>

definition procmapfile :: "ptr \<Rightarrow> int \<Rightarrow> (('x, 'z) tuxw_scheme, int + ptr) prog" where
  "procmapfile p fd =
     (if fd \<ge> 0 then
        bindM (fdget p fd) (\<lambda>f.
        if f = NULL then ret (Inl (- TUX_EBADF))
        else
          bindM (deref fdfiles f) (\<lambda>v.
          case ff_file v of None \<Rightarrow> ret (Inl (- TUX_EACCES))
          | Some fn \<Rightarrow> bindM (call_file fn (dev v)) (\<lambda>hf. ret (Inr hf))))
      else ret (Inr NULL))"

text \<open>The second component of the result is \<^verbatim>\<open>*o_mapstart\<close>, meaningful when the first is 0.\<close>

definition procmapany ::
  "('x, 'e) tuxenv_scheme \<Rightarrow> ptr \<Rightarrow> u64 \<Rightarrow> u32 \<Rightarrow> u32 \<Rightarrow> int \<Rightarrow> int \<Rightarrow> (('x, 'z) tuxw_scheme, int \<times> u64) prog" where
  "procmapany P p sz prot flags fd offset =
     bindM (procmapfile p fd) (\<lambda>r.
     case r of Inl e \<Rightarrow> ret (e, 0)
     | Inr hf \<Rightarrow>
         bindM (deref procs p) (\<lambda>pr.
         bindM (lfi_as_mapany P (p_as pr) sz prot flags hf offset) (\<lambda>addr.
         if addr = - 1 then ret (- TUX_EINVAL, 0) else ret (0, addr))))"

definition procmapat ::
  "('x, 'e) tuxenv_scheme \<Rightarrow> ptr \<Rightarrow> u64 \<Rightarrow> u64 \<Rightarrow> u32 \<Rightarrow> u32 \<Rightarrow> int \<Rightarrow> int \<Rightarrow> (('x, 'z) tuxw_scheme, int) prog" where
  "procmapat P p start sz prot flags fd offset =
     bindM (procmapfile p fd) (\<lambda>r.
     case r of Inl e \<Rightarrow> ret e
     | Inr hf \<Rightarrow>
         bindM (deref procs p) (\<lambda>pr.
         bindM (lfi_as_mapat P (p_as pr) start sz prot flags hf offset) (\<lambda>addr.
         if addr = - 1 then ret (- TUX_EINVAL) else ret 0)))"

definition procunmap :: "('x, 'e) tuxenv_scheme \<Rightarrow> ptr \<Rightarrow> u64 \<Rightarrow> u64 \<Rightarrow> (('x, 'z) tuxw_scheme, int) prog" where
  "procunmap P p start sz = bindM (deref procs p) (\<lambda>pr. lfi_as_munmap P (p_as pr) start sz)"

section \<open>\<^verbatim>\<open>sys_mem.c\<close>\<close>

definition brk_mapflags :: u32 where "brk_mapflags = LFI_MAP_PRIVATE OR LFI_MAP_ANONYMOUS"
definition brk_mapprot :: u32 where "brk_mapprot = LFI_PROT_READ OR LFI_PROT_WRITE"

text \<open>The new break before it is mapped: the requested one, kept between the two ends of the region.\<close>

definition brk_target :: "TuxProc \<Rightarrow> u64 \<Rightarrow> u64" where
  "brk_target pr addr =
     (let brkp = (if addr \<noteq> 0 then addr else brkbase pr + brksize pr);
          brkp = (if brkp < brkbase pr then brkbase pr else brkp)
      in if brkp \<ge> brkbase pr + TUX_BRKMAXSIZE then brkbase pr + TUX_BRKMAXSIZE else brkp)"

text \<open>The mapping of a growing region; 0 stands for a shrinking one, where nothing is mapped.\<close>

definition brk_map ::
  "('x, 'e) tuxenv_scheme \<Rightarrow> TuxProc \<Rightarrow> u64 \<Rightarrow> u64 \<Rightarrow> (('x, 'z) tuxw_scheme, u64) prog" where
  "brk_map P pr brkp newsize =
     (if brkp \<ge> brkbase pr + brksize pr then
        if brksize pr = 0 then
          lfi_as_mapat P (p_as pr) (brkbase pr) newsize brk_mapprot brk_mapflags NULL 0
        else
          bindM (deref tuxes (p_tux pr)) (\<lambda>t.
          let nxt = ceilp (brkbase pr + brksize pr) (opt_pagesize (t_opts t)) in
          lfi_as_mapat P (p_as pr) nxt (newsize - brksize pr) brk_mapprot brk_mapflags NULL 0)
      else ret 0)"

text \<open>The argument goes through \<^verbatim>\<open>procaddr\<close> when it is not 0, and \<^verbatim>\<open>procaddr\<close> is the identity.\<close>

definition sys_brk :: "('x, 'e) tuxenv_scheme \<Rightarrow> ptr \<Rightarrow> u64 \<Rightarrow> (('x, 'z) tuxw_scheme, u64) prog" where
  "sys_brk P p addr =
     bindM (deref procs p) (\<lambda>pr.
     bindM (procaddr p addr) (\<lambda>addr.
     let brkp = brk_target pr addr;
         newsize = brkp - brkbase pr
     in bindM (assertM (newsize < TUX_BRKMAXSIZE)) (\<lambda>_.
        if newsize = brksize pr then ret brkp
        else
          bindM (brk_map P pr brkp newsize) (\<lambda>map.
          if map = - 1 then ret (- 1)
          else
            bindM (set_proc p (\<lambda>pr. pr\<lparr>brksize := newsize\<rparr>)) (\<lambda>_.
            ret (brkbase pr + newsize))))))"

definition mmap_illegal_mask :: u32 where
  "mmap_illegal_mask = NOT LFI_MAP_ANONYMOUS AND NOT LFI_MAP_PRIVATE AND NOT LFI_MAP_NORESERVE AND
     NOT LFI_MAP_DENYWRITE AND NOT LFI_MAP_FIXED"

definition sys_mmap ::
  "('x, 'e) tuxenv_scheme \<Rightarrow> ptr \<Rightarrow> u64 \<Rightarrow> u64 \<Rightarrow> u32 \<Rightarrow> u32 \<Rightarrow> int \<Rightarrow> int \<Rightarrow> (('x, 'z) tuxw_scheme, u64) prog" where
  "sys_mmap P p addrup len prot flags fd off =
     (if len = 0 then ret (to_reg (- TUX_EINVAL))
      else
        bindM (deref procs p) (\<lambda>pr.
        bindM (deref tuxes (p_tux pr)) (\<lambda>t.
        let len = ceilp len (opt_pagesize (t_opts t)) in
        if flags AND mmap_illegal_mask \<noteq> 0 then ret (to_reg (- TUX_EINVAL))
        else if flags AND LFI_MAP_FIXED \<noteq> 0 then
          bindM (procaddr p (truncp addrup (opt_pagesize (t_opts t)))) (\<lambda>addrp.
          bindM (procmapat P p addrp len prot flags fd off) (\<lambda>r.
          if r < 0 then ret (to_reg r) else ret addrp))
        else
          bindM (procmapany P p len prot flags fd off) (\<lambda>(r, addrp).
          if r < 0 then ret (to_reg r) else ret addrp))))"

definition sys_mprotect :: "('x, 'e) tuxenv_scheme \<Rightarrow> ptr \<Rightarrow> u64 \<Rightarrow> u64 \<Rightarrow> u32 \<Rightarrow> (('x, 'z) tuxw_scheme, int) prog" where
  "sys_mprotect P p addrup len prot =
     bindM (procaddr p addrup) (\<lambda>addrp.
     bindM (deref procs p) (\<lambda>pr. lfi_as_mprotect P (p_as pr) addrp len prot))"

definition sys_munmap :: "('x, 'e) tuxenv_scheme \<Rightarrow> ptr \<Rightarrow> u64 \<Rightarrow> u64 \<Rightarrow> (('x, 'z) tuxw_scheme, int) prog" where
  "sys_munmap P p addrup len = bindM (procaddr p addrup) (\<lambda>addrp. procunmap P p addrp len)"

section \<open>The invariant of the file layer\<close>

lemma asmap_keeps:
  assumes "tux_inv_host R h w"
  shows "wp only_assert (asmap P a n prot fl h off) (\<lambda>_. tux_inv_host R h) (tux_inv_host R h) w"
  unfolding asmap_def by (rule wp_bindI [OF fdc.keeps_mmap [OF assms]]) (simp add: wp_rules)

lemma cbunmap_keeps:
  assumes "tux_inv_host R h w"
  shows "wp only_assert (cbunmap P r) (\<lambda>_. tux_inv_host R h) (tux_inv_host R h) w"
  using assms by (auto simp: cbunmap_def host_mmap_def tux_inv_host_def wp_rules)

lemma asmap_or_undo_keeps:
  assumes "tux_inv_host R h w"
  shows "wp only_assert (bindM (asmap P a n prot fl h off) (\<lambda>r.
     if r < 0 then bindM (kcall (mm_unmap P as a n)) (\<lambda>_. ret (- 1)) else ret a))
     (\<lambda>_. tux_inv R) (tux_inv R) w"
  by (rule wp_bindI [OF host_inv_drop [OF asmap_keeps [OF assms]]]) (simp add: wp_rules)

lemma mapat_keeps:
  assumes "tux_inv_host R h w" "as \<noteq> NULL" "as \<in> dom (aspaces w)"
  shows "wp only_assert (lfi_as_mapat P as a n prot fl h off) (\<lambda>_. tux_inv R) (tux_inv R) w"
proof -
  have "wp only_assert (bindM (forM rs (cbunmap P)) (\<lambda>_. if a' = - 1 then ret (- 1)
     else bindM (asmap P a' n prot fl h off) (\<lambda>r.
     if r < 0 then bindM (kcall (mm_unmap P as a' n)) (\<lambda>_. ret (- 1)) else ret a')))
     (\<lambda>_. tux_inv R) (tux_inv R) (w\<lparr>ext := x\<rparr>)" for rs a' x
  proof (rule wp_bindI [where R = "\<lambda>_. tux_inv_host R h"])
    show "wp only_assert (forM rs (cbunmap P)) (\<lambda>_. tux_inv_host R h) (tux_inv R) (w\<lparr>ext := x\<rparr>)"
      by (rule wp_forM [where I = "tux_inv_host R h"], rule wp_mono [OF cbunmap_keeps])
        (use fdc.I_ext [OF assms(1)] in \<open>auto simp: tux_inv_host_def\<close>)
  qed (auto simp: wp_ret tux_inv_host_def intro!: asmap_or_undo_keeps)
  note tail = this
  obtain y where "aspaces w as = Some y" using assms(3) by blast
  then show ?thesis
    using assms(2) by (simp add: lfi_as_mapat_def wp_bind [of _ "deref _ _"] wp_bind [of _ "assertM _"]
        wp_bind [of _ "kcall (mm_mapat_cb _ _ _ _ _ _ _ _)"] wp_deref wp_assert wp_kcall split_beta tail split del: if_split)
qed

lemma mapany_keeps:
  assumes "tux_inv_host R h w" "as \<noteq> NULL" "as \<in> dom (aspaces w)"
  shows "wp only_assert (lfi_as_mapany P as n prot fl h off) (\<lambda>_. tux_inv R) (tux_inv R) w"
  using assms(2,3) asmap_or_undo_keeps [OF fdc.I_ext [OF assms(1)]] assms(1)
  by (auto simp: lfi_as_mapany_def wp_bind [of _ "deref _ _"] wp_bind [of _ "kcall (mm_mapany _ _ _ _ _ _ _)"]
      wp_deref wp_kcall wp_ret tux_inv_host_def)

lemma munmap_keeps_as:
  assumes "tux_inv R w" "as \<noteq> NULL" "as \<in> dom (aspaces w)"
  shows "wp only_assert (lfi_as_munmap P as a n) (\<lambda>_. tux_inv R) (tux_inv R) w"
proof -
  have "wp only_assert (forM rs (cbunmap P)) (\<lambda>_. tux_inv R) (tux_inv R) (w\<lparr>ext := x\<rparr>)" for rs x
    by (rule wp_forM [where I = "tux_inv R"], rule host_inv_drop [OF cbunmap_keeps [where h = NULL]])
      (use assms(1) in \<open>auto simp: tux_inv_host_def\<close>)
  then show ?thesis
    using assms by (auto simp: lfi_as_munmap_def wp_rules)
qed

lemma tux_inv_as:
  assumes "tux_inv R w" "p \<in> R" "procs w p = Some pr"
  shows "p_as pr \<noteq> NULL" "p_as pr \<in> dom (aspaces w)"
  using assms by (auto simp: tux_inv_def proc_ready_def as_ready_def)

lemma tux_inv_proc_upd:
  assumes inv: "tux_inv R w" and pr: "procs w p = Some pr" "fdtable pr' = fdtable pr" "cwd pr' = cwd pr"
    and as: "p \<in> R \<Longrightarrow> p_tux pr' = p_tux pr \<and> p_as pr' = p_as pr"
  shows "tux_inv R (w\<lparr>procs := (procs w)(p \<mapsto> pr')\<rparr>)" (is "tux_inv R ?w")
proof -
  have e: "host_of ?w = host_of w" by (rule host_of_frame) simp_all
  have c: "cwds ?w = cwds w" using pr by (auto simp: cwds_def)
  have H: "cwd_hosts ?w = cwd_hosts w" by (simp add: cwd_hosts_def c)
  have rc: "refcount ?w = refcount w"
    using refcount_proc [of w p pr pr'] inv pr
    by (intro ext) (simp add: tux_inv_def fd_inv_def procs_ok_def proc_refs_def)
  have "fd_inv ?w"
    using inv pr objs_ok_frame [of ?w w "refcount w" "pinned w" "cwd_hosts w"]
    unfolding tux_inv_def fd_inv_def rc H pinned_frame [of ?w w, simplified] procs_ok_def e c
    by (auto simp: insert_absorb domI)
  moreover have "proc_ready ?w q" if "q \<in> R" for q
    using inv that pr as by (auto simp: tux_inv_def proc_ready_def as_ready_def)
  ultimately show ?thesis using inv by (simp add: tux_inv_def)
qed

lemma tux_inv_brk:
  "tux_inv R w \<Longrightarrow> procs w p = Some pr \<Longrightarrow> tux_inv R (w\<lparr>procs := (procs w)(p \<mapsto> pr\<lparr>brksize := n\<rparr>)\<rparr>)"
  by (rule tux_inv_proc_upd) simp_all

lemma procmapfile_spec:
  assumes "tux_inv R w" "p \<in> R"
  shows "wp only_assert (procmapfile p fd) (\<lambda>r w'. w' = w \<and> (\<forall>h. r = Inr h \<longrightarrow> tux_inv_host R h w) \<and>
     (\<forall>e. r = Inl e \<longrightarrow> e \<in> {- TUX_EBADF, - TUX_EACCES})) E w"
proof -
  have "wp only_assert (bindM (fdget p fd) (\<lambda>f.
        if f = NULL then ret (Inl (- TUX_EBADF))
        else bindM (deref fdfiles f) (\<lambda>v.
          case ff_file v of None \<Rightarrow> ret (Inl (- TUX_EACCES))
          | Some fn \<Rightarrow> bindM (call_file fn (dev v)) (\<lambda>hf. ret (Inr hf)))))
     (\<lambda>r w'. w' = w \<and> (\<forall>h. r = Inr h \<longrightarrow> tux_inv_host R h w) \<and>
       (\<forall>e. r = Inl e \<longrightarrow> e \<in> {- TUX_EBADF, - TUX_EACCES})) E w"
    by (rule wp_bindI [OF fdget_spec [OF assms]])
      (use assms(1) in \<open>auto simp: wp_rules call_file_live tux_inv_host_def split: option.split\<close>)
  then show ?thesis
    using assms(1) by (auto simp: procmapfile_def wp_ret tux_inv_host_def)
qed

lemma mmap_keeps:
  assumes "tux_inv R w" "p \<in> R"
  shows "wp only_assert (sys_mmap P p addr n prot fl fd off) (\<lambda>_. tux_inv R) (tux_inv R) w"
proof -
  obtain pr where pr: "p \<noteq> NULL" "procs w p = Some pr" using tux_inv_proc [OF assms] by blast
  note as = tux_inv_as [OF assms pr(2)]
  obtain t where t: "p_tux pr \<noteq> NULL" "tuxes w (p_tux pr) = Some t" using tux_inv_tux [OF assms pr(2)] by blast
  have any: "wp only_assert (procmapany P p k prot fl fd off) (\<lambda>_. tux_inv R) (tux_inv R) w" for k
    unfolding procmapany_def
    by (rule wp_bindI [OF procmapfile_spec [OF assms]])
      (auto simp: wp_ret assms wp_bind [of _ "deref _ _"] wp_deref pr split: sum.split
        intro!: wp_bindI [OF mapany_keeps [OF _ as]])
  have at: "wp only_assert (procmapat P p a k prot fl fd off) (\<lambda>_. tux_inv R) (tux_inv R) w" for a k
    unfolding procmapat_def
    by (rule wp_bindI [OF procmapfile_spec [OF assms]])
      (auto simp: wp_ret assms wp_bind [of _ "deref _ _"] wp_deref pr split: sum.split
        intro!: wp_bindI [OF mapat_keeps [OF _ as]])
  show ?thesis
    using assms(1) pr t
    by (auto simp: sys_mmap_def wp_bind [of _ "deref _ _"] wp_deref wp_ret Let_def
        intro!: wp_user(3) [OF assms] wp_bindI [OF any] wp_bindI [OF at] split: prod.split)
qed

lemma munmap_keeps:
  assumes "tux_inv R w" "p \<in> R"
  shows "wp only_assert (sys_munmap P p addr n) (\<lambda>_. tux_inv R) (tux_inv R) w"
proof -
  obtain pr where pr: "p \<noteq> NULL" "procs w p = Some pr" using tux_inv_proc [OF assms] by blast
  show ?thesis
    unfolding sys_munmap_def using pr munmap_keeps_as [OF assms(1) tux_inv_as [OF assms pr(2)]]
    by (intro wp_user(3) [OF assms]) (simp add: procunmap_def wp_bind wp_deref)
qed

lemma mprotect_keeps:
  assumes "tux_inv R w" "p \<in> R"
  shows "wp only_assert (sys_mprotect P p addr n prot) (\<lambda>_. tux_inv R) (tux_inv R) w"
proof -
  obtain pr where pr: "p \<noteq> NULL" "procs w p = Some pr" using tux_inv_proc [OF assms] by blast
  show ?thesis
    unfolding sys_mprotect_def using pr assms(1) tux_inv_as [OF assms pr(2)]
    by (intro wp_user(3) [OF assms])
      (auto simp: lfi_as_mprotect_def host_mprotect_def return_count_def return_tuxerr_def wp_rules)
qed

lemma brk_keeps:
  assumes "tux_inv R w" "p \<in> R"
  shows "wp only_assert (sys_brk P p addr) (\<lambda>_. tux_inv R) (tux_inv R) w"
proof -
  obtain pr where pr: "p \<noteq> NULL" "procs w p = Some pr" using tux_inv_proc [OF assms] by blast
  note as = tux_inv_as [OF assms pr(2)]
  obtain t where t: "p_tux pr \<noteq> NULL" "tuxes w (p_tux pr) = Some t" using tux_inv_tux [OF assms pr(2)] by blast
  have nul: "tux_inv_host R NULL w" using assms(1) by (simp add: tux_inv_host_def)
  have fin: "wp only_assert (if m = - 1 then ret (- 1)
          else bindM (set_proc p (\<lambda>pr. pr\<lparr>brksize := k\<rparr>)) (\<lambda>_. ret r)) (\<lambda>_. tux_inv R) (tux_inv R) w'"
    if "tux_inv R w'" for m k and r :: u64 and w'
    using tux_inv_proc [OF that assms(2)] tux_inv_brk [OF that] that
    by (auto simp: set_proc_def wp_rules)
  have map: "wp only_assert (brk_map P pr a k) (\<lambda>_. tux_inv R) (tux_inv R) w" for a k
    using mapat_keeps [OF nul as, of P] t assms(1)
    by (auto simp: brk_map_def wp_bind wp_deref wp_ret Let_def)
  show ?thesis
    unfolding sys_brk_def Let_def using assms(1) pr
    by (auto simp: wp_bind [of _ "deref _ _"] wp_bind [of _ "assertM _"] wp_deref wp_assert wp_ret
        intro!: wp_user(3) [OF assms] wp_bindI [OF map fin])
qed

lemma wp_procaddr:
  "p \<noteq> NULL \<Longrightarrow> procs w p = Some pr \<Longrightarrow> wp F (bindM (procaddr p x) f) Q E w = wp F (f x) Q E w"
  by (simp add: procaddr_def lfi_as_validptr_def wp_rules)

section \<open>The program break\<close>

lemma brk_run:
  assumes "p \<noteq> NULL" "procs w p = Some pr"
  shows "sys_brk P p addr w =
     (let brkp = brk_target pr addr; newsize = brkp - brkbase pr in
      if \<not> newsize < TUX_BRKMAXSIZE then Fault AssertFail
      else if newsize = brksize pr then Ret brkp w
      else bindM (brk_map P pr brkp newsize) (\<lambda>map.
          if map = - 1 then ret (- 1)
          else bindM (set_proc p (\<lambda>pr. pr\<lparr>brksize := newsize\<rparr>)) (\<lambda>_. ret (brkbase pr + newsize))) w)"
  using assms by (simp add: sys_brk_def procaddr_def lfi_as_validptr_def run_simps Let_def)

lemma brk_target_in:
  assumes "brkbase pr \<le> addr" "addr < brkbase pr + TUX_BRKMAXSIZE" "addr \<noteq> 0"
  shows "brk_target pr addr = addr"
  using assms by (auto simp: brk_target_def Let_def)

lemma confined_procs: "confined lo hi w w' \<Longrightarrow> procs w' = procs w"
  by (cases w; cases w') (simp add: confined_def)

lemma confined_mem: "confined lo hi w w' \<Longrightarrow> same_outside lo hi (mem w) (mem w')"
  by (simp add: confined_def)

text \<open>What the memory calls rely on: the contracts of \<^verbatim>\<open>mmap\<close> and libmmap, and a live process.\<close>

definition mem_ready :: "('x, 'e) tuxenv_scheme \<Rightarrow> ptr \<Rightarrow> TuxProc \<Rightarrow> LFIAddrSpace \<Rightarrow> Tux \<Rightarrow> ('x, 'z) tuxw_scheme \<Rightarrow> bool" where
  "mem_ready P p pr a t w \<longleftrightarrow> mmap_fixed P \<and> mm_within P (p_as pr) (minaddr a) (maxaddr a) \<and>
     p \<noteq> NULL \<and> procs w p = Some pr \<and> p_as pr \<noteq> NULL \<and> aspaces w (p_as pr) = Some a \<and>
     p_tux pr \<noteq> NULL \<and> tuxes w (p_tux pr) = Some t \<and> is_pow2 (opt_pagesize (t_opts t))"

text \<open>The region reserved for the break lies in the sandbox, with a page to spare before the end of memory.\<close>

definition brk_region :: "TuxProc \<Rightarrow> LFIAddrSpace \<Rightarrow> Tux \<Rightarrow> bool" where
  "brk_region pr a t \<longleftrightarrow> minaddr a \<le> brkbase pr \<and> brksize pr < TUX_BRKMAXSIZE \<and>
     unat (brkbase pr) + unat (TUX_BRKMAXSIZE :: u64) + unat (opt_pagesize (t_opts t)) + unat (TUX_BRKMAXSIZE :: u64) < 2 ^ 64"

lemma brk_map_confined:
  assumes r: "mem_ready P p pr a t w" "brk_region pr a t" and n: "n < TUX_BRKMAXSIZE" "brksize pr \<le> n"
  shows "wp only_assert (brk_map P pr brkp n) (\<lambda>_. confined (minaddr a) (maxaddr a) w) E w"
proof -
  let ?pg = "opt_pagesize (t_opts t)" and ?e = "brkbase pr + brksize pr"
  have nn: "unat n < 536870912" "unat (brksize pr) < 536870912"
    using n r(2) by (simp_all add: brk_region_def word_less_nat_alt)
  have big: "unat (brkbase pr) + 536870912 + unat ?pg + 536870912 < 2 ^ 64"
    using r(2) by (simp add: brk_region_def)
  have e: "unat ?e = unat (brkbase pr) + unat (brksize pr)"
    using nn big by (intro unat_add_u64) linarith
  have pg: "is_pow2 ?pg" using r(1) by (simp add: mem_ready_def)
  have up: "?e \<le> ceilp ?e ?pg" "unat (ceilp ?e ?pg) < unat ?e + unat ?pg"
    using page.up_ge [OF pg, of ?e] page.up_close [OF pg, of ?e] e nn big by simp_all
  have m0: "wp only_assert (lfi_as_mapat P (p_as pr) x k prot fl NULL off)
      (\<lambda>r w'. confined (minaddr a) (maxaddr a) w w' \<and> r \<in> {x, - 1}) E w" if "unat x + unat k < 2 ^ 64" for x k prot fl off
    using r(1) that by (intro mapat_confined) (simp_all add: mem_ready_def)
  have m: "wp only_assert (lfi_as_mapat P (p_as pr) x k prot fl NULL off)
      (\<lambda>_. confined (minaddr a) (maxaddr a) w) E w" if "unat x + unat k < 2 ^ 64" for x k prot fl off
    by (rule wp_mono [OF m0 [OF that]]) auto
  have "unat (n - brksize pr) \<le> unat n" using n(2) by (simp add: unat_sub)
  then show ?thesis
    using r(1) m [of "brkbase pr" n] m [of "ceilp ?e ?pg" "n - brksize pr"] nn big up(2) e
    by (auto simp: brk_map_def mem_ready_def wp_bind wp_deref wp_ret Let_def)
qed


text \<open>C23. The other requests to \<^verbatim>\<open>brk\<close>, on a region that does not wrap: 0 asks for the
  current break and changes nothing; an address inside the current region moves the
  break there without unmapping; an address below the region moves it to the base;
  an address past the end of the region, which the code first clamps to the end,
  then fails the assertion on the new size and ends the host process.\<close>

theorem brk_other_requests:
  assumes p: "p \<noteq> NULL" "procs w p = Some pr" and sz: "brksize pr < TUX_BRKMAXSIZE" "brksize pr \<noteq> 0"
    and big: "unat (brkbase pr) + unat (TUX_BRKMAXSIZE :: u64) < 2 ^ 64"
  shows "(brkbase pr \<noteq> 0 \<longrightarrow> sys_brk P p 0 w = Ret (brkbase pr + brksize pr) w) \<and>
     (brkbase pr < addr \<longrightarrow> addr < brkbase pr + brksize pr \<longrightarrow>
       sys_brk P p addr w = Ret addr (w\<lparr>procs := (procs w)(p \<mapsto> pr\<lparr>brksize := addr - brkbase pr\<rparr>)\<rparr>)) \<and>
     (addr \<noteq> 0 \<longrightarrow> addr < brkbase pr \<longrightarrow>
       sys_brk P p addr w = Ret (brkbase pr) (w\<lparr>procs := (procs w)(p \<mapsto> pr\<lparr>brksize := 0\<rparr>)\<rparr>)) \<and>
     (brkbase pr + TUX_BRKMAXSIZE \<le> addr \<longrightarrow> sys_brk P p addr w = Fault AssertFail)"
proof -
  have s: "unat (brksize pr) < 536870912" "0 < unat (brksize pr)" "unat (brkbase pr) + 536870912 < 2 ^ 64"
    using sz big by (simp_all add: word_less_nat_alt unat_gt_0)
  then have e: "unat (brkbase pr + brksize pr) = unat (brkbase pr) + unat (brksize pr)"
    "unat (brkbase pr + 536870912) = unat (brkbase pr) + 536870912"
    by (auto intro!: unat_add_u64 [THEN trans])
  note w = word_less_nat_alt word_le_nat_alt
  have 1: "brk_target pr 0 = brkbase pr + brksize pr"
    using s e by (auto simp: brk_target_def Let_def w)
  have 2: "brk_target pr addr = addr \<and> addr - brkbase pr < TUX_BRKMAXSIZE \<and> addr - brkbase pr \<noteq> brksize pr \<and>
       \<not> brkbase pr + brksize pr \<le> addr" if "brkbase pr < addr" "addr < brkbase pr + brksize pr"
    using that s e unat_sub [of "brkbase pr" addr] by (auto simp: brk_target_def Let_def w unat_gt_0)
  have 3: "brk_target pr addr = brkbase pr \<and> \<not> brkbase pr + brksize pr \<le> brkbase pr" if "addr \<noteq> 0" "addr < brkbase pr"
    using that s e by (auto simp: brk_target_def Let_def w)
  have 4: "brk_target pr addr = brkbase pr + TUX_BRKMAXSIZE" if "brkbase pr + TUX_BRKMAXSIZE \<le> addr"
    using that s e by (auto simp: brk_target_def Let_def w)
  show ?thesis
    using p sz 1 2 3 4 by (auto simp: brk_run Let_def brk_map_def set_proc_def run_simps)
qed

section \<open>Mappings\<close>

lemma mmap_illegal: "mmap_illegal_mask = NOT 0x4832"
  by (simp add: mmap_illegal_mask_def flip: bit.de_Morgan_disj)

text \<open>\<^verbatim>\<open>mmap\<close> refuses, without any effect: a length of 0, any flag other than anonymous,
  private, fixed, denywrite and noreserve (so a shared mapping too), and a
  descriptor that is not in use.\<close>

lemma mmap_refusals:
  assumes "p \<noteq> NULL" "procs w p = Some pr" "p_tux pr \<noteq> NULL" "tuxes w (p_tux pr) = Some t"
  shows "sys_mmap P p addr 0 prot flags fd off w = Ret (to_reg (- TUX_EINVAL)) w \<and>
    (flags AND NOT (LFI_MAP_ANONYMOUS OR LFI_MAP_PRIVATE OR LFI_MAP_FIXED OR LFI_MAP_DENYWRITE OR LFI_MAP_NORESERVE) \<noteq> 0 \<longrightarrow>
       sys_mmap P p addr len prot flags fd off w = Ret (to_reg (- TUX_EINVAL)) w) \<and>
    (len \<noteq> 0 \<longrightarrow> flags AND NOT (LFI_MAP_ANONYMOUS OR LFI_MAP_PRIVATE OR LFI_MAP_FIXED OR LFI_MAP_DENYWRITE OR LFI_MAP_NORESERVE) = 0 \<longrightarrow>
     0 \<le> fd \<longrightarrow> \<not> fdhas_x (ft_files (fdtable pr)) fd \<longrightarrow>
       sys_mmap P p addr len prot flags fd off w = Ret (to_reg (- TUX_EBADF)) w)"
  using assms
  by (auto simp: sys_mmap_def mmap_illegal procmapat_def procmapany_def procmapfile_def fdget_def
      procaddr_def lfi_as_validptr_def run_simps Let_def)

text \<open>The page range of a request that does not reach the end of memory.\<close>

lemma mmap_fixed_range:
  assumes "is_pow2 pg" "unat addr + unat len + 2 * unat pg < 2 ^ 64"
  shows "unat (truncp addr pg) + unat (ceilp len pg) < 2 ^ 64"
proof -
  have "unat (truncp addr pg) \<le> unat addr" using page.down_le [OF assms(1)] by (simp add: word_le_nat_alt)
  moreover have "unat (ceilp len pg) < unat len + unat pg" using page.up_close [OF assms(1)] assms(2) by simp
  ultimately show ?thesis using assms(2) by linarith
qed

lemma mapat_file_ok: "tux_inv_host R h w \<Longrightarrow> file_ok w h"
  by (auto simp: tux_inv_host_def file_ok_def)

lemma to_reg_small: "e \<in> {- TUX_EBADF, - TUX_EACCES, - TUX_EINVAL} \<Longrightarrow> to_reg e \<ge> - 4095"
  by (auto simp: to_reg_def word_le_nat_alt)

abbreviation (input) mmap_errors :: "int set" where
  "mmap_errors \<equiv> {- TUX_EBADF, - TUX_EACCES, - TUX_EINVAL}"

lemma procmapat_confined:
  fixes w :: "('x, 'z) tuxw_scheme"
  assumes r: "mem_ready P p pr a t w" and inv: "tux_inv R w" "p \<in> R" and wrap: "unat start + unat n < 2 ^ 64"
  shows "wp only_assert (procmapat P p start n prot flags fd off)
      (\<lambda>e w'. confined (minaddr a) (maxaddr a) w w' \<and> (e < 0 \<longrightarrow> e \<in> mmap_errors)) (\<lambda>_. False) w"
  unfolding procmapat_def
proof (rule wp_bindI [OF procmapfile_spec [OF inv]], elim conjE)
  fix s and w1 :: "('x, 'z) tuxw_scheme"
  assume w1: "w1 = w" and s: "\<forall>h. s = Inr h \<longrightarrow> tux_inv_host R h w" "\<forall>e. s = Inl e \<longrightarrow> e \<in> {- TUX_EBADF, - TUX_EACCES}"
  have "wp only_assert (bindM (lfi_as_mapat P (p_as pr) start n prot flags h off) (\<lambda>q.
       if q = - 1 then ret (- TUX_EINVAL) else ret 0))
     (\<lambda>e w'. confined (minaddr a) (maxaddr a) w w' \<and> (e < 0 \<longrightarrow> e \<in> mmap_errors)) (\<lambda>_. False) w" if "s = Inr h" for h
    using r s(1) that wrap
    by (intro wp_bindI [OF mapat_confined [of P "p_as pr" a w h start n]])
      (auto simp: wp_rules mapat_file_ok mem_ready_def)
  then show "wp only_assert (case s of Inl e \<Rightarrow> ret e | Inr h \<Rightarrow> bindM (deref procs p) (\<lambda>pr.
       bindM (lfi_as_mapat P (p_as pr) start n prot flags h off) (\<lambda>q.
       if q = - 1 then ret (- TUX_EINVAL) else ret 0)))
     (\<lambda>e w'. confined (minaddr a) (maxaddr a) w w' \<and> (e < 0 \<longrightarrow> e \<in> mmap_errors)) (\<lambda>_. False) w1"
    using w1 s(2) r by (auto simp: wp_ret wp_bind [of _ "deref _ _"] wp_deref mem_ready_def split: sum.split)
qed

lemma procmapany_confined:
  fixes w :: "('x, 'z) tuxw_scheme"
  assumes r: "mem_ready P p pr a t w" and inv: "tux_inv R w" "p \<in> R"
  shows "wp only_assert (procmapany P p n prot flags fd off)
      (\<lambda>e w'. confined (minaddr a) (maxaddr a) w w' \<and> (fst e < 0 \<longrightarrow> fst e \<in> mmap_errors) \<and>
         (0 \<le> fst e \<longrightarrow> snd e = 0 \<or> minaddr a \<le> snd e \<and> unat (snd e) + unat n \<le> unat (maxaddr a))) (\<lambda>_. False) w"
    (is "wp _ _ ?Q _ _")
  unfolding procmapany_def
proof (rule wp_bindI [OF procmapfile_spec [OF inv]], elim conjE)
  fix s and w1 :: "('x, 'z) tuxw_scheme"
  assume w1: "w1 = w" and s: "\<forall>h. s = Inr h \<longrightarrow> tux_inv_host R h w" "\<forall>e. s = Inl e \<longrightarrow> e \<in> {- TUX_EBADF, - TUX_EACCES}"
  have "wp only_assert (bindM (lfi_as_mapany P (p_as pr) n prot flags h off) (\<lambda>q.
       if q = - 1 then ret (- TUX_EINVAL, 0) else ret (0, q))) ?Q (\<lambda>_. False) w" if "s = Inr h" for h
    using r s(1) that
    by (intro wp_bindI [OF mapany_confined [of P "p_as pr" a w h n]])
      (auto simp: wp_rules mapat_file_ok mem_ready_def)
  then show "wp only_assert (case s of Inl e \<Rightarrow> ret (e, 0) | Inr h \<Rightarrow> bindM (deref procs p) (\<lambda>pr.
       bindM (lfi_as_mapany P (p_as pr) n prot flags h off) (\<lambda>q.
       if q = - 1 then ret (- TUX_EINVAL, 0) else ret (0, q)))) ?Q (\<lambda>_. False) w1"
    using w1 s(2) r by (auto simp: wp_ret wp_bind [of _ "deref _ _"] wp_deref mem_ready_def split: sum.split)
qed


section \<open>Witnesses\<close>

lemma demo_mem_ready: "mem_ready demo_env 14 demo_proc demo_as demo_tux demo_world"
  by (auto simp: mem_ready_def mmap_fixed_def mm_within_def subranges_def demo_env_defs demo_proc_def
      demo_as_def demo_tux_def Let_def word_le_nat_alt word_less_nat_alt)


theorem brk_other_requests_witness:
  "sys_brk demo_env 14 0x110001000 demo_world =
     Ret 0x110001000 (demo_world\<lparr>procs := (procs demo_world)(14 \<mapsto> demo_proc\<lparr>brksize := 0x1000\<rparr>)\<rparr>)"
  using brk_other_requests [of 14 demo_world demo_proc demo_env "0x110001000"]
  by (simp add: demo_proc_def)

lemma mmap_refusals_example:
  "sys_mmap demo_env 14 0 4096 3 LFI_MAP_SHARED (- 1) 0 demo_world = Ret (to_reg (- TUX_EINVAL)) demo_world"
  using mmap_refusals [of 14 demo_world demo_proc demo_tux demo_env 0 3 LFI_MAP_SHARED "- 1" 0 4096]
  by (simp add: demo_proc_def)


end
