(* ===== verification/Tux_SysThread.thy ===== *)
theory Tux_SysThread
  imports Tux_SysMem
begin

text \<open>
  Threads: creation (\<^verbatim>\<open>nexttid\<close>, \<^verbatim>\<open>procnewthread\<close> of \<^verbatim>\<open>src/proc.c\<close>), the thread
  system calls (\<^verbatim>\<open>src/syscalls/sys_thread.c\<close>) and exit
  (\<^verbatim>\<open>src/syscalls/sys_proc.c\<close>), in the build with \<^verbatim>\<open>CONFIG_THREADS\<close>.  The body of a
  new host thread, which enters the sandbox, is \<open>lfi_tux_proc_run_enter\<close>.
\<close>

section \<open>Constants\<close>

abbreviation (input) TUX_FUTEX_WAIT :: u32 where "TUX_FUTEX_WAIT \<equiv> 0"
abbreviation (input) TUX_FUTEX_WAKE :: u32 where "TUX_FUTEX_WAKE \<equiv> 1"
abbreviation (input) TUX_FUTEX_REQUEUE :: u32 where "TUX_FUTEX_REQUEUE \<equiv> 3"
abbreviation (input) TUX_FUTEX_PRIVATE_FLAG :: u32 where "TUX_FUTEX_PRIVATE_FLAG \<equiv> 128"

abbreviation (input) TUX_CLONE_VM :: u32 where "TUX_CLONE_VM \<equiv> 0x100"
abbreviation (input) TUX_CLONE_FS :: u32 where "TUX_CLONE_FS \<equiv> 0x200"
abbreviation (input) TUX_CLONE_FILES :: u32 where "TUX_CLONE_FILES \<equiv> 0x400"
abbreviation (input) TUX_CLONE_SIGHAND :: u32 where "TUX_CLONE_SIGHAND \<equiv> 0x800"
abbreviation (input) TUX_CLONE_VFORK :: u32 where "TUX_CLONE_VFORK \<equiv> 0x4000"
abbreviation (input) TUX_CLONE_THREAD :: u32 where "TUX_CLONE_THREAD \<equiv> 0x10000"
abbreviation (input) TUX_CLONE_SYSVSEM :: u32 where "TUX_CLONE_SYSVSEM \<equiv> 0x40000"
abbreviation (input) TUX_CLONE_SETTLS :: u32 where "TUX_CLONE_SETTLS \<equiv> 0x80000"
abbreviation (input) TUX_CLONE_PARENT_SETTID :: u32 where "TUX_CLONE_PARENT_SETTID \<equiv> 0x100000"
abbreviation (input) TUX_CLONE_CHILD_CLEARTID :: u32 where "TUX_CLONE_CHILD_CLEARTID \<equiv> 0x200000"
abbreviation (input) TUX_CLONE_DETACHED :: u32 where "TUX_CLONE_DETACHED \<equiv> 0x400000"
abbreviation (input) TUX_CLONE_CHILD_SETTID :: u32 where "TUX_CLONE_CHILD_SETTID \<equiv> 0x1000000"
abbreviation (input) TUX_CLONE_IO :: u32 where "TUX_CLONE_IO \<equiv> 0x80000000"
abbreviation (input) TUX_SIGCHLD :: u32 where "TUX_SIGCHLD \<equiv> 0x11"

section \<open>\<^verbatim>\<open>proc.c\<close>: threads\<close>

definition nexttid :: "(('x, 'z) tuxw_scheme, int) prog" where
  "nexttid =
     bindM (gets next_tid) (\<lambda>i.
     bindM (modifyM (\<lambda>w. w\<lparr>next_tid := signed_take_bit 31 (i + 1)\<rparr>)) (\<lambda>_. ret i))"

definition procnewthread :: "('x, 'e) tuxenv_scheme \<Rightarrow> ptr \<Rightarrow> (('x, 'z) tuxw_scheme, ptr) prog" where
  "procnewthread P p =
     bindM (malloc P) (\<lambda>newp.
     if newp = NULL then ret NULL
     else
       bindM (modifyM (\<lambda>w. w\<lparr>threads := (threads w)(newp \<mapsto>
           \<lparr>p_ctx = NULL, stack = 0, ctid = 0, tid = 0, proc = NULL\<rparr>)\<rparr>)) (\<lambda>_.
       bindM (deref threads p) (\<lambda>th.
       bindM (deref procs (proc th)) (\<lambda>pr.
       bindM (lfi_ctx_new P (p_as pr) newp False) (\<lambda>ctx.
       if ctx = NULL then
         bindM (modifyM (\<lambda>w. w\<lparr>threads := (threads w)(newp := None)\<rparr>)) (\<lambda>_. ret NULL)
       else
         bindM (set_thread newp (\<lambda>n. n\<lparr>p_ctx := ctx, proc := proc th\<rparr>)) (\<lambda>_.
         bindM nexttid (\<lambda>i.
         bindM (set_thread newp (\<lambda>n. n\<lparr>tid := i\<rparr>)) (\<lambda>_.
         bindM (lfi_ctx_regs (p_ctx th)) (\<lambda>r.
         bindM (set_ctx_regs ctx r) (\<lambda>_. ret newp))))))))))"

text \<open>\<^verbatim>\<open>lfi_tux_proc_run\<close> up to the entry of the sandbox; \<^verbatim>\<open>threadspawn\<close> is a call of it.\<close>

definition lfi_tux_proc_run_enter :: "ptr \<Rightarrow> (('x, 'z) tuxw_scheme, unit) prog" where
  "lfi_tux_proc_run_enter p = bindM (deref threads p) (\<lambda>th. bindM (deref procs (proc th)) (\<lambda>pr. lfi_ctx_run_enter (p_ctx th)))"

section \<open>Futexes\<close>

definition futexwait :: "('x, 'e) tuxenv_scheme \<Rightarrow> ptr \<Rightarrow> u64 \<Rightarrow> u32 \<Rightarrow> u32 \<Rightarrow> u64 \<Rightarrow> (('x, 'z) tuxw_scheme, int) prog" where
  "futexwait P p uaddr op val timeoutp =
     (if timeoutp = 0 then host_futexwait P uaddr op val 0
      else
        bindM (deref threads p) (\<lambda>th.
        bindM (procbufalign (proc th) timeoutp 16 8) (\<lambda>timeout.
        if timeout = 0 then ret (- TUX_EFAULT)
        else host_futexwait P uaddr op val timeout)))"

definition futexwake :: "('x, 'e) tuxenv_scheme \<Rightarrow> u64 \<Rightarrow> u32 \<Rightarrow> u32 \<Rightarrow> (('x, 'z) tuxw_scheme, int) prog" where
  "futexwake P uaddr op val = host_futexwake P uaddr op val"

definition futexrequeue :: "('x, 'e) tuxenv_scheme \<Rightarrow> u64 \<Rightarrow> u32 \<Rightarrow> u32 \<Rightarrow> (('x, 'z) tuxw_scheme, int) prog" where
  "futexrequeue P uaddr op val = host_futexrequeue P uaddr op val"

definition sys_futex ::
  "('x, 'e) tuxenv_scheme \<Rightarrow> ptr \<Rightarrow> u64 \<Rightarrow> u32 \<Rightarrow> u32 \<Rightarrow> u64 \<Rightarrow> u64 \<Rightarrow> u32 \<Rightarrow> (('x, 'z) tuxw_scheme, int) prog" where
  "sys_futex P p uaddrp op val timeoutp uaddr2p val3 =
     (if uaddrp AND 3 \<noteq> 0 then ret (- TUX_EFAULT)
      else
        bindM (deref threads p) (\<lambda>th.
        bindM (procbufalign (proc th) uaddrp 4 4) (\<lambda>uaddr.
        if uaddr = 0 then ret (- TUX_EFAULT)
        else
          let cmd = op AND NOT TUX_FUTEX_PRIVATE_FLAG in
          if cmd = TUX_FUTEX_WAIT then futexwait P p uaddr op val timeoutp
          else if cmd = TUX_FUTEX_WAKE then futexwake P uaddr op val
          else if cmd = TUX_FUTEX_REQUEUE then futexrequeue P uaddr op val
          else ret (- TUX_EINVAL))))"

section \<open>Clone\<close>

text \<open>Here the constants are converted to the type of \<^verbatim>\<open>flags\<close> before they are complemented.\<close>

definition isfork :: "u64 \<Rightarrow> bool" where
  "isfork flags =
     (let allowed = (ucast (TUX_CLONE_CHILD_SETTID OR TUX_CLONE_CHILD_CLEARTID) :: u64)
      in flags AND NOT allowed = ucast TUX_SIGCHLD \<or>
         flags AND NOT allowed = ucast (TUX_CLONE_VM OR TUX_CLONE_VFORK OR TUX_SIGCHLD))"

definition clone_allowed :: u32 where
  "clone_allowed = TUX_CLONE_THREAD OR TUX_CLONE_VM OR TUX_CLONE_FS OR TUX_CLONE_FILES OR
     TUX_CLONE_SIGHAND OR TUX_CLONE_SETTLS OR TUX_CLONE_PARENT_SETTID OR
     TUX_CLONE_CHILD_CLEARTID OR TUX_CLONE_CHILD_SETTID OR TUX_CLONE_SYSVSEM"

definition clone_required :: u32 where
  "clone_required = TUX_CLONE_THREAD OR TUX_CLONE_VM OR TUX_CLONE_FS OR TUX_CLONE_FILES OR TUX_CLONE_SIGHAND"

definition clone_ignored :: u32 where
  "clone_ignored = TUX_CLONE_DETACHED OR TUX_CLONE_IO"

text \<open>
  The flags \<^verbatim>\<open>spawn\<close> works with, or the error it returns.  \<^verbatim>\<open>~ignored\<close> and
  \<^verbatim>\<open>~allowed\<close> are 32-bit values, extended with zeros.
\<close>

definition spawn_flags :: "u64 \<Rightarrow> int + u64" where
  "spawn_flags flags =
     (if flags AND 0xff \<noteq> 0 \<and> flags AND 0xff \<noteq> ucast TUX_SIGCHLD then Inl (- TUX_EINVAL)
      else
        let flags = flags AND NOT 0xff;
            flags = flags AND ucast (NOT clone_ignored)
        in if flags AND ucast (NOT clone_allowed) \<noteq> 0 then Inl (- TUX_EINVAL)
           else if flags AND ucast clone_required \<noteq> ucast clone_required then Inl (- TUX_EINVAL)
           else Inr flags)"

text \<open>An atomic store of an \<^verbatim>\<open>int\<close>.\<close>

definition store_int :: "u64 \<Rightarrow> int \<Rightarrow> (('x, 'z) tuxw_scheme, unit) prog" where
  "store_int a v = write_mem a (le_bytes 4 (word_of_int v))"

text \<open>
  \<^verbatim>\<open>spawn\<close> after the new thread \<open>p2\<close> is made; \<open>q\<close> is the process, \<open>ctidu\<close> and
  \<open>ptidu\<close> are the host addresses of the two thread identifiers.
\<close>

definition spawn_start ::
  "('x, 'e) tuxenv_scheme \<Rightarrow> ptr \<Rightarrow> ptr \<Rightarrow> u64 \<Rightarrow> u64 \<Rightarrow> u64 \<Rightarrow> u64 \<Rightarrow> u64 \<Rightarrow> u64 \<Rightarrow> (('x, 'z) tuxw_scheme, int) prog" where
  "spawn_start P q p2 flags stk ctidp ctidu ptidu tls =
     bindM (deref threads p2) (\<lambda>th2.
     bindM (if flags AND ucast TUX_CLONE_SETTLS \<noteq> 0 then lfi_ctx_tpset (p_ctx th2) tls else ret ()) (\<lambda>_.
     bindM (if flags AND ucast TUX_CLONE_CHILD_CLEARTID \<noteq> 0
            then set_thread p2 (\<lambda>n. n\<lparr>ctid := ctidp\<rparr>) else ret ()) (\<lambda>_.
     bindM (if flags AND ucast TUX_CLONE_CHILD_SETTID \<noteq> 0
            then store_int ctidu (tid th2) else ret ()) (\<lambda>_.
     bindM (lfi_ctx_regs (p_ctx th2)) (\<lambda>r.
     bindM (procaddr q stk) (\<lambda>sp.
     bindM (set_ctx_regs (p_ctx th2) (r(regs_return (target P) := 0, regs_sp (target P) := sp))) (\<lambda>_.
     bindM (kcall (k_pthread_create P p2)) (\<lambda>err.
     if err \<noteq> 0 then raise AssertFail
     else
       bindM (if flags AND ucast TUX_CLONE_PARENT_SETTID \<noteq> 0
              then store_int ptidu (tid th2) else ret ()) (\<lambda>_.
       ret (tid th2))))))))))"

definition spawn ::
  "('x, 'e) tuxenv_scheme \<Rightarrow> ptr \<Rightarrow> u64 \<Rightarrow> u64 \<Rightarrow> u64 \<Rightarrow> u64 \<Rightarrow> u64 \<Rightarrow> u64 \<Rightarrow> (('x, 'z) tuxw_scheme, int) prog" where
  "spawn P p flags stk ptidp ctidp tls func =
     (case spawn_flags flags of Inl e \<Rightarrow> ret e
      | Inr flags \<Rightarrow>
          bindM (deref threads p) (\<lambda>th.
          bindM (procaddr (proc th) ctidp) (\<lambda>ctidu.
          bindM (procaddr (proc th) ptidp) (\<lambda>ptidu.
          bindM (procnewthread P p) (\<lambda>p2.
          if p2 = NULL then ret (- TUX_EAGAIN)
          else spawn_start P (proc th) p2 flags stk ctidp ctidu ptidu tls)))))"

definition sys_clone ::
  "('x, 'e) tuxenv_scheme \<Rightarrow> ptr \<Rightarrow> u64 \<Rightarrow> u64 \<Rightarrow> u64 \<Rightarrow> u64 \<Rightarrow> u64 \<Rightarrow> u64 \<Rightarrow> (('x, 'z) tuxw_scheme, int) prog" where
  "sys_clone P p flags stk ptid ctida tls func =
     (if isfork flags then raise AssertFail else spawn P p flags stk ptid ctida tls func)"

section \<open>Scheduling\<close>

text \<open>The mask: \<^verbatim>\<open>mask[i / 8] |= 1 << (i % 8)\<close> for every processor.\<close>

definition set_cpu :: "nat \<Rightarrow> bytes \<Rightarrow> bytes" where
  "set_cpu i mk = mk[i div 8 := (mk ! (i div 8)) OR push_bit (i mod 8) 1]"

fun cpu_mask_loop :: "nat \<Rightarrow> nat \<Rightarrow> bytes \<Rightarrow> bytes" where
  "cpu_mask_loop i 0 mk = mk"
| "cpu_mask_loop i (Suc n) mk = cpu_mask_loop (Suc i) n (set_cpu i mk)"

definition sys_sched_getaffinity ::
  "('x, 'e) tuxenv_scheme \<Rightarrow> ptr \<Rightarrow> int \<Rightarrow> u64 \<Rightarrow> u64 \<Rightarrow> (('x, 'z) tuxw_scheme, int) prog" where
  "sys_sched_getaffinity P p pid cpusetsize maskaddr =
     bindM (host_cpucount P) (\<lambda>cnt.
     let rc = (ucast (ceilp (ucast cnt) 64 div 8) :: u32) in
     if cpusetsize < ucast rc then ret (- TUX_EINVAL)
     else
       let cnt = MIN_u cnt (rc * 8) in
       bindM (malloc P) (\<lambda>mk.
       if mk = NULL then ret (- TUX_ENOMEM)
       else
         bindM (procaddr p maskaddr) (\<lambda>dst.
         bindM (write_mem dst (cpu_mask_loop 0 (unat cnt) (replicate (unat rc) 0))) (\<lambda>_.
         ret (sint rc)))))"

definition sys_sched_setaffinity :: "ptr \<Rightarrow> int \<Rightarrow> u64 \<Rightarrow> u64 \<Rightarrow> (('x, 'z) tuxw_scheme, int) prog" where
  "sys_sched_setaffinity p pid cpusetsize maskaddr = ret 0"

definition sys_sched_yield :: "('x, 'e) tuxenv_scheme \<Rightarrow> ptr \<Rightarrow> (('x, 'z) tuxw_scheme, int) prog" where
  "sys_sched_yield P p = host_sched_yield P"

definition sys_set_tid_address :: "ptr \<Rightarrow> u64 \<Rightarrow> (('x, 'z) tuxw_scheme, int) prog" where
  "sys_set_tid_address p addr =
     bindM (deref threads p) (\<lambda>th.
     bindM (procaddr (proc th) addr) (\<lambda>a.
     bindM (set_thread p (\<lambda>n. n\<lparr>ctid := a\<rparr>)) (\<lambda>_. ret (tid th))))"

definition sys_gettid :: "ptr \<Rightarrow> (('x, 'z) tuxw_scheme, int) prog" where
  "sys_gettid p = bindM (deref threads p) (\<lambda>th. ret (tid th))"

section \<open>\<^verbatim>\<open>sys_proc.c\<close>\<close>

definition clearctid :: "('x, 'e) tuxenv_scheme \<Rightarrow> ptr \<Rightarrow> (('x, 'z) tuxw_scheme, unit) prog" where
  "clearctid P p =
     bindM (deref threads p) (\<lambda>th.
     bindM (if ctid th \<noteq> 0 then bindM (procaddr (proc th) (ctid th)) (\<lambda>a. store_int a 0) else ret ()) (\<lambda>_.
     bindM (sys_futex P p (ctid th) TUX_FUTEX_WAKE 0x7FFFFFFF 0 0 0) (\<lambda>_. ret ())))"

text \<open>\<^verbatim>\<open>lfi_ctx_pause\<close> or \<^verbatim>\<open>lfi_ctx_exit\<close>, neither of which returns.\<close>

definition leave_ctx :: "ptr \<Rightarrow> u64 \<Rightarrow> (('x, 'z) tuxw_scheme, u64) prog" where
  "leave_ctx p code =
     bindM (deref threads p) (\<lambda>th.
     bindM (deref procs (proc th)) (\<lambda>pr.
     bindM (deref tuxes (p_tux pr)) (\<lambda>t.
     bindM (if pause_on_exit (t_opts t) then lfi_ctx_pause (p_ctx th) code else lfi_ctx_exit (p_ctx th) code) (\<lambda>_::unit.
     raise AssertFail))))"

definition sys_exit :: "('x, 'e) tuxenv_scheme \<Rightarrow> ptr \<Rightarrow> u64 \<Rightarrow> (('x, 'z) tuxw_scheme, u64) prog" where
  "sys_exit P p code = bindM (clearctid P p) (\<lambda>_. leave_ctx p code)"

definition sys_exit_group :: "ptr \<Rightarrow> u64 \<Rightarrow> (('x, 'z) tuxw_scheme, u64) prog" where
  "sys_exit_group p code = leave_ctx p code"

end
