(* ===== verification/Tux_SysMisc.thy ===== *)
theory Tux_SysMisc
  imports Tux_SysThread
begin

text \<open>
  The remaining system calls: time (\<^verbatim>\<open>sys_clock.c\<close>), identity and resources
  (\<^verbatim>\<open>sys_info.c\<close>, \<^verbatim>\<open>host/linux/info.c\<close>), terminals (\<^verbatim>\<open>sys_ioctl.c\<close>), \<^verbatim>\<open>sys_prctl.c\<close>,
  \<^verbatim>\<open>sys_random.c\<close>, \<^verbatim>\<open>sys_signal.c\<close>, \<^verbatim>\<open>sys_fcntl.c\<close> of \<^verbatim>\<open>src/syscalls/\<close>.
\<close>

abbreviation (input) TUX_CLOCK_REALTIME :: int where "TUX_CLOCK_REALTIME \<equiv> 0"
abbreviation (input) TUX_CLOCK_MONOTONIC :: int where "TUX_CLOCK_MONOTONIC \<equiv> 1"
abbreviation (input) TUX_TIOCGWINSZ :: u64 where "TUX_TIOCGWINSZ \<equiv> 0x5413"
abbreviation (input) TUX_PR_SET_NAME :: int where "TUX_PR_SET_NAME \<equiv> 15"

section \<open>Time\<close>

definition sys_clock_gettime :: "('x, 'e) tuxenv_scheme \<Rightarrow> ptr \<Rightarrow> int \<Rightarrow> u64 \<Rightarrow> (('x, 'z) tuxw_scheme, int) prog" where
  "sys_clock_gettime P p clockid tpp =
     (if clockid \<noteq> TUX_CLOCK_REALTIME \<and> clockid \<noteq> TUX_CLOCK_MONOTONIC then ret (- TUX_EINVAL)
      else
        bindM (procbufalign p tpp 16 8) (\<lambda>tb.
        if tb = 0 then ret (- TUX_EFAULT)
        else
          bindM (kcall (k_clock_gettime P clockid)) (\<lambda>(err, sec, nsec).
          if err < 0 then gets (\<lambda>w. - k_errno P (ext w))
          else
            bindM (write_u64 tb sec) (\<lambda>_.
            bindM (write_u64 (tb + 8) nsec) (\<lambda>_. ret 0)))))"

definition sys_time :: "('x, 'e) tuxenv_scheme \<Rightarrow> ptr \<Rightarrow> u64 \<Rightarrow> (('x, 'z) tuxw_scheme, int) prog" where
  "sys_time P p tlocp = (if tlocp \<noteq> 0 then ret (- TUX_EINVAL) else host_time P)"

section \<open>Identity and resources\<close>

definition cstring :: "string \<Rightarrow> bytes" where
  "cstring s = map (of_nat \<circ> of_char) s @ [0]"

abbreviation (input) UTSNAME_LENGTH :: u64 where "UTSNAME_LENGTH \<equiv> 65"

definition uts_sysname :: bytes where "uts_sysname = cstring ''Linux''"
definition uts_release :: bytes where "uts_release = cstring ''4.5.0-libtux''"
definition uts_version :: bytes where "uts_version = cstring ''0.0.0-unknown''"
definition uts_machine :: bytes where "uts_machine = cstring ''x86_64''"

definition sys_uname :: "('x, 'e) tuxenv_scheme \<Rightarrow> ptr \<Rightarrow> u64 \<Rightarrow> (('x, 'z) tuxw_scheme, int) prog" where
  "sys_uname P p bufp =
     bindM (procbufalign p bufp (5 * UTSNAME_LENGTH) 1) (\<lambda>uts.
     if uts = 0 then ret (- TUX_EFAULT)
     else
       bindM (write_mem uts uts_sysname) (\<lambda>_.
       bindM (write_mem (uts + 2 * UTSNAME_LENGTH) uts_release) (\<lambda>_.
       bindM (write_mem (uts + 3 * UTSNAME_LENGTH) uts_version) (\<lambda>_.
       bindM (write_mem (uts + 4 * UTSNAME_LENGTH) uts_machine) (\<lambda>_.
       ret 0)))))"

text \<open>\<^verbatim>\<open>struct SysInfo\<close>: its members in order, by number; 1 to 3 are \<^verbatim>\<open>loads\<close>.\<close>

definition sysinfo_members :: "(nat \<times> nat) list" where
  "sysinfo_members =
     [(0, 8), (1, 8), (2, 8), (3, 8), (4, 8), (5, 8), (6, 8), (7, 8), (8, 8), (9, 8),
      (10, 2), (11, 2), (12, 8), (13, 8), (14, 4)]"

text \<open>\<^verbatim>\<open>pad\<close>, which no initialiser names, is set to 0 by the assignment of the whole structure.\<close>

definition sysinfo_value :: "(nat \<Rightarrow> u64) \<Rightarrow> nat \<Rightarrow> u64 option" where
  "sysinfo_value k i = (if i = 11 then Some 0 else Some (k i))"

text \<open>The first 108 bytes hold the members; the assignment also clears \<^verbatim>\<open>__reserved\<close>.\<close>

definition host_sysinfo :: "('x, 'e) tuxenv_scheme \<Rightarrow> u64 \<Rightarrow> (('x, 'z) tuxw_scheme, int) prog" where
  "host_sysinfo P info =
     bindM (kcall (k_sysinfo P)) (\<lambda>(r, k).
     if r < 0 then return_tuxerr P
     else
       bindM (write_mem (info + 108) (replicate 256 0)) (\<lambda>_.
       bindM (modifyM (\<lambda>w. w\<lparr>mem := store_struct (mem w) info (layout 0 sysinfo_members) (sysinfo_value k)\<rparr>)) (\<lambda>_.
       ret 0)))"

definition sys_sysinfo :: "('x, 'e) tuxenv_scheme \<Rightarrow> ptr \<Rightarrow> u64 \<Rightarrow> (('x, 'z) tuxw_scheme, int) prog" where
  "sys_sysinfo P p infop =
     bindM (procbufalign p infop 368 8) (\<lambda>info.
     if info = 0 then ret (- TUX_EFAULT) else host_sysinfo P info)"

definition sys_getrlimit :: "ptr \<Rightarrow> int \<Rightarrow> u64 \<Rightarrow> (('x, 'z) tuxw_scheme, int) prog" where
  "sys_getrlimit p resource rlimp = ret 0"

section \<open>Terminals, names, random bytes, signals\<close>

definition write_u16 :: "u64 \<Rightarrow> u16 \<Rightarrow> (('x, 'z) hostw_scheme, unit) prog" where
  "write_u16 a v = write_mem a (le_bytes 2 (ucast v))"

definition sys_ioctl ::
  "('x, 'e) tuxenv_scheme \<Rightarrow> ptr \<Rightarrow> int \<Rightarrow> u64 \<Rightarrow> u64 \<Rightarrow> (('x, 'z) tuxw_scheme, int) prog" where
  "sys_ioctl P p fd request va0 =
     (if fd \<noteq> 0 \<and> fd \<noteq> 1 \<and> fd \<noteq> 2 then ret (- TUX_EINVAL)
      else if request \<noteq> TUX_TIOCGWINSZ then ret (- TUX_EINVAL)
      else
        bindM (procbufalign p va0 8 2) (\<lambda>wsb.
        if wsb = 0 then ret (- TUX_EFAULT)
        else
          let kfd = (if fd = 0 then 0 else if fd = 1 then 1 else 2) in
          bindM (kcall (k_winsize P kfd)) (\<lambda>(err, row, col, xpixel, ypixel).
          if err \<noteq> 0 then gets (\<lambda>w. - k_errno P (ext w))
          else
            bindM (write_u16 wsb row) (\<lambda>_.
            bindM (write_u16 (wsb + 2) col) (\<lambda>_.
            bindM (write_u16 (wsb + 4) xpixel) (\<lambda>_.
            bindM (write_u16 (wsb + 6) ypixel) (\<lambda>_.
            ret 0)))))))"

definition pr_set_name :: "('x, 'e) tuxenv_scheme \<Rightarrow> ptr \<Rightarrow> u64 \<Rightarrow> (('x, 'z) tuxw_scheme, int) prog" where
  "pr_set_name P p namep =
     bindM (procbuf p namep 16) (\<lambda>name.
     if name = 0 then ret (- TUX_EFAULT) else host_prctl_set_name P name)"

definition sys_prctl :: "('x, 'e) tuxenv_scheme \<Rightarrow> ptr \<Rightarrow> int \<Rightarrow> u64 \<Rightarrow> (('x, 'z) tuxw_scheme, int) prog" where
  "sys_prctl P p op arg2 =
     (if op = TUX_PR_SET_NAME then pr_set_name P p arg2 else ret (- TUX_EINVAL))"

definition sys_getrandom :: "('x, 'e) tuxenv_scheme \<Rightarrow> ptr \<Rightarrow> u64 \<Rightarrow> u64 \<Rightarrow> u32 \<Rightarrow> (('x, 'z) tuxw_scheme, int) prog" where
  "sys_getrandom P p bufp buflen flags =
     bindM (procbuf p bufp buflen) (\<lambda>buf.
     if buf = 0 then ret (- TUX_EINVAL)
     else if flags AND (NOT TUX_GRND_RANDOM AND NOT TUX_GRND_NONBLOCK) \<noteq> 0 then ret (- TUX_EINVAL)
     else host_getrandom P buf buflen flags)"

definition sys_rt_sigaction :: "ptr \<Rightarrow> int \<Rightarrow> u64 \<Rightarrow> u64 \<Rightarrow> u64 \<Rightarrow> (('x, 'z) tuxw_scheme, int) prog" where
  "sys_rt_sigaction p sig act old sigsetsize = ret 0"

definition sys_rt_sigprocmask :: "ptr \<Rightarrow> int \<Rightarrow> u64 \<Rightarrow> u64 \<Rightarrow> u64 \<Rightarrow> (('x, 'z) tuxw_scheme, int) prog" where
  "sys_rt_sigprocmask p how setaddr oldsetaddr sigsetsize = ret 0"

definition sys_rt_sigreturn :: "ptr \<Rightarrow> (('x, 'z) tuxw_scheme, int) prog" where
  "sys_rt_sigreturn p = raise AssertFail"

definition sys_fcntl :: "ptr \<Rightarrow> int \<Rightarrow> int \<Rightarrow> (('x, 'z) tuxw_scheme, int) prog" where
  "sys_fcntl p fd cmd = ret 0"

end
