(* ===== verification/Tux_Dispatch.thy ===== *)
theory Tux_Dispatch
  imports Tux_SysMisc
begin

text \<open>
  The dispatch of system calls: the numbers of both architectures
  (\<^verbatim>\<open>src/arch/x64/arch_sys.h\<close>, \<^verbatim>\<open>src/arch/arm64/arch_sys.h\<close>), the generic switch
  (\<^verbatim>\<open>src/sys.c\<close>), the one of each architecture (\<^verbatim>\<open>src/arch/*/sys.c\<close>), the handler the
  runtime installs (\<^verbatim>\<open>src/tux.c\<close>) and its call by the platform
  (\<^verbatim>\<open>src/pal/platform.c\<close>), and the names of \<^verbatim>\<open>src/syscalls/strace.c\<close>.
\<close>

section \<open>System call numbers\<close>

definition arch_sys_x64 :: "(string \<times> u64) list" where
  "arch_sys_x64 = [
    (''read'', 0), (''write'', 1), (''open'', 2), (''close'', 3), (''stat'', 4), (''fstat'', 5),
    (''lstat'', 6), (''poll'', 7), (''lseek'', 8), (''mmap'', 9), (''mprotect'', 10), (''munmap'', 11),
    (''brk'', 12), (''rt_sigaction'', 13), (''rt_sigprocmask'', 14), (''rt_sigreturn'', 15), (''ioctl'', 16),
    (''pread64'', 17), (''pwrite64'', 18), (''readv'', 19), (''writev'', 20), (''access'', 21),
    (''sched_yield'', 24), (''mremap'', 25), (''getpid'', 39), (''socket'', 41), (''clone'', 56),
    (''fork'', 57), (''vfork'', 58), (''execve'', 59), (''exit'', 60), (''uname'', 63), (''fcntl'', 72),
    (''fsync'', 74), (''truncate'', 76), (''ftruncate'', 77), (''getcwd'', 79), (''chdir'', 80),
    (''fchdir'', 81), (''rename'', 82), (''mkdir'', 83), (''unlink'', 87), (''readlink'', 89),
    (''chmod'', 90), (''fchmod'', 91), (''chown'', 92), (''fchown'', 93), (''lchown'', 94),
    (''getrlimit'', 97), (''sysinfo'', 99), (''rt_sigpending'', 127), (''rt_sigtimedwait'', 128),
    (''rt_sigqueueinfo'', 129), (''rt_sigsuspend'', 130), (''sigaltstack'', 131), (''statfs'', 137),
    (''prctl'', 157), (''arch_prctl'', 158), (''setrlimit'', 160), (''gettid'', 186), (''getxattr'', 191),
    (''lgetxattr'', 192), (''time'', 201), (''futex'', 202), (''sched_setaffinity'', 203),
    (''sched_getaffinity'', 204), (''getdents64'', 217), (''set_tid_address'', 218),
    (''clock_gettime'', 228), (''exit_group'', 231), (''openat'', 257), (''mkdirat'', 258),
    (''newfstatat'', 262), (''unlinkat'', 263), (''renameat'', 264), (''readlinkat'', 267),
    (''faccessat'', 269), (''set_robust_list'', 273), (''utimensat'', 280), (''prlimit64'', 302),
    (''getrandom'', 318), (''membarrier'', 324), (''statx'', 332), (''rseq'', 334), (''ntotal'', 335)]"

definition arch_sys_arm64_low :: "(string \<times> u64) list" where
  "arch_sys_arm64_low = [
    (''io_setup'', 0), (''io_destroy'', 1), (''io_submit'', 2), (''io_cancel'', 3), (''io_getevents'', 4),
    (''setxattr'', 5), (''lsetxattr'', 6), (''fsetxattr'', 7), (''getxattr'', 8), (''lgetxattr'', 9),
    (''fgetxattr'', 10), (''listxattr'', 11), (''llistxattr'', 12), (''flistxattr'', 13),
    (''removexattr'', 14), (''lremovexattr'', 15), (''fremovexattr'', 16), (''getcwd'', 17),
    (''lookup_dcookie'', 18), (''eventfd2'', 19), (''epoll_create1'', 20), (''epoll_ctl'', 21),
    (''epoll_pwait'', 22), (''dup'', 23), (''dup3'', 24), (''fcntl'', 25), (''inotify_init1'', 26),
    (''inotify_add_watch'', 27), (''inotify_rm_watch'', 28), (''ioctl'', 29), (''ioprio_set'', 30),
    (''ioprio_get'', 31), (''flock'', 32), (''mknodat'', 33), (''mkdirat'', 34), (''unlinkat'', 35),
    (''symlinkat'', 36), (''linkat'', 37), (''renameat'', 38), (''umount2'', 39), (''mount'', 40),
    (''pivot_root'', 41), (''nfsservctl'', 42), (''statfs'', 43), (''fstatfs'', 44), (''truncate'', 45),
    (''ftruncate'', 46), (''fallocate'', 47), (''faccessat'', 48), (''chdir'', 49), (''fchdir'', 50),
    (''chroot'', 51), (''fchmod'', 52), (''fchmodat'', 53), (''fchownat'', 54), (''fchown'', 55),
    (''openat'', 56), (''close'', 57), (''vhangup'', 58), (''pipe2'', 59), (''quotactl'', 60),
    (''getdents64'', 61), (''lseek'', 62), (''read'', 63), (''write'', 64), (''readv'', 65),
    (''writev'', 66), (''pread64'', 67), (''pwrite64'', 68), (''preadv'', 69), (''pwritev'', 70),
    (''sendfile'', 71), (''pselect6'', 72), (''ppoll'', 73), (''signalfd4'', 74), (''vmsplice'', 75),
    (''splice'', 76), (''tee'', 77), (''readlinkat'', 78), (''newfstatat'', 79), (''fstat'', 80),
    (''sync'', 81), (''fsync'', 82), (''fdatasync'', 83), (''sync_file_range'', 84),
    (''timerfd_create'', 85), (''timerfd_settime'', 86), (''timerfd_gettime'', 87), (''utimensat'', 88),
    (''acct'', 89), (''capget'', 90), (''capset'', 91), (''personality'', 92), (''exit'', 93),
    (''exit_group'', 94), (''waitid'', 95), (''set_tid_address'', 96), (''unshare'', 97), (''futex'', 98),
    (''set_robust_list'', 99), (''get_robust_list'', 100), (''nanosleep'', 101)]"

definition arch_sys_arm64_mid :: "(string \<times> u64) list" where
  "arch_sys_arm64_mid = [
    (''getitimer'', 102), (''setitimer'', 103), (''kexec_load'', 104), (''init_module'', 105),
    (''delete_module'', 106), (''timer_create'', 107), (''timer_gettime'', 108), (''timer_getoverrun'', 109),
    (''timer_settime'', 110), (''timer_delete'', 111), (''clock_settime'', 112), (''clock_gettime'', 113),
    (''clock_getres'', 114), (''clock_nanosleep'', 115), (''syslog'', 116), (''ptrace'', 117),
    (''sched_setparam'', 118), (''sched_setscheduler'', 119), (''sched_getscheduler'', 120),
    (''sched_getparam'', 121), (''sched_setaffinity'', 122), (''sched_getaffinity'', 123),
    (''sched_yield'', 124), (''sched_get_priority_max'', 125), (''sched_get_priority_min'', 126),
    (''sched_rr_get_interval'', 127), (''restart_syscall'', 128), (''kill'', 129), (''tkill'', 130),
    (''tgkill'', 131), (''sigaltstack'', 132), (''rt_sigsuspend'', 133), (''rt_sigaction'', 134),
    (''rt_sigprocmask'', 135), (''rt_sigpending'', 136), (''rt_sigtimedwait'', 137),
    (''rt_sigqueueinfo'', 138), (''rt_sigreturn'', 139), (''setpriority'', 140), (''getpriority'', 141),
    (''reboot'', 142), (''setregid'', 143), (''setgid'', 144), (''setreuid'', 145), (''setuid'', 146),
    (''setresuid'', 147), (''getresuid'', 148), (''setresgid'', 149), (''getresgid'', 150),
    (''setfsuid'', 151), (''setfsgid'', 152), (''times'', 153), (''setpgid'', 154), (''getpgid'', 155),
    (''getsid'', 156), (''setsid'', 157), (''getgroups'', 158), (''setgroups'', 159), (''uname'', 160),
    (''sethostname'', 161), (''setdomainname'', 162), (''getrlimit'', 163), (''setrlimit'', 164),
    (''getrusage'', 165), (''umask'', 166), (''prctl'', 167), (''getcpu'', 168), (''gettimeofday'', 169),
    (''settimeofday'', 170), (''adjtimex'', 171), (''getpid'', 172), (''getppid'', 173), (''getuid'', 174),
    (''geteuid'', 175), (''getgid'', 176), (''getegid'', 177), (''gettid'', 178), (''sysinfo'', 179),
    (''mq_open'', 180), (''mq_unlink'', 181), (''mq_timedsend'', 182), (''mq_timedreceive'', 183),
    (''mq_notify'', 184), (''mq_getsetattr'', 185), (''msgget'', 186), (''msgctl'', 187), (''msgrcv'', 188),
    (''msgsnd'', 189), (''semget'', 190), (''semctl'', 191), (''semtimedop'', 192), (''semop'', 193),
    (''shmget'', 194), (''shmctl'', 195), (''shmat'', 196), (''shmdt'', 197), (''socket'', 198),
    (''socketpair'', 199), (''bind'', 200), (''listen'', 201), (''accept'', 202), (''connect'', 203)]"

definition arch_sys_arm64_high :: "(string \<times> u64) list" where
  "arch_sys_arm64_high = [
    (''getsockname'', 204), (''getpeername'', 205), (''sendto'', 206), (''recvfrom'', 207),
    (''setsockopt'', 208), (''getsockopt'', 209), (''shutdown'', 210), (''sendmsg'', 211),
    (''recvmsg'', 212), (''readahead'', 213), (''brk'', 214), (''munmap'', 215), (''mremap'', 216),
    (''add_key'', 217), (''request_key'', 218), (''keyctl'', 219), (''clone'', 220), (''execve'', 221),
    (''mmap'', 222), (''fadvise64'', 223), (''swapon'', 224), (''swapoff'', 225), (''mprotect'', 226),
    (''msync'', 227), (''mlock'', 228), (''munlock'', 229), (''mlockall'', 230), (''munlockall'', 231),
    (''mincore'', 232), (''madvise'', 233), (''remap_file_pages'', 234), (''mbind'', 235),
    (''get_mempolicy'', 236), (''set_mempolicy'', 237), (''migrate_pages'', 238), (''move_pages'', 239),
    (''rt_tgsigqueueinfo'', 240), (''perf_event_open'', 241), (''accept4'', 242), (''recvmmsg'', 243),
    (''wait4'', 260), (''prlimit64'', 261), (''fanotify_init'', 262), (''fanotify_mark'', 263),
    (''name_to_handle_at'', 264), (''open_by_handle_at'', 265), (''clock_adjtime'', 266), (''syncfs'', 267),
    (''setns'', 268), (''sendmmsg'', 269), (''process_vm_readv'', 270), (''process_vm_writev'', 271),
    (''kcmp'', 272), (''finit_module'', 273), (''sched_setattr'', 274), (''sched_getattr'', 275),
    (''renameat2'', 276), (''seccomp'', 277), (''getrandom'', 278), (''memfd_create'', 279), (''bpf'', 280),
    (''execveat'', 281), (''userfaultfd'', 282), (''membarrier'', 283), (''mlock2'', 284),
    (''copy_file_range'', 285), (''preadv2'', 286), (''pwritev2'', 287), (''pkey_mprotect'', 288),
    (''pkey_alloc'', 289), (''pkey_free'', 290), (''statx'', 291), (''io_pgetevents'', 292), (''rseq'', 293),
    (''kexec_file_load'', 294), (''pidfd_send_signal'', 424), (''io_uring_setup'', 425),
    (''io_uring_enter'', 426), (''io_uring_register'', 427), (''open_tree'', 428), (''move_mount'', 429),
    (''fsopen'', 430), (''fsconfig'', 431), (''fsmount'', 432), (''fspick'', 433), (''pidfd_open'', 434),
    (''clone3'', 435), (''close_range'', 436), (''openat2'', 437), (''pidfd_getfd'', 438),
    (''faccessat2'', 439), (''process_madvise'', 440), (''epoll_pwait2'', 441), (''mount_setattr'', 442),
    (''landlock_create_ruleset'', 444), (''landlock_add_rule'', 445), (''landlock_restrict_self'', 446),
    (''process_mrelease'', 448), (''futex_waitv'', 449), (''set_mempolicy_home_node'', 450),
    (''cachestat'', 451), (''fchmodat2'', 452)]"

definition arch_sys :: "arch \<Rightarrow> (string \<times> u64) list" where
  "arch_sys a = (case a of X64 \<Rightarrow> arch_sys_x64 | ARM64 \<Rightarrow> arch_sys_arm64_low @ arch_sys_arm64_mid @ arch_sys_arm64_high)"

text \<open>The constant \<^verbatim>\<open>TUX_SYS_\<close>\<open>s\<close> of an architecture.\<close>

definition TUX_SYS :: "arch \<Rightarrow> string \<Rightarrow> u64 option" where
  "TUX_SYS a s = map_of (arch_sys a) s"

section \<open>Switches\<close>

text \<open>
  A \<^verbatim>\<open>switch\<close> on a system call number whose labels are the constants of the
  given names.
\<close>

definition switch :: "arch \<Rightarrow> u64 \<Rightarrow> (string \<times> 'b) list \<Rightarrow> 'b \<Rightarrow> 'b" where
  "switch a n cases dflt =
     (case find (\<lambda>(s, _). TUX_SYS a s = Some n) cases of Some (_, m) \<Rightarrow> m | None \<Rightarrow> dflt)"

text \<open>The conversion of a signed result to \<^verbatim>\<open>uintptr_t\<close>.\<close>

definition io :: "('s, int) prog \<Rightarrow> ('s, u64) prog" where
  "io m = bindM m (\<lambda>r. ret (to_reg r))"

text \<open>The cases of \<^verbatim>\<open>syshandle\<close>; \<open>p\<close> is the thread, \<open>q\<close> its process.\<close>

definition sys_cases ::
  "('x, 'e) tuxenv_scheme \<Rightarrow> ptr \<Rightarrow> ptr \<Rightarrow> u64 \<Rightarrow> u64 \<Rightarrow> u64 \<Rightarrow> u64 \<Rightarrow> u64 \<Rightarrow> u64 \<Rightarrow>
   (string \<times> (('x, 'z) tuxw_scheme, u64) prog) list" where
  "sys_cases P p q a0 a1 a2 a3 a4 a5 = [
      (''getpid'', ret 0),
      (''write'', io (sys_write P q (c_int a0) a1 a2)),
      (''read'', io (sys_read P q (c_int a0) a1 a2)),
      (''lseek'', io (sys_lseek P q (c_int a0) (c_long a1) (c_int a2))),
      (''exit'', sys_exit P p a0),
      (''exit_group'', sys_exit_group p a0),
      (''brk'', sys_brk P q a0),
      (''openat'', io (sys_openat P q (c_int a0) a1 (c_uint a2) (c_uint a3))),
      (''close'', io (sys_close P q (c_int a0))),
      (''writev'', io (sys_writev P q (c_int a0) a1 a2)),
      (''readv'', io (sys_readv P q (c_int a0) a1 a2)),
      (''pread64'', io (sys_pread64 P q (c_int a0) a1 a2 (c_long a3))),
      (''mmap'', sys_mmap P q a0 a1 (c_uint a2) (c_uint a3) (c_int a4) (c_long a5)),
      (''mprotect'', io (sys_mprotect P q a0 a1 (c_uint a2))),
      (''munmap'', io (sys_munmap P q a0 a1)),
      (''getdents64'', io (sys_getdents64 P q (c_int a0) a1 a2)),
      (''newfstatat'', io (sys_newfstatat P q (c_int a0) a1 a2 (c_uint a3))),
      (''fstat'', io (sys_newfstatat P q (c_int a0) 0 a1 TUX_AT_EMPTY_PATH)),
      (''fchmod'', io (sys_fchmod P q (c_int a0) (c_uint a1))),
      (''truncate'', io (sys_truncate P q a0 (c_long a1))),
      (''ftruncate'', io (sys_ftruncate P q (c_int a0) (c_long a1))),
      (''fchown'', io (sys_fchown P q (c_int a0) (c_uint a1) (c_uint a2))),
      (''fsync'', io (sys_fsync P q (c_int a0))),
      (''chdir'', io (sys_chdir P q a0)),
      (''fchdir'', io (sys_fchdir P q (c_int a0))),
      (''mkdirat'', io (sys_mkdirat P q (c_int a0) a1 (c_uint a2))),
      (''getrandom'', io (sys_getrandom P q a0 a1 (c_uint a2))),
      (''getcwd'', sys_getcwd P q a0 a1),
      (''clock_gettime'', io (sys_clock_gettime P q (c_int a0) a1)),
      (''unlinkat'', io (sys_unlinkat P q (c_int a0) a1 (c_uint a2))),
      (''renameat'', io (sys_renameat P q (c_int a0) a1 (c_int a2) a3)),
      (''faccessat'', io (sys_faccessat P q (c_int a0) a1 (c_uint a2))),
      (''readlinkat'', io (sys_readlinkat P q (c_int a0) a1 a2 a3)),
      (''ioctl'', io (sys_ioctl P q (c_int a0) a1 a2)),
      (''fcntl'', io (sys_fcntl q (c_int a0) (c_int a1))),
      (''gettid'', io (sys_gettid p)),
      (''futex'', io (sys_futex P p a0 (c_uint a1) (c_uint a2) a3 a4 (c_uint a5))),
      (''clone'', io (case target P of X64 \<Rightarrow> sys_clone P p a0 a1 a2 a3 a4 a5 | ARM64 \<Rightarrow> sys_clone P p a0 a1 a2 a4 a3 a5)),
      (''set_tid_address'', io (sys_set_tid_address p a0)),
      (''sched_getaffinity'', io (sys_sched_getaffinity P q (c_int a0) a1 a2)),
      (''sched_setaffinity'', io (sys_sched_setaffinity q (c_int a0) a1 a2)),
      (''sched_yield'', io (sys_sched_yield P q)),
      (''rt_sigaction'', io (sys_rt_sigaction q (c_int a0) a1 a2 a3)),
      (''rt_sigprocmask'', io (sys_rt_sigprocmask q (c_int a0) a1 a2 a3)),
      (''rt_sigreturn'', io (sys_rt_sigreturn q)),
      (''uname'', io (sys_uname P q a0)),
      (''sysinfo'', io (sys_sysinfo P q a0)),
      (''getrlimit'', io (sys_getrlimit q (c_int a0) a1)),
      (''prctl'', io (sys_prctl P q (c_int a0) a1)),
      (''set_robust_list'', ret 0),
      (''membarrier'', ret 0),
      (''statx'', ret (to_reg (- TUX_ENOSYS))),
      (''rseq'', ret (to_reg (- TUX_ENOSYS))),
      (''prlimit64'', ret (to_reg (- TUX_ENOSYS))),
      (''statfs'', ret (to_reg (- TUX_ENOSYS))),
      (''getxattr'', ret (to_reg (- TUX_ENOSYS))),
      (''lgetxattr'', ret (to_reg (- TUX_ENOSYS))),
      (''socket'', ret (to_reg (- TUX_ENOSYS))),
      (''mremap'', ret (to_reg (- TUX_ENOSYS))),
      (''utimensat'', ret (to_reg (- TUX_ENOSYS)))]"

definition syshandle ::
  "('x, 'e) tuxenv_scheme \<Rightarrow> ptr \<Rightarrow> u64 \<Rightarrow> u64 \<Rightarrow> u64 \<Rightarrow> u64 \<Rightarrow> u64 \<Rightarrow> u64 \<Rightarrow> u64 \<Rightarrow> (('x, 'z) tuxw_scheme, u64) prog" where
  "syshandle P p sysno a0 a1 a2 a3 a4 a5 =
     bindM (deref threads p) (\<lambda>th.
     switch (target P) sysno (sys_cases P p (proc th) a0 a1 a2 a3 a4 a5) (raise AssertFail))"

section \<open>The architectures\<close>

abbreviation (input) TUX_ARCH_SET_FS :: int where "TUX_ARCH_SET_FS \<equiv> 0x1002"

definition sys_arch_prctl :: "ptr \<Rightarrow> int \<Rightarrow> u64 \<Rightarrow> (('x, 'z) tuxw_scheme, int) prog" where
  "sys_arch_prctl p code addr =
     (if code = TUX_ARCH_SET_FS then
        bindM (deref threads p) (\<lambda>th.
        bindM (procaddr (proc th) addr) (\<lambda>a.
        bindM (lfi_ctx_tpset (p_ctx th) a) (\<lambda>_. ret 0)))
      else ret (- TUX_EINVAL))"

definition x64_cases ::
  "('x, 'e) tuxenv_scheme \<Rightarrow> ptr \<Rightarrow> ptr \<Rightarrow> TuxRegs \<Rightarrow> (string \<times> (('x, 'z) tuxw_scheme, u64) prog) list" where
  "x64_cases P p q r = [
      (''arch_prctl'', io (sys_arch_prctl p (c_int (r Rdi)) (r Rsi))),
      (''readlink'', io (sys_readlink P q (r Rdi) (r Rsi) (r Rdx))),
      (''access'', io (sys_access P q (r Rdi) (c_uint (r Rsi)))),
      (''unlink'', io (sys_unlink P q (r Rdi))),
      (''time'', io (sys_time P q (r Rdi))),
      (''chown'', io (sys_chown P q (r Rdi) (c_uint (r Rsi)) (c_uint (r Rdx)))),
      (''chmod'', io (sys_chmod P q (r Rdi) (c_uint (r Rsi)))),
      (''rename'', io (sys_rename P q (r Rdi) (r Rsi))),
      (''mkdir'', io (sys_mkdir P q (r Rdi) (c_uint (r Rsi)))),
      (''open'', io (sys_open P q (r Rdi) (c_uint (r Rsi)) (c_uint (r Rdx)))),
      (''stat'', io (sys_stat P q (r Rdi) (r Rsi))),
      (''lstat'', io (sys_lstat P q (r Rdi) (r Rsi)))]"

text \<open>
  \<^verbatim>\<open>arch_syshandle\<close> of x86-64.  The registers are read when the call starts and
  the result is stored in \<^verbatim>\<open>rax\<close> when it ends.  The trace goes to \<^verbatim>\<open>stderr\<close>, which
  is not part of the state; reading \<^verbatim>\<open>proc->tux->opts.strace\<close> is.
\<close>

definition arch_syshandle_x64 :: "('x, 'e) tuxenv_scheme \<Rightarrow> ptr \<Rightarrow> (('x, 'z) tuxw_scheme, unit) prog" where
  "arch_syshandle_x64 P ctx =
     bindM (lfi_ctx_data ctx) (\<lambda>p.
     bindM (deref threads p) (\<lambda>th.
     bindM (lfi_ctx_regs ctx) (\<lambda>r.
     bindM (switch X64 (r Rax) (x64_cases P p (proc th) r)
              (syshandle P p (r Rax) (r Rdi) (r Rsi) (r Rdx) (r R10) (r R8) (r R9))) (\<lambda>v.
     bindM (lfi_ctx_regs ctx) (\<lambda>r'.
     bindM (set_ctx_regs ctx (r'(Rax := v))) (\<lambda>_.
     bindM (deref procs (proc th)) (\<lambda>pr.
     bindM (deref tuxes (p_tux pr)) (\<lambda>_. ret ()))))))))"

definition arch_syshandle_arm64 :: "('x, 'e) tuxenv_scheme \<Rightarrow> ptr \<Rightarrow> (('x, 'z) tuxw_scheme, unit) prog" where
  "arch_syshandle_arm64 P ctx =
     bindM (lfi_ctx_data ctx) (\<lambda>p.
     bindM (lfi_ctx_regs ctx) (\<lambda>r.
     bindM (syshandle P p (r (X 8)) (r (X 0)) (r (X 1)) (r (X 2)) (r (X 3)) (r (X 4)) (r (X 5))) (\<lambda>v.
     bindM (lfi_ctx_regs ctx) (\<lambda>r'.
     set_ctx_regs ctx (r'(X 0 := v))))))"

definition arch_syshandle :: "('x, 'e) tuxenv_scheme \<Rightarrow> ptr \<Rightarrow> (('x, 'z) tuxw_scheme, unit) prog" where
  "arch_syshandle P ctx =
     (case target P of X64 \<Rightarrow> arch_syshandle_x64 P ctx | ARM64 \<Rightarrow> arch_syshandle_arm64 P ctx)"

definition lfi_tux_syscall :: "('x, 'e) tuxenv_scheme \<Rightarrow> ptr \<Rightarrow> (('x, 'z) tuxw_scheme, unit) prog" where
  "lfi_tux_syscall P ctx = arch_syshandle P ctx"

definition lfi_syscall_handler :: "('x, 'e) tuxenv_scheme \<Rightarrow> ptr \<Rightarrow> (('x, 'z) tuxw_scheme, unit) prog" where
  "lfi_syscall_handler P ctx =
     bindM (deref ctxs ctx) (\<lambda>c.
     bindM (deref aspaces (ctx_as c)) (\<lambda>a.
     bindM (deref plats (as_plat a)) (\<lambda>plat.
     case syshandler plat of None \<Rightarrow> raise AssertFail
     | Some Lfi_tux_syscall \<Rightarrow> lfi_tux_syscall P ctx)))"

section \<open>Names for tracing\<close>

definition strace_names :: "string list" where
  "strace_names = [
    ''gettid'', ''getpid'', ''write'', ''read'', ''lseek'', ''exit'',
    ''exit_group'', ''brk'', ''openat'', ''close'', ''writev'', ''readv'',
    ''pread64'', ''mmap'', ''mprotect'', ''munmap'', ''getdents64'',
    ''newfstatat'', ''getrandom'', ''clock_gettime'', ''ioctl'',
    ''set_tid_address'', ''set_robust_list'', ''uname'', ''statx'', ''rseq'',
    ''prlimit64'', ''statfs'', ''rt_sigprocmask'', ''getxattr'', ''lgetxattr'',
    ''socket'']"

definition sysname :: "arch \<Rightarrow> u64 \<Rightarrow> string option" where
  "sysname a n = switch a n (map (\<lambda>s. (s, Some s)) strace_names) None"

definition arch_sysname :: "u64 \<Rightarrow> string option" where
  "arch_sysname n = switch X64 n (map (\<lambda>s. (s, Some s)) [''arch_prctl'', ''readlink'', ''access'']) None"

end
