(* ===== verification/Tux_Frame.thy ===== *)
theory Tux_Frame
  imports Tux_SysMisc
begin

text \<open>
  What a system call leaves alone.  \<open>leaves obs m\<close> says that the part \<open>obs\<close> of the
  state is the same after \<open>m\<close> as before, however \<open>m\<close> ends.  The locale
  \<open>object_view\<close> is the interface of a part of the state that lies outside memory, the
  kernel and the file objects: only the calls that change a process (opening and
  closing, the current directory, the break) can change it.  Its extension
  \<open>outside_view\<close> is the interface of a part that lies outside processes too: no file,
  memory or information call changes it.  The first is interpreted on the processes,
  the second on the rest of the state: threads, contexts, address spaces,
  platforms and library instances.
\<close>

section \<open>Rules\<close>

definition leaves :: "('s \<Rightarrow> 'o) \<Rightarrow> ('s, 'a) prog \<Rightarrow> bool" where
  "leaves obs m \<longleftrightarrow> (\<forall>w. wp any_fault m (\<lambda>_ v. obs v = obs w) (\<lambda>v. obs v = obs w) w)"

lemma leaves_ret [frame_rules]: "leaves obs (ret x)"
  and leaves_raise [frame_rules]: "leaves obs (raise e)"
  and leaves_exit [frame_rules]: "leaves obs (exit_with c)"
  and leaves_gets [frame_rules]: "leaves obs (gets f)"
  and leaves_assert [frame_rules]: "leaves obs (assertM b)"
  and leaves_deref [frame_rules]: "leaves obs (deref sel a)"
  by (simp_all add: leaves_def wp_rules split: option.split)

lemma leaves_modify [frame_rules]: "(\<And>w. obs (f w) = obs w) \<Longrightarrow> leaves obs (modifyM f)"
  by (simp add: leaves_def wp_rules)

lemma leaves_bind [frame_rules]:
  assumes "leaves obs m" "\<And>x. leaves obs (f x)"
  shows "leaves obs (bindM m f)"
  using assms unfolding leaves_def by (fastforce simp: wp_def bindM_def split: outcome.splits)

lemma leaves_if [frame_rules]: "leaves obs m \<Longrightarrow> leaves obs n \<Longrightarrow> leaves obs (if b then m else n)"
  by simp

lemma leaves_option [frame_rules]:
  "leaves obs m \<Longrightarrow> (\<And>y. leaves obs (f y)) \<Longrightarrow> leaves obs (case x of None \<Rightarrow> m | Some y \<Rightarrow> f y)"
  by (cases x) simp_all

lemma leaves_sum [frame_rules]:
  "(\<And>e. leaves obs (g e)) \<Longrightarrow> (\<And>y. leaves obs (f y)) \<Longrightarrow> leaves obs (case x of Inl e \<Rightarrow> g e | Inr y \<Rightarrow> f y)"
  by (cases x) simp_all

lemma leaves_prod [frame_rules]: "(\<And>a b. leaves obs (f a b)) \<Longrightarrow> leaves obs (case x of (a, b) \<Rightarrow> f a b)"
  by (cases x) simp

lemma leaves_forM [frame_rules]: "(\<And>x. x \<in> set xs \<Longrightarrow> leaves obs (f x)) \<Longrightarrow> leaves obs (forM xs f)"
  by (induction xs) (auto intro: frame_rules)

lemma wp_leaves:
  "leaves obs m \<Longrightarrow> wp F m Q E w \<Longrightarrow> wp F m (\<lambda>x v. Q x v \<and> obs v = obs w) E w"
  by (fastforce simp: leaves_def wp_def split: outcome.splits)

lemma leaves_Ret: "leaves obs m \<Longrightarrow> m w = Ret x w' \<Longrightarrow> obs w' = obs w"
  by (auto simp: leaves_def wp_def dest!: spec [of _ w])

locale object_view =
  fixes obs :: "('x, 'z) tuxw_scheme \<Rightarrow> 'o"
  assumes obs_upd [simp]: "obs (w\<lparr>ext := x\<rparr>) = obs w" "obs (w\<lparr>mem := mm\<rparr>) = obs w" "obs (w\<lparr>nextp := k\<rparr>) = obs w"
    "obs (w\<lparr>hostfiles := hs\<rparr>) = obs w" "obs (w\<lparr>files := fls\<rparr>) = obs w" "obs (w\<lparr>fdfiles := fds\<rparr>) = obs w"
begin

lemma leaves_kcall [frame_rules]: "leaves obs (kcall f)"
  and leaves_malloc [frame_rules]: "leaves obs (malloc K)"
  and leaves_write_mem [frame_rules]: "leaves obs (write_mem b bs)"
  by (simp_all add: leaves_def wp_kcall wp_malloc write_mem_def wp_modify Let_def)

lemma leaves_host_basic [frame_rules]:
  "leaves obs (set_hostfile a hf)" "leaves obs (free_hostfile a)" "leaves obs (fd_or_cwd a)" "leaves obs (return_tuxerr K)"
  "leaves obs (return_zero K r)" "leaves obs (return_count K r)" "leaves obs (return_stat K ar st rk)" "leaves obs (seekwhence c)"
  by (auto simp: set_hostfile_def free_hostfile_def fd_or_cwd_def return_tuxerr_def return_zero_def return_count_def
     return_stat_def seekwhence_def intro!: frame_rules)

lemma leaves_host_files [frame_rules]:
  "leaves obs (host_openat K0 d0 path0 fl0 m0)" "leaves obs (host_fdopen K1 i1)"
  "leaves obs (host_read K2 h2 b2 n2)" "leaves obs (host_write K3 h3 b3 n3)"
  "leaves obs (host_seek K4 h4 l4 c4)" "leaves obs (host_close K5 h5)"
  "leaves obs (host_stat K6 ar6 path6 st6)" "leaves obs (host_fstatat K7 ar7 h7 path7 st7 fl7)"
  "leaves obs (host_isdir K8 h8)" "leaves obs (host_truncate K9 path9 l9)"
  "leaves obs (host_ftruncate K10 h10 l10)" "leaves obs (host_fchownat K11 d11 path11 ow11 g11 fl11)"
  "leaves obs (host_fchmodat K12 d12 path12 m12 fl12)" "leaves obs (host_fchmod K13 h13 m13)"
  "leaves obs (host_fsync K14 h14)" "leaves obs (host_unlinkat K15 h15 path15 fl15)"
  "leaves obs (host_readlinkat K16 h16 path16 b16 n16)"
  "leaves obs (host_renameat2 K17 d17 path17 dx17 pathx17 fl17)"
  "leaves obs (host_faccessat2 K18 d18 path18 m18 fl18)" "leaves obs (host_mkdirat K19 d19 path19 m19)"
  unfolding host_close_def host_faccessat2_def host_fchmod_def host_fchmodat_def host_fchownat_def host_fdopen_def
      host_fstatat_def host_fsync_def host_ftruncate_def host_isdir_def host_mkdirat_def host_openat_def
      host_read_def host_readlinkat_def host_renameat2_def host_seek_def host_stat_def host_truncate_def
      host_unlinkat_def host_write_def Let_def
  by (intro frame_rules; simp)+

lemma leaves_host_system [frame_rules]:
  "leaves obs (host_mmap K0 b0 n0 pt0 fl0 h0 off0)" "leaves obs (host_munmap K1 b1 n1)"
  "leaves obs (host_mprotect K2 b2 n2 pt2)" "leaves obs (host_getdents64 K3 h3 b3 n3)"
  "leaves obs (host_getpath_str K4 d4 n4)" "leaves obs (host_getrandom K5 b5 n5 fl5)"
  "leaves obs (host_cpucount K6)" "leaves obs (host_prctl_set_name K7 b7)" "leaves obs (host_time K8)"
  "leaves obs (host_sched_yield K9)" "leaves obs (host_futexwait K10 b10 v10 vx10 n10)"
  "leaves obs (host_futexwake K11 b11 v11 vx11)" "leaves obs (host_futexrequeue K12 b12 v12 vx12)"
  "leaves obs (host_fstat K13 ar13 h13 st13)" "leaves obs (host_fchown K14 h14 ow14 g14)"
  "leaves obs (lfi_host_fdopen K15 i15)"
  unfolding host_cpucount_def host_fchown_def host_fstat_def host_futexrequeue_def host_futexwait_def
      host_futexwake_def host_getdents64_def host_getpath_str_def host_getrandom_def host_mmap_def
      host_mprotect_def host_munmap_def host_prctl_set_name_def host_sched_yield_def host_time_def
      lfi_host_fdopen_def Let_def
  by (intro frame_rules; simp)+

lemma leaves_host_path [frame_rules]:
  "leaves obs (host_getpath K0 d0 b0 n0)"
  unfolding host_getpath_def Let_def
  by (intro frame_rules; simp)+

lemma leaves_address_space [frame_rules]:
  "leaves obs (asmap P0 b0 n0 pt0 fl0 h0 off0)" "leaves obs (cbunmap P1 rng1)"
  "leaves obs (lfi_as_toptr s2 b2)" "leaves obs (lfi_as_fmptr s3 b3)" "leaves obs (lfi_as_validptr s4 b4)"
  "leaves obs (lfi_as_info s5)"
  unfolding asmap_def cbunmap_def lfi_as_fmptr_def lfi_as_info_def lfi_as_toptr_def lfi_as_validptr_def Let_def
  by (intro frame_rules; simp)+

lemma leaves_mappings [frame_rules]:
  "leaves obs (lfi_as_mapany P0 s0 n0 pt0 fl0 h0 off0)" "leaves obs (lfi_as_mapat P1 s1 b1 n1 pt1 fl1 h1 off1)"
  "leaves obs (lfi_as_mprotect P2 s2 b2 n2 pt2)" "leaves obs (lfi_as_munmap P3 s3 b3 n3)"
  unfolding lfi_as_mapany_def lfi_as_mapat_def lfi_as_mprotect_def lfi_as_munmap_def Let_def
  by (intro frame_rules; simp)+

lemma leaves_user_memory [frame_rules]:
  "leaves obs (set_fdfile q1 fx1)" "leaves obs (procaddr q2 b2)"
  "leaves obs (procuseraddr q3 b3)" "leaves obs (procbuf q4 b4 n4)" "leaves obs (procbufalign q5 b5 n5 al5)"
  "leaves obs (procpath q6 b6)"
  unfolding procaddr_def procbuf_def procbufalign_def procpath_def procuseraddr_def set_fdfile_def Let_def
  by (intro frame_rules; simp)+

lemma leaves_file_object [frame_rules]:
  "leaves obs (fileread P0 d0 b0 n0)" "leaves obs (filewrite P1 d1 b1 n1)" "leaves obs (filelseek P2 d2 l2 c2)"
  "leaves obs (filetruncate P3 d3 l3)" "leaves obs (filechown P4 d4 ow4 g4)" "leaves obs (filechmod P5 d5 m5)"
  "leaves obs (fileclose P6 d6)" "leaves obs (filestat P7 d7 st7)" "leaves obs (filesync P8 d8)"
  "leaves obs (filegetdents P9 d9 b9 n9)" "leaves obs (filefile d10)"
  unfolding filechmod_def filechown_def fileclose_def filefile_def filegetdents_def filelseek_def fileread_def
      filestat_def filesync_def filetruncate_def filewrite_def filef_def Let_def
  by (intro frame_rules; simp)+

lemma leaves_file_calls [frame_rules]:
  "leaves obs (call_file ff0 d0)" "leaves obs (call_close P1 fc1 d1)" "leaves obs (call_read P2 fr2 d2 b2 n2)"
  "leaves obs (call_write P3 fw3 d3 b3 n3)" "leaves obs (call_lseek P4 l4 c4 fk4 d4)"
  "leaves obs (call_truncate P5 l5 ft5 d5)" "leaves obs (call_chown P6 ow6 g6 fo6 d6)"
  "leaves obs (call_chmod P7 m7 fm7 d7)" "leaves obs (call_sync P8 fy8 d8)"
  "leaves obs (call_stat P9 fs9 d9 st9)" "leaves obs (call_getdents P10 fg10 d10 b10 n10)"
  unfolding call_chmod_def call_chown_def call_close_def call_file_def call_getdents_def call_lseek_def call_read_def
      call_stat_def call_sync_def call_truncate_def call_write_def Let_def
  by (simp_all split: read_fn.split write_fn.split lseek_fn.split truncate_fn.split chown_fn.split
    chmod_fn.split sync_fn.split stat_fn.split getdents_fn.split file_fn.split close_fn.split add: frame_rules)

lemma leaves_descriptors [frame_rules]:
  "leaves obs (filefnew P0 h0 fl0)" "leaves obs (opts_fs_open P1 path1 fl1 m1)"
  "leaves obs (fdalloc q3)" "leaves obs (fdget q4 i4)"
  "leaves obs (fdhas q5 i5)" "leaves obs (fdrelease P6 f6 q6)"
  unfolding fdalloc_def fdget_def fdhas_def fdrelease_def filefnew_def opts_fs_open_def Let_def
  by (intro frame_rules; simp)+

lemma leaves_open [frame_rules]:
  "leaves obs (filenew P0 t0 d0 path0 fl0 m0)" "leaves obs (getfdir P2 q2 i2)"
  unfolding filenew_def getfdir_def Let_def
  by (intro frame_rules; simp)+

lemma leaves_reading [frame_rules]:
  "leaves obs (sys_write P1 q1 i1 b1 n1)"
  "leaves obs (sys_read P2 q2 i2 b2 n2)" "leaves obs (sys_pread64 P3 q3 i3 b3 n3 l3)"
  "leaves obs (sys_lseek P4 q4 i4 l4 c4)" "leaves obs (sys_getdents64 P5 q5 i5 b5 n5)"
  unfolding sys_getdents64_def sys_lseek_def sys_pread64_def sys_read_def sys_write_def Let_def
  by (intro frame_rules; simp)+

lemma leaves_iov_loop [frame_rules]:
  "(\<And>b k. leaves obs (f b k)) \<Longrightarrow> leaves obs (iov_loop f iov n tot)"
proof (induction n arbitrary: iov tot)
  case (Suc n)
  then show ?case by (simp only: iov_loop.simps Let_def) (intro frame_rules; simp)
qed (simp add: frame_rules)

lemma leaves_vectors [frame_rules]:
  "leaves obs (sys_writev P q i b n)" "leaves obs (sys_readv P' q' i' b' n')"
  unfolding sys_writev_def sys_readv_def Let_def
  by (intro frame_rules; simp)+

lemma leaves_file_handlers [frame_rules]:
  "leaves obs (sys_readlinkat P2 q2 i2 b2 bx2 n2)" "leaves obs (sys_newfstatat P3 q3 i3 b3 bx3 v3)"
  "leaves obs (sys_truncate P4 q4 b4 l4)" "leaves obs (sys_ftruncate P5 q5 i5 l5)"
  "leaves obs (sys_chown P6 q6 b6 v6 vx6)" "leaves obs (sys_fchown P7 q7 i7 v7 vx7)"
  "leaves obs (sys_chmod P8 q8 b8 v8)" "leaves obs (sys_fchmod P9 q9 i9 v9)"
  "leaves obs (sys_fsync P10 q10 i10)" "leaves obs (sys_unlinkat P11 q11 i11 b11 v11)"
  "leaves obs (sys_renameat P12 q12 i12 b12 ix12 bx12)" "leaves obs (sys_faccessat2 P13 q13 i13 b13 v13 vx13)"
  "leaves obs (sys_mkdirat P14 q14 i14 b14 v14)" "leaves obs (sys_getcwd P15 q15 b15 n15)"
  unfolding sys_chmod_def sys_chown_def sys_faccessat2_def sys_fchmod_def
      sys_fchown_def sys_fsync_def sys_ftruncate_def sys_getcwd_def sys_mkdirat_def sys_newfstatat_def
      sys_readlinkat_def sys_renameat_def sys_truncate_def sys_unlinkat_def Let_def
  by (intro frame_rules; simp)+

lemma leaves_file_variants [frame_rules]:
  "leaves obs (sys_readlink P1 q1 b1 bx1 n1)"
  "leaves obs (sys_fstat P2 q2 i2 b2)" "leaves obs (sys_stat P3 q3 b3 bx3)"
  "leaves obs (sys_lstat P4 q4 b4 bx4)" "leaves obs (sys_unlink P5 q5 b5)"
  "leaves obs (sys_rename P6 q6 b6 bx6)" "leaves obs (sys_faccessat P7 q7 i7 b7 v7)"
  "leaves obs (sys_access P8 q8 b8 v8)" "leaves obs (sys_mkdir P9 q9 b9 v9)"
  unfolding sys_access_def sys_faccessat_def sys_fstat_def sys_lstat_def sys_mkdir_def sys_readlink_def
      sys_rename_def sys_stat_def sys_unlink_def sys_faccessat_def Let_def
  by (intro frame_rules; simp)+

lemma leaves_memory [frame_rules]:
  "leaves obs (procmapfile q0 i0)" "leaves obs (procmapany P1 q1 n1 v1 vx1 i1 l1)"
  "leaves obs (procmapat P2 q2 b2 n2 v2 vx2 i2 l2)" "leaves obs (procunmap P3 q3 b3 n3)"
  "leaves obs (brk_map P4 pr4 b4 n4)"
  unfolding brk_map_def procmapany_def procmapat_def procmapfile_def procunmap_def Let_def
  by (intro frame_rules; simp)+

lemma leaves_memory_handlers [frame_rules]:
  "leaves obs (sys_mmap P1 q1 b1 n1 v1 vx1 i1 l1)"
  "leaves obs (sys_mprotect P2 q2 b2 n2 v2)" "leaves obs (sys_munmap P3 q3 b3 n3)"
  unfolding sys_mmap_def sys_mprotect_def sys_munmap_def Let_def
  by (intro frame_rules; simp)+

lemma leaves_information [frame_rules]:
  "leaves obs (sys_clock_gettime P0 q0 i0 b0)" "leaves obs (sys_time P1 q1 b1)"
  "leaves obs (sys_uname P2 q2 b2)" "leaves obs (host_sysinfo P3 b3)" "leaves obs (sys_getrlimit q4 i4 b4)"
  "leaves obs (sys_ioctl P5 q5 i5 b5 bx5)" "leaves obs (pr_set_name P6 q6 b6)"
  "leaves obs (sys_getrandom P7 q7 b7 n7 v7)" "leaves obs (sys_rt_sigaction q8 i8 b8 bx8 n8)"
  "leaves obs (sys_rt_sigprocmask q9 i9 b9 bx9 n9)" "leaves obs (sys_rt_sigreturn q10)"
  "leaves obs (sys_fcntl q11 i11 ix11)" "leaves obs (sys_sched_getaffinity P12 q12 i12 n12 b12)"
  "leaves obs (sys_sched_setaffinity q13 i13 n13 b13)" "leaves obs (sys_sched_yield P14 q14)"
  unfolding host_sysinfo_def pr_set_name_def sys_clock_gettime_def sys_fcntl_def sys_getrandom_def sys_getrlimit_def
      sys_ioctl_def sys_rt_sigaction_def sys_rt_sigprocmask_def sys_rt_sigreturn_def sys_sched_getaffinity_def
      sys_sched_setaffinity_def sys_sched_yield_def sys_time_def sys_uname_def write_u16_def write_u64_def Let_def
  by (intro frame_rules; simp)+

lemma leaves_information2 [frame_rules]:
  "leaves obs (sys_sysinfo P0 q0 b0)" "leaves obs (sys_prctl P1 q1 i1 b1)"
  unfolding sys_prctl_def sys_sysinfo_def Let_def
  by (intro frame_rules; simp)+

lemma leaves_futex [frame_rules]:
  "leaves obs (futexwait P0 p0 b0 v0 vx0 n0)" "leaves obs (sys_gettid p1)"
  unfolding futexwait_def sys_gettid_def Let_def
  by (intro frame_rules; simp)+

lemma leaves_futex_call [frame_rules]:
  "leaves obs (sys_futex P0 p0 b0 v0 vx0 n0 nx0 vxx0)"
  unfolding sys_futex_def futexwake_def futexrequeue_def Let_def
  by (intro frame_rules; simp)+

end

locale outside_view = object_view +
  assumes obs_procs [simp]: "obs (w\<lparr>procs := ps\<rparr>) = obs w"
begin

lemma leaves_set_proc [frame_rules]: "leaves obs (set_proc q f)"
  unfolding set_proc_def by (intro frame_rules; simp)

lemma leaves_table [frame_rules]:
  "leaves obs (fdassign q0 i0 f0)" "leaves obs (fdremove_x P1 q1 i1 f1)" "leaves obs (drop_cwd P2 q2)"
  unfolding fdassign_def fdremove_x_def drop_cwd_def Let_def
  by (intro frame_rules; simp)+

lemma leaves_table_handlers [frame_rules]:
  "leaves obs (fdremove P0 q0 i0 f0)" "leaves obs (sys_openat P1 q1 i1 b1 v1 vx1)" "leaves obs (sys_close P2 q2 i2)"
  "leaves obs (sys_chdir P3 q3 b3)" "leaves obs (sys_fchdir P4 q4 i4)" "leaves obs (sys_brk P5 q5 b5)"
  "leaves obs (sys_open P6 q6 b6 v6 vx6)"
  unfolding fdremove_def sys_openat_def sys_close_def sys_chdir_def sys_fchdir_def sys_brk_def sys_open_def Let_def
  by (intro frame_rules; simp)+

end

text \<open>Processes themselves, which only the calls on descriptors, directories and the break change.\<close>

interpretation procs: object_view procs
  by unfold_locales simp_all

text \<open>The part of the state that only thread calls and the setup of a process change.\<close>

definition rest :: "('x, 'z) tuxw_scheme \<Rightarrow>
    (ptr \<rightharpoonup> TuxThread) \<times> (ptr \<rightharpoonup> LFIContext) \<times> (ptr \<rightharpoonup> LFIAddrSpace) \<times> (ptr \<rightharpoonup> LFIPlatform) \<times> (ptr \<rightharpoonup> Tux) \<times> ptr \<times> int" where
  "rest w = (threads w, ctxs w, aspaces w, plats w, tuxes w, lfi_myctx w, next_tid w)"

interpretation rest: outside_view rest
  by unfold_locales (simp_all add: rest_def)

end
