(* ===== verification/Tux_Locks.thy ===== *)
theory Tux_Locks
  imports Tux_Prelude "HOL-Library.Multiset"
begin

text \<open>
  Threads and mutexes: \<^verbatim>\<open>src/thread.h\<close> and the meaning of several threads inside the library at once.
  A function body is a \<open>code\<close> tree: between two steps of a thread any other thread may run.  The mutexes are of
  any type \<open>'m\<close>, as is the shared state.
\<close>

section \<open>Code with locks\<close>

datatype ('m, 's, 'a) code =
    Done 'a
  | Leave u64
  | Lock 'm "('m, 's, 'a) code"
  | Unlock 'm "('m, 's, 'a) code"
  | Act "'s \<Rightarrow> (('m, 's, 'a) code, 's) outcome"

primrec bindC :: "('m, 's, 'a) code \<Rightarrow> ('a \<Rightarrow> ('m, 's, 'b) code) \<Rightarrow> ('m, 's, 'b) code" where
  "bindC (Done a) f = f a"
| "bindC (Leave c) f = Leave c"
| "bindC (Lock m k) f = Lock m (bindC k f)"
| "bindC (Unlock m k) f = Unlock m (bindC k f)"
| "bindC (Act p) f = Act (\<lambda>w. map_outcome (\<lambda>k. bindC k f) id (p w))"

definition act :: "('s, 'a) prog \<Rightarrow> ('m, 's, 'a) code" where
  "act p = Act (\<lambda>w. map_outcome Done id (p w))"

fun forC :: "'b list \<Rightarrow> ('b \<Rightarrow> ('m, 's, unit) code) \<Rightarrow> ('m, 's, unit) code" where
  "forC [] f = Done ()"
| "forC (x # xs) f = bindC (f x) (\<lambda>_. forC xs f)"

definition LOCK_WITH_DEFER :: "'m \<Rightarrow> ('m, 's, 'a) code \<Rightarrow> ('m, 's, 'a) code" where
  "LOCK_WITH_DEFER m body = Lock m (bindC body (\<lambda>r. Unlock m (Done r)))"

primrec erase :: "('m, 's, 'a) code \<Rightarrow> ('s, 'a) prog" where
  "erase (Done a) = ret a"
| "erase (Leave c) = exit_with c"
| "erase (Lock m k) = erase k"
| "erase (Unlock m k) = erase k"
| "erase (Act p) = (\<lambda>w. case map_outcome erase id (p w) of
     Ret q w' \<Rightarrow> q w' | Exit c w' \<Rightarrow> Exit c w' | Fault e \<Rightarrow> Fault e)"

lemma bindM_map: "bindM (\<lambda>w. map_outcome g id (p w)) f = bindM p (\<lambda>x. f (g x))"
proof (rule ext)
  show "bindM (\<lambda>w. map_outcome g id (p w)) f w = bindM p (\<lambda>x. f (g x)) w" for w
    by (cases "p w") (simp_all add: bindM_def)
qed

lemma erase_Act [simp]: "erase (Act p) = bindM p erase"
proof (rule ext)
  show "erase (Act p) w = bindM p erase w" for w
    by (cases "p w") (simp_all add: bindM_def)
qed

declare erase.simps(5) [simp del]

text \<open>Induction over code: a step leads to smaller code, whatever the state it is taken in.\<close>

lemma code_induct [case_names Done Leave Lock Unlock Act]:
  assumes "\<And>a. P (Done a)" "\<And>c. P (Leave c)" "\<And>m k. P k \<Longrightarrow> P (Lock m k)" "\<And>m k. P k \<Longrightarrow> P (Unlock m k)"
    and "\<And>p. (\<And>w k w'. p w = Ret k w' \<Longrightarrow> P k) \<Longrightarrow> P (Act p)"
  shows "P c"
proof (induction c)
  case (Act p)
  have "P k" if "p w = Ret k w'" for w k w'
    using Act [of "p w" k] that rangeI [of p w] by auto
  then show ?case by (rule assms(5))
qed (use assms in auto)

lemma erase_bindC: "erase (bindC k f) = bindM (erase k) (\<lambda>x. erase (f x))"
proof (induction k rule: code_induct)
  case (Act p)
  then show ?case by (simp add: bindM_map) (auto simp: bindM_def fun_eq_iff split: outcome.split)
qed (simp_all add: bindM_def ret_def exit_with_def fun_eq_iff)

lemma erase_act: "erase (act p) = p"
  by (simp add: act_def bindM_map) (simp add: bindM_def ret_def fun_eq_iff split: outcome.split)

lemma erase_locked: "erase (LOCK_WITH_DEFER m body) = erase body"
  by (rule ext) (simp add: LOCK_WITH_DEFER_def erase_bindC bindM_def ret_def split: outcome.split)

lemma erase_forC: "erase (forC xs f) = forM xs (\<lambda>x. erase (f x))"
  by (induction xs) (simp_all add: erase_bindC)

lemmas erase_rules = erase_bindC erase_act erase_locked erase_forC

section \<open>Threads\<close>

text \<open>
  The shared state, the owner of each mutex and the code each thread has left.  A thread takes a free mutex, waits for a mutex that is
  held (by itself too), and gives back a mutex it holds.  \<open>acc m w\<close>: the memory of mutex \<open>m\<close> is
  allocated in \<open>w\<close>.  Both \<^verbatim>\<open>lock\<close> and \<^verbatim>\<open>unlock\<close> assert that the call succeeds.
\<close>

type_synonym ('m, 's, 'a) config = "'s \<times> ('m \<rightharpoonup> nat) \<times> ('m, 's, 'a) code list"

datatype 'c verdict = Moved 'c | Blocked | Broken fault | Ended

definition thread_step ::
  "('m \<Rightarrow> 's \<Rightarrow> bool) \<Rightarrow> nat \<Rightarrow> ('m, 's, 'a) config \<Rightarrow> ('m, 's, 'a) config verdict" where
  "thread_step acc i = (\<lambda>(w, own, ts).
     case ts ! i of
       Done a \<Rightarrow> Ended
     | Leave c \<Rightarrow> Ended
     | Lock m k \<Rightarrow>
         if \<not> acc m w then Broken Dangling
         else if own m = None then Moved (w, own(m \<mapsto> i), ts[i := k]) else Blocked
     | Unlock m k \<Rightarrow>
         if \<not> acc m w then Broken Dangling
         else if own m = Some i then Moved (w, own(m := None), ts[i := k]) else Broken AssertFail
     | Act p \<Rightarrow>
         (case p w of Ret k w' \<Rightarrow> Moved (w', own, ts[i := k])
          | Exit c w' \<Rightarrow> Moved (w', own, ts[i := Leave c])
          | Fault e \<Rightarrow> Broken e))"

inductive sched :: "('m \<Rightarrow> 's \<Rightarrow> bool) \<Rightarrow> ('m, 's, 'a) config \<Rightarrow> ('m, 's, 'a) config \<Rightarrow> bool" for acc where
  sched_step: "i < length ts \<Longrightarrow> thread_step acc i (w, own, ts) = Moved c \<Longrightarrow> sched acc (w, own, ts) c"

inductive_cases schedE: "sched acc (w, own, ts) c"

text \<open>The threads run in the order given.\<close>

fun run_schedule ::
  "('m \<Rightarrow> 's \<Rightarrow> bool) \<Rightarrow> nat list \<Rightarrow> ('m, 's, 'a) config \<Rightarrow> ('m, 's, 'a) config verdict" where
  "run_schedule acc [] c = Moved c"
| "run_schedule acc (i # is) c =
     (if i < length (snd (snd c))
      then (case thread_step acc i c of Moved d \<Rightarrow> run_schedule acc is d | r \<Rightarrow> r)
      else Ended)"

lemma run_schedule_sched: "run_schedule acc is c = Moved d \<Longrightarrow> (sched acc)\<^sup>*\<^sup>* c d"
proof (induction "is" arbitrary: c)
  case (Cons i "is")
  obtain w own ts where c: "c = (w, own, ts)" by (cases c) auto
  from Cons.prems obtain e where "i < length ts" "thread_step acc i c = Moved e" "run_schedule acc is e = Moved d"
    unfolding c by (auto split: if_splits verdict.splits)
  then show ?case using Cons.IH sched_step [of i ts acc w own e] unfolding c
    by (meson converse_rtranclp_into_rtranclp)
qed simp

lemma run_schedule_append:
  "run_schedule acc (is @ js) c = (case run_schedule acc is c of Moved d \<Rightarrow> run_schedule acc js d | r \<Rightarrow> r)"
  by (induction "is" arbitrary: c) (auto split: verdict.split)

definition spawned :: "'s \<Rightarrow> ('m, 's, 'a) code list \<Rightarrow> ('m, 's, 'a) config" where
  "spawned w cs = (w, Map.empty, cs)"

definition all_ended :: "('m \<Rightarrow> 's \<Rightarrow> bool) \<Rightarrow> ('m, 's, 'a) config \<Rightarrow> bool" where
  "all_ended acc c \<longleftrightarrow> list_all (\<lambda>i. thread_step acc i c = Ended) [0..<length (snd (snd c))]"

definition crashed :: "('m \<Rightarrow> 's \<Rightarrow> bool) \<Rightarrow> ('m, 's, 'a) config \<Rightarrow> bool" where
  "crashed acc c \<longleftrightarrow> list_ex (\<lambda>i. \<exists>e. thread_step acc i c = Broken e) [0..<length (snd (snd c))]"

section \<open>Every schedule ends\<close>

text \<open>What a thread has left after a step is a part of what it had left before.\<close>

inductive subcode :: "('m, 's, 'a) code \<Rightarrow> ('m, 's, 'a) code \<Rightarrow> bool" where
  "subcode k (Lock m k)"
| "subcode k (Unlock m k)"
| "p w = Ret k w' \<Longrightarrow> subcode k (Act p)"
| "subcode (Leave c) (Act p)"

inductive_cases subcode_DoneE: "subcode k (Done a)"
inductive_cases subcode_LeaveE: "subcode k (Leave c)"
inductive_cases subcode_LockE: "subcode k (Lock m k')"
inductive_cases subcode_UnlockE: "subcode k (Unlock m k')"
inductive_cases subcode_ActE: "subcode k (Act p)"

lemma subcode_wf: "wfP (subcode :: ('m, 's, 'a) code \<Rightarrow> _)"
  unfolding wfp_def wf_def
proof (intro allI impI)
  fix P :: "('m, 's, 'a) code \<Rightarrow> bool" and c
  assume step: "\<forall>x. (\<forall>y. (y, x) \<in> {(x, y). subcode x y} \<longrightarrow> P y) \<longrightarrow> P x"
  have leave: "P (Leave u)" for u using step by (auto elim: subcode_LeaveE)
  show "P c"
  proof (induction c rule: code_induct)
    case (Act p)
    then show ?case using step leave by (blast elim: subcode_ActE)
  qed (use step in \<open>blast elim: subcode_DoneE subcode_LeaveE subcode_LockE subcode_UnlockE\<close>)+
qed

lemma step_subcode:
  assumes "thread_step acc i (w, own, ts) = Moved (w', own', ts')"
  shows "\<exists>k. ts' = ts[i := k] \<and> subcode k (ts ! i)"
  using assms
  by (auto simp: thread_step_def split: code.splits if_splits outcome.splits intro: subcode.intros)

lemma sched_decreases:
  assumes "sched acc c c'"
  shows "(mset (snd (snd c')), mset (snd (snd c))) \<in> mult {(x, y). subcode x y}"
  using assms
proof (cases rule: sched.cases)
  case (sched_step i ts w own)
  obtain w' own' ts' where c': "c' = (w', own', ts')" by (cases c') auto
  with sched_step have "thread_step acc i (w, own, ts) = Moved (w', own', ts')" by simp
  from step_subcode [OF this] obtain k where k: "ts' = ts[i := k]" "subcode k (ts ! i)" by blast
  have "(mset ts - {# ts ! i #} + {# k #}, mset ts - {# ts ! i #} + {# ts ! i #}) \<in> mult {(x, y). subcode x y}"
    by (rule one_step_implies_mult) (use k in auto)
  then show ?thesis using sched_step c' k by (simp add: mset_update)
qed

lemma sched_wf: "wfP (\<lambda>c' c. sched acc c c')"
proof -
  have "wf (inv_image (mult {(x, y). subcode x y}) (\<lambda>c. mset (snd (snd c))))"
    by (rule wf_inv_image, rule wf_mult) (use subcode_wf in \<open>simp add: wfp_def\<close>)
  then show ?thesis
    unfolding wfp_def by (rule wf_subset) (auto simp: in_inv_image dest: sched_decreases)
qed

lemma no_infinite_run: "\<nexists>r. r 0 = c \<and> (\<forall>n. sched acc (r n) (r (Suc n)))"
  using sched_wf [of acc] unfolding wfp_def wf_iff_no_infinite_down_chain by auto

section \<open>Lock order\<close>

text \<open>
  \<open>obeys rank hs hs' c\<close>: started with the mutexes \<open>hs\<close>, innermost first, \<open>c\<close> ends with \<open>hs'\<close>; on the
  way it takes a mutex only when its rank is above that of every mutex it holds, gives mutexes back in the
  opposite order, and leaves the sandbox only when it holds none.
\<close>

inductive obeys :: "('m \<Rightarrow> nat) \<Rightarrow> 'm list \<Rightarrow> 'm list \<Rightarrow> ('m, 's, 'a) code \<Rightarrow> bool" for rank hs' where
  obeys_Done: "obeys rank hs' hs' (Done a)"
| obeys_Leave: "obeys rank hs' [] (Leave c)"
| obeys_Lock: "(\<forall>h\<in>set hs. rank h < rank m) \<Longrightarrow> obeys rank hs' (m # hs) k \<Longrightarrow> obeys rank hs' hs (Lock m k)"
| obeys_Unlock: "obeys rank hs' hs k \<Longrightarrow> obeys rank hs' (m # hs) (Unlock m k)"
| obeys_Act: "(\<And>w k w'. p w = Ret k w' \<Longrightarrow> obeys rank hs' hs k) \<Longrightarrow>
    (\<And>w c w'. p w = Exit c w' \<Longrightarrow> hs = []) \<Longrightarrow> obeys rank hs' hs (Act p)"

inductive_simps obeys_Done_iff: "obeys rank hs' hs (Done a)"
inductive_simps obeys_Leave_iff: "obeys rank hs' hs (Leave c)"
inductive_cases obeys_LockE: "obeys rank hs' hs (Lock m k)"
inductive_cases obeys_UnlockE: "obeys rank hs' hs (Unlock m k)"
inductive_cases obeys_ActE: "obeys rank hs' hs (Act p)"

named_theorems obeys_rules \<open>code that keeps the lock order\<close>

lemma obeys_bind:
  assumes "obeys rank hs1 hs k" and "\<And>a. obeys rank hs2 hs1 (f a)"
  shows "obeys rank hs2 hs (bindC k f)"
  using assms(1)
proof (induction rule: obeys.induct)
  case (obeys_Act p hs)
  show ?case unfolding bindC.simps
  proof (rule obeys.obeys_Act)
    show "obeys rank hs2 hs k" if "map_outcome (\<lambda>k. bindC k f) id (p w) = Ret k w'" for w k w'
      using that obeys_Act.IH by (cases "p w") auto
    show "hs = []" if "map_outcome (\<lambda>k. bindC k f) id (p w) = Exit c w'" for w c w'
      using that obeys_Act.hyps(2) by (cases "p w") auto
  qed
qed (auto intro: obeys.intros assms(2))

lemmas obeys_seq [obeys_rules] = obeys_bind [of rank hs hs _ hs] for rank hs

text \<open>Programs that never leave the sandbox: the only ones that may run while a mutex is held.\<close>

definition no_exit :: "('s, 'a) prog \<Rightarrow> bool" where
  "no_exit p \<longleftrightarrow> (\<forall>w c w'. p w \<noteq> Exit c w')"

lemma obeys_act_held [obeys_rules]: "no_exit p \<Longrightarrow> obeys rank hs hs (act p)"
  unfolding act_def
proof (rule obeys_Act)
  show "obeys rank hs hs k" if "map_outcome Done id (p w) = Ret k w'" for w k w'
    using that by (cases "p w") (auto intro: obeys_Done)
  show "hs = []" if "no_exit p" "map_outcome Done id (p w) = Exit c w'" for w c w'
    using that by (cases "p w") (auto simp: no_exit_def)
qed

lemma obeys_act: "obeys rank [] [] (act p)"
  unfolding act_def
proof (rule obeys_Act)
  show "obeys rank [] [] k" if "map_outcome Done id (p w) = Ret k w'" for w k w'
    using that by (cases "p w") (auto intro: obeys_Done)
qed simp

lemma obeys_locked [obeys_rules]:
  assumes "\<forall>h\<in>set hs. rank h < rank m" "obeys rank (m # hs) (m # hs) body"
  shows "obeys rank hs hs (LOCK_WITH_DEFER m body)"
  unfolding LOCK_WITH_DEFER_def
  by (rule obeys_Lock [OF assms(1)], rule obeys_bind [OF assms(2)], intro obeys_Unlock obeys_Done)

lemma obeys_for [obeys_rules]: "(\<And>x. obeys rank hs hs (f x)) \<Longrightarrow> obeys rank hs hs (forC xs f)"
  by (induction xs) (auto intro: obeys_bind obeys_Done)

section \<open>No deadlock\<close>

text \<open>Each thread owns exactly the mutexes its code has still to give back.\<close>

definition locks_ok :: "('m \<Rightarrow> nat) \<Rightarrow> ('m, 's, 'a) config \<Rightarrow> bool" where
  "locks_ok rank = (\<lambda>(w, own, ts). \<exists>hs. length hs = length ts \<and>
     (\<forall>i<length ts. distinct (hs ! i) \<and> obeys rank [] (hs ! i) (ts ! i)) \<and>
     (\<forall>m i. own m = Some i \<longleftrightarrow> i < length ts \<and> m \<in> set (hs ! i)))"

lemma locks_okI:
  assumes "length hs = length ts" "\<And>i. i < length ts \<Longrightarrow> distinct (hs ! i) \<and> obeys rank [] (hs ! i) (ts ! i)"
    and "\<And>m i. own m = Some i \<longleftrightarrow> i < length ts \<and> m \<in> set (hs ! i)"
  shows "locks_ok rank (w, own, ts)"
  using assms unfolding locks_ok_def by blast

lemma locks_ok_spawned:
  assumes "\<And>c. c \<in> set cs \<Longrightarrow> obeys rank [] [] c"
  shows "locks_ok rank (spawned w cs)"
  unfolding spawned_def by (rule locks_okI [where hs = "replicate (length cs) []"]) (use assms in auto)

lemma step_locks_ok:
  assumes ok: "locks_ok rank (w, own, ts)" and i: "i < length ts"
    and st: "thread_step acc i (w, own, ts) = Moved c"
  shows "locks_ok rank c"
proof -
  from ok obtain hs where hs: "length hs = length ts"
      "\<And>i. i < length ts \<Longrightarrow> distinct (hs ! i)" "\<And>i. i < length ts \<Longrightarrow> obeys rank [] (hs ! i) (ts ! i)"
      "\<And>m i. own m = Some i \<longleftrightarrow> i < length ts \<and> m \<in> set (hs ! i)"
    unfolding locks_ok_def by auto
  note obs = hs(3) [OF i]
  show ?thesis
  proof (cases "ts ! i")
    case (Lock m k)
    from st Lock have c: "c = (w, own(m \<mapsto> i), ts[i := k])" and free: "own m = None"
      by (auto simp: thread_step_def split: if_splits)
    from obs Lock have o: "\<forall>h\<in>set (hs ! i). rank h < rank m" "obeys rank [] (m # hs ! i) k"
      by (auto elim: obeys_LockE)
    then have "m \<notin> set (hs ! i)" by auto
    moreover have "m \<notin> set (hs ! j)" if "j < length ts" for j using hs(4) [of m j] free that by auto
    ultimately show ?thesis unfolding c using hs i o
      by (intro locks_okI [where hs = "hs[i := m # hs ! i]"]) (auto simp: nth_list_update)
  next
    case (Unlock m k)
    from st Unlock have c: "c = (w, own(m := None), ts[i := k])" and mine: "own m = Some i"
      by (auto simp: thread_step_def split: if_splits)
    from obs Unlock obtain h where h: "hs ! i = m # h" "obeys rank [] h k" by (auto elim: obeys_UnlockE)
    moreover have "m \<notin> set (hs ! j)" if "j < length ts" "j \<noteq> i" for j using hs(4) [of m j] mine that by auto
    moreover have "distinct (m # h)" using hs(2) [OF i] h by simp
    ultimately show ?thesis unfolding c using hs i
      by (intro locks_okI [where hs = "hs[i := h]"]) (auto simp: nth_list_update)
  next
    case (Act p)
    from obs Act have o: "p w = Ret k w' \<Longrightarrow> obeys rank [] (hs ! i) k" "p w = Exit u w' \<Longrightarrow> hs ! i = []" for k w' u
      by (auto elim: obeys_ActE) (blast elim: obeys_ActE)
    from st Act obtain k w' where c: "c = (w', own, ts[i := k])" and "obeys rank [] (hs ! i) k"
      by (auto simp: thread_step_def o intro: obeys_Leave split: outcome.splits)
    then show ?thesis unfolding c using hs i by (intro locks_okI [where hs = hs]) (auto simp: nth_list_update)
  qed (use st in \<open>simp_all add: thread_step_def\<close>)
qed

lemma sched_locks_ok:
  assumes "(sched acc)\<^sup>*\<^sup>* c c'" "locks_ok rank c"
  shows "locks_ok rank c'"
  using assms by (induction rule: rtranclp_induct) (auto elim: sched.cases intro: step_locks_ok)

lemma step_verdict:
  assumes "i < length ts" "thread_step acc i (w, own, ts) \<noteq> Ended" "thread_step acc i (w, own, ts) \<noteq> Blocked"
  shows "crashed acc (w, own, ts) \<or> (\<exists>c'. sched acc (w, own, ts) c')"
proof (cases "thread_step acc i (w, own, ts)")
  case (Moved c')
  from sched_step [OF assms(1) this] show ?thesis by blast
qed (use assms in \<open>auto simp: crashed_def list_ex_iff intro: bexI [of _ i]\<close>)

lemma no_deadlock:
  fixes c :: "('m, 's, 'a) config"
  assumes ok: "locks_ok rank c"
  shows "all_ended acc c \<or> crashed acc c \<or> (\<exists>c'. sched acc c c')"
proof -
  obtain w own and ts :: "('m, 's, 'a) code list" where c: "c = (w, own, ts)" by (cases c) auto
  from ok obtain hs where hs: "length hs = length ts"
      "\<And>i. i < length ts \<Longrightarrow> obeys rank [] (hs ! i) (ts ! i)"
      "\<And>m i. own m = Some i \<longleftrightarrow> i < length ts \<and> m \<in> set (hs ! i)"
    unfolding locks_ok_def c by auto
  define W where "W = {i. i < length ts \<and> thread_step acc i c = Blocked}"
  define want where "want i = (case ts ! i of Lock m k \<Rightarrow> m | _ \<Rightarrow> undefined)" for i
  show ?thesis
  proof (cases "W = {}")
    case True
    show ?thesis
    proof (cases "all_ended acc c")
      case False
      then obtain i where "i < length ts" "thread_step acc i c \<noteq> Ended" unfolding all_ended_def list_all_iff c by auto
      moreover from this True have "thread_step acc i c \<noteq> Blocked" unfolding W_def by auto
      ultimately show ?thesis unfolding c by (blast dest: step_verdict)
    qed simp
  next
    case False
    have fin: "finite ((rank \<circ> want) ` W)" unfolding W_def by simp
    from Max_in [OF this] False obtain i where i: "i \<in> W" "rank (want i) = Max ((rank \<circ> want) ` W)" by force
    then have max: "\<And>j. j \<in> W \<Longrightarrow> rank (want j) \<le> rank (want i)" using Max_ge [OF fin] by simp
    from i(1) obtain m k j where m: "ts ! i = Lock m k" "own m = Some j"
      unfolding W_def c by (auto simp: thread_step_def split: code.splits if_splits outcome.splits)
    then have j: "j < length ts" "m \<in> set (hs ! j)" using hs(3) by auto
    have "j \<notin> W"
    proof
      assume "j \<in> W"
      then obtain m' k' where m': "ts ! j = Lock m' k'"
        unfolding W_def c by (auto simp: thread_step_def split: code.splits if_splits outcome.splits)
      then have "rank m < rank m'" using hs(2) [OF j(1)] j(2) by (auto elim: obeys_LockE)
      with max [OF \<open>j \<in> W\<close>] show False by (simp add: want_def m m')
    qed
    moreover have "thread_step acc j c \<noteq> Ended"
      using hs(2) [OF j(1)] j(2) unfolding c
      by (auto simp: thread_step_def obeys_Done_iff obeys_Leave_iff split: code.splits if_splits outcome.splits)
    ultimately show ?thesis using j(1) step_verdict [of j ts acc w own] unfolding W_def c by blast
  qed
qed

lemma run_completes:
  assumes "locks_ok rank c"
  shows "\<exists>c'. (sched acc)\<^sup>*\<^sup>* c c' \<and> (all_ended acc c' \<or> crashed acc c')"
  using assms
proof (induction c rule: wfp_induct_rule [OF sched_wf [of acc]])
  case (1 c)
  show ?case
  proof (cases "all_ended acc c \<or> crashed acc c")
    case False
    with no_deadlock [OF 1(2), of acc] obtain c1 where st: "sched acc c c1" by blast
    with 1(2) have "locks_ok rank c1" using sched_locks_ok by blast
    from 1(1) [OF st this] st show ?thesis by (meson converse_rtranclp_into_rtranclp)
  qed blast
qed

text \<open>What callers rely on: a set of calls that all keep one lock order.\<close>

locale lock_client =
  fixes rank :: "'m \<Rightarrow> nat" and calls :: "('m, 's, 'a) code set"
  assumes ordered: "c \<in> calls \<Longrightarrow> obeys rank [] [] c"
begin

lemma reachable_ok:
  assumes "set cs \<subseteq> calls" "(sched acc)\<^sup>*\<^sup>* (spawned w cs) c"
  shows "locks_ok rank c"
  using sched_locks_ok [OF assms(2) locks_ok_spawned] assms(1) ordered by blast

lemma never_stuck:
  assumes "set cs \<subseteq> calls" "(sched acc)\<^sup>*\<^sup>* (spawned w cs) c"
  shows "all_ended acc c \<or> crashed acc c \<or> (\<exists>c'. sched acc c c')"
  by (rule no_deadlock [OF reachable_ok [OF assms]])

lemma completes:
  assumes "set cs \<subseteq> calls" "(sched acc)\<^sup>*\<^sup>* (spawned w cs) c"
  shows "\<exists>c'. (sched acc)\<^sup>*\<^sup>* c c' \<and> (all_ended acc c' \<or> crashed acc c')"
  by (rule run_completes [OF reachable_ok [OF assms]])

end

section \<open>Calls that hold one mutex throughout\<close>

text \<open>\<open>to_end m c\<close>: \<open>c\<close> gives back \<open>m\<close> in its last step and nowhere else, and never leaves the sandbox.\<close>

inductive to_end :: "'m \<Rightarrow> ('m, 's, 'a) code \<Rightarrow> bool" for m where
  to_end_Unlock: "to_end m (Unlock m (Done a))"
| to_end_other_Lock: "m' \<noteq> m \<Longrightarrow> to_end m k \<Longrightarrow> to_end m (Lock m' k)"
| to_end_other_Unlock: "m' \<noteq> m \<Longrightarrow> to_end m k \<Longrightarrow> to_end m (Unlock m' k)"
| to_end_Act: "(\<And>w k w'. p w = Ret k w' \<Longrightarrow> to_end m k) \<Longrightarrow> (\<And>w c w'. p w \<noteq> Exit c w') \<Longrightarrow> to_end m (Act p)"

inductive_cases to_end_DoneE: "to_end m (Done a)"
inductive_cases to_end_LeaveE: "to_end m (Leave c)"
inductive_cases to_end_LockE: "to_end m (Lock m' k)"
inductive_cases to_end_UnlockE: "to_end m (Unlock m' k)"
inductive_cases to_end_ActE: "to_end m (Act p)"

inductive avoids :: "'m \<Rightarrow> ('m, 's, 'a) code \<Rightarrow> bool" for m where
  avoids_Done: "avoids m (Done a)"
| avoids_Lock: "m' \<noteq> m \<Longrightarrow> avoids m k \<Longrightarrow> avoids m (Lock m' k)"
| avoids_Unlock: "m' \<noteq> m \<Longrightarrow> avoids m k \<Longrightarrow> avoids m (Unlock m' k)"
| avoids_Act: "(\<And>w k w'. p w = Ret k w' \<Longrightarrow> avoids m k) \<Longrightarrow> (\<And>w c w'. p w \<noteq> Exit c w') \<Longrightarrow> avoids m (Act p)"

text \<open>The calls in the order \<open>os\<close>, one after the other, with their results.\<close>

fun serial :: "('s, 'a) prog list \<Rightarrow> nat list \<Rightarrow> ('s, 'a list) prog" where
  "serial ps [] = ret []"
| "serial ps (i # is) = bindM (ps ! i) (\<lambda>a. bindM (serial ps is) (\<lambda>as. ret (a # as)))"

lemma serial_snoc:
  "serial ps os w = Ret as u \<Longrightarrow> (ps ! i) u = Ret a v \<Longrightarrow> serial ps (os @ [i]) w = Ret (as @ [a]) v"
  by (induction os arbitrary: w as) (auto simp: bindM_def ret_def split: outcome.splits)

named_theorems avoids_rules \<open>code that does not touch a mutex\<close>

lemma map_Ret: "map_outcome g id r = Ret x w \<longleftrightarrow> (\<exists>k. r = Ret k w \<and> x = g k)"
  by (cases r) auto

lemma map_Exit: "map_outcome g id r = Exit u w \<longleftrightarrow> r = Exit u w"
  by (cases r) auto

lemma avoids_bind [avoids_rules]:
  assumes "avoids m k" "\<And>a. avoids m (f a)"
  shows "avoids m (bindC k f)"
  using assms(1) by (induction rule: avoids.induct) (auto intro!: avoids.intros assms(2) simp: map_Ret map_Exit)

lemma to_end_bind:
  assumes "avoids m k" "\<And>a. to_end m (f a)"
  shows "to_end m (bindC k f)"
  using assms(1) by (induction rule: avoids.induct) (auto intro!: to_end.intros assms(2) simp: map_Ret map_Exit)

lemma avoids_act [avoids_rules]: "no_exit p \<Longrightarrow> avoids m (act p)"
  unfolding act_def by (rule avoids_Act) (auto simp: map_Ret map_Exit no_exit_def intro: avoids_Done)

lemma avoids_locked [avoids_rules]: "m' \<noteq> m \<Longrightarrow> avoids m body \<Longrightarrow> avoids m (LOCK_WITH_DEFER m' body)"
  unfolding LOCK_WITH_DEFER_def by (intro avoids_bind avoids.intros)

lemma avoids_for [avoids_rules]: "(\<And>x. avoids m (f x)) \<Longrightarrow> avoids m (forC xs f)"
  by (induction xs) (auto intro: avoids_bind avoids_Done)

lemma to_end_locked: "avoids m body \<Longrightarrow> \<exists>k. LOCK_WITH_DEFER m body = Lock m k \<and> to_end m k"
  unfolding LOCK_WITH_DEFER_def by (auto intro: to_end_bind to_end_Unlock)

text \<open>
  At each moment of a run of such calls, the calls that ended did so one after the other, and at most one call
  is under way; it will do in the present state what it would have done had it started when the last one ended.
\<close>

definition one_inside :: "'m \<Rightarrow> ('m, 's, 'a) code list \<Rightarrow> 's \<Rightarrow> ('m, 's, 'a) config \<Rightarrow> bool" where
  "one_inside m cs w0 = (\<lambda>(v, own, ts). \<exists>os as u.
     length ts = length cs \<and> distinct os \<and> set os \<subseteq> {..<length cs} \<and> length as = length os \<and>
     serial (map erase cs) os w0 = Ret as u \<and> (\<forall>j<length os. ts ! (os ! j) = Done (as ! j)) \<and>
     (own m = None \<and> v = u \<and> (\<forall>j<length cs. j \<notin> set os \<longrightarrow> ts ! j = cs ! j) \<or>
      (\<exists>i<length cs. own m = Some i \<and> i \<notin> set os \<and> to_end m (ts ! i) \<and> erase (ts ! i) v = erase (cs ! i) u \<and>
         (\<forall>j<length cs. j \<notin> set os \<and> j \<noteq> i \<longrightarrow> ts ! j = cs ! j))))"

lemma inside_step:
  assumes "to_end m (ts ! i)" "own m = Some i" "thread_step acc i (v, own, ts) = Moved c"
  shows "\<exists>v' own' k. c = (v', own', ts[i := k]) \<and>
     (own' m = Some i \<and> to_end m k \<and> erase k v' = erase (ts ! i) v \<or>
      (\<exists>a. own' m = None \<and> k = Done a \<and> erase (ts ! i) v = Ret a v'))"
  using assms(1)
proof (cases rule: to_end.cases)
  case (to_end_Act p)
  with assms(3) obtain k v' where k: "p v = Ret k v'" "c = (v', own, ts[i := k])"
    by (auto simp: thread_step_def split: outcome.splits)
  with to_end_Act assms(2) have "own m = Some i \<and> to_end m k \<and> erase k v' = erase (ts ! i) v"
    by (auto simp: bindM_def)
  with k(2) show ?thesis by blast
qed (use assms(2,3) in \<open>auto simp: thread_step_def ret_def split: if_splits\<close>)

lemma one_inside_step:
  assumes sec: "\<And>i. i < length cs \<Longrightarrow> \<exists>k. cs ! i = Lock m k \<and> to_end m k"
    and inv: "one_inside m cs w0 (v, own, ts)" and j: "j < length ts"
    and st: "thread_step acc j (v, own, ts) = Moved c"
  shows "one_inside m cs w0 c"
proof -
  from inv obtain os as u where I: "length ts = length cs" "distinct os" "set os \<subseteq> {..<length cs}" "length as = length os"
      "serial (map erase cs) os w0 = Ret as u" "\<And>j. j < length os \<Longrightarrow> ts ! (os ! j) = Done (as ! j)"
    and alt: "own m = None \<and> v = u \<and> (\<forall>j<length cs. j \<notin> set os \<longrightarrow> ts ! j = cs ! j) \<or>
      (\<exists>i<length cs. own m = Some i \<and> i \<notin> set os \<and> to_end m (ts ! i) \<and> erase (ts ! i) v = erase (cs ! i) u \<and>
         (\<forall>j<length cs. j \<notin> set os \<and> j \<noteq> i \<longrightarrow> ts ! j = cs ! j))"
    unfolding one_inside_def by auto
  have new: "j \<notin> set os"
    using I(6) st unfolding in_set_conv_nth by (auto simp: thread_step_def)
  have upd: "ts[j := k] ! (os ! l) = Done (as ! l)" if "l < length os" for k l
    using new I(6) that by (metis nth_list_update_neq nth_mem)
  from alt show ?thesis
  proof (elim disjE)
    assume free: "own m = None \<and> v = u \<and> (\<forall>j<length cs. j \<notin> set os \<longrightarrow> ts ! j = cs ! j)"
    obtain k where k: "cs ! j = Lock m k" "to_end m k" using sec j I(1) by auto
    with free new j st I(1) have "c = (v, own(m \<mapsto> j), ts[j := k])"
      by (auto simp: thread_step_def split: if_splits)
    with I upd free k new j show ?thesis unfolding one_inside_def
      by (auto intro!: exI [of _ os] exI [of _ as] exI [of _ u] exI [of _ j])
  next
    assume "\<exists>i<length cs. own m = Some i \<and> i \<notin> set os \<and> to_end m (ts ! i) \<and> erase (ts ! i) v = erase (cs ! i) u \<and>
         (\<forall>j<length cs. j \<notin> set os \<and> j \<noteq> i \<longrightarrow> ts ! j = cs ! j)"
    then obtain i where i: "i < length cs" "own m = Some i" "i \<notin> set os" "to_end m (ts ! i)"
        "erase (ts ! i) v = erase (cs ! i) u" "\<forall>j<length cs. j \<notin> set os \<and> j \<noteq> i \<longrightarrow> ts ! j = cs ! j" by blast
    have "j = i"
    proof (rule ccontr)
      assume "j \<noteq> i"
      with i(6) new j I(1) sec [of j] obtain k where "ts ! j = Lock m k" by auto
      with st i(2) show False by (auto simp: thread_step_def split: if_splits)
    qed
    with st have "thread_step acc i (v, own, ts) = Moved c" by simp
    with inside_step [of m ts i own acc v c] i(2,4) obtain v' own' k where c: "c = (v', own', ts[i := k])"
      and k: "own' m = Some i \<and> to_end m k \<and> erase k v' = erase (ts ! i) v \<or>
        (\<exists>a. own' m = None \<and> k = Done a \<and> erase (ts ! i) v = Ret a v')" by blast
    from k show ?thesis
    proof (elim disjE exE)
      assume "own' m = Some i \<and> to_end m k \<and> erase k v' = erase (ts ! i) v"
      with I upd i \<open>j = i\<close> show ?thesis unfolding one_inside_def c
        by (auto intro!: exI [of _ os] exI [of _ as] exI [of _ u] exI [of _ i])
    next
      fix a assume a: "own' m = None \<and> k = Done a \<and> erase (ts ! i) v = Ret a v'"
      then have "serial (map erase cs) (os @ [i]) w0 = Ret (as @ [a]) v'"
        using i(1,5) by (intro serial_snoc [OF I(5)]) simp
      with I upd i a \<open>j = i\<close> show ?thesis unfolding one_inside_def c
        by (auto simp: nth_append less_Suc_eq intro!: exI [of _ "os @ [i]"] exI [of _ "as @ [a]"] exI [of _ v'])
    qed
  qed
qed

lemma calls_serial:
  fixes cs :: "('m, 's, 'a) code list"
  assumes sec: "\<And>c. c \<in> set cs \<Longrightarrow> \<exists>k. c = Lock m k \<and> to_end m k"
    and run: "(sched acc)\<^sup>*\<^sup>* (spawned w cs) (v, own, map Done as)"
  shows "\<exists>os. distinct os \<and> set os = {..<length cs} \<and> serial (map erase cs) os w = Ret (map ((!) as) os) v"
proof -
  have "one_inside m cs w (spawned w cs)" unfolding one_inside_def spawned_def
    by (auto simp: ret_def intro!: exI [of _ "[]"])
  with run have "one_inside m cs w (v, own, map Done as)"
  proof (induction rule: rtranclp_induct)
    case (step c c')
    from step(2,3,4) show ?case by (auto elim!: sched.cases intro: one_inside_step [OF sec])
  qed
  moreover define ts :: "('m, 's, 'a) code list" where "ts = map Done as"
  ultimately obtain os rs u where os: "length ts = length cs" "distinct os" "set os \<subseteq> {..<length cs}" "length rs = length os"
      "serial (map erase cs) os w = Ret rs u" "\<And>j. j < length os \<Longrightarrow> ts ! (os ! j) = Done (rs ! j)"
    and alt: "v = u \<and> (\<forall>j<length cs. j \<notin> set os \<longrightarrow> ts ! j = cs ! j) \<or> (\<exists>i<length cs. to_end m (ts ! i))"
    unfolding one_inside_def by auto
  have "\<not> to_end m (ts ! i)" if "i < length cs" for i
    using that os(1) by (auto simp: ts_def elim: to_end_DoneE)
  moreover have "ts ! j \<noteq> cs ! j" if "j < length cs" for j
    using that sec [of "cs ! j"] os(1) by (auto simp: ts_def)
  ultimately have "set os = {..<length cs}" "v = u" using alt os(3) by auto
  moreover have "rs = map ((!) as) os" using os by (intro nth_equalityI) (auto simp: subset_iff ts_def)
  ultimately show ?thesis using os(2,5) by blast
qed

section \<open>Writes under a mutex\<close>

text \<open>
  \<open>guards obs m h h' c\<close>: started with \<open>m\<close> held (\<open>h\<close>) or not, \<open>c\<close> ends with \<open>m\<close> held or not (\<open>h'\<close>) and changes the part
  \<open>obs\<close> of the state only while it holds \<open>m\<close>.
\<close>

inductive guards :: "('s \<Rightarrow> 'o) \<Rightarrow> 'm \<Rightarrow> bool \<Rightarrow> bool \<Rightarrow> ('m, 's, 'a) code \<Rightarrow> bool" for obs m h' where
  guards_Done: "guards obs m h' h' (Done a)"
| guards_Leave: "guards obs m h' h (Leave c)"
| guards_Lock: "guards obs m h' (h \<or> n = m) k \<Longrightarrow> guards obs m h' h (Lock n k)"
| guards_Unlock: "guards obs m h' (h \<and> n \<noteq> m) k \<Longrightarrow> guards obs m h' h (Unlock n k)"
| guards_Act: "(\<And>w k w'. p w = Ret k w' \<Longrightarrow> guards obs m h' h k \<and> (h \<or> obs w' = obs w)) \<Longrightarrow>
    (\<And>w c w'. p w = Exit c w' \<Longrightarrow> h \<or> obs w' = obs w) \<Longrightarrow> guards obs m h' h (Act p)"

inductive_cases guards_LockE: "guards obs m h' h (Lock n k)"
inductive_cases guards_UnlockE: "guards obs m h' h (Unlock n k)"
inductive_cases guards_ActE: "guards obs m h' h (Act p)"

named_theorems guards_rules \<open>code that changes a part of the state under its mutex only\<close>

lemma guards_bind:
  assumes "guards obs m h1 h k" and "\<And>a. guards obs m h2 h1 (f a)"
  shows "guards obs m h2 h (bindC k f)"
  using assms(1)
proof (induction rule: guards.induct)
  case (guards_Act p h)
  show ?case unfolding bindC.simps
    by (rule guards.guards_Act) (use guards_Act in \<open>auto simp: map_Ret map_Exit\<close>)
qed (auto intro: guards.intros assms(2))

lemmas guards_seq [guards_rules] = guards_bind [of obs m False False _ False] for obs m

lemma guards_held: "avoids m k \<Longrightarrow> guards obs m True True k"
  by (induction rule: avoids.induct) (auto intro: guards.intros)

lemma guards_release: "n = m \<or> \<not> h \<Longrightarrow> guards obs m False h (Unlock n (Done a))"
  by (rule guards_Unlock) (auto intro: guards_Done)

lemma guards_locked: "avoids m body \<Longrightarrow> guards obs m False False (LOCK_WITH_DEFER m body)"
  unfolding LOCK_WITH_DEFER_def
  by (rule guards_Lock, rule guards_bind [where ?h1.0 = True]) (auto intro: guards_held guards_release)

lemma guards_other [guards_rules]:
  "n \<noteq> m \<Longrightarrow> guards obs m False False body \<Longrightarrow> guards obs m False False (LOCK_WITH_DEFER n body)"
  unfolding LOCK_WITH_DEFER_def
  by (rule guards_Lock, rule guards_bind [where ?h1.0 = False]) (auto intro: guards_release)

lemma guards_for [guards_rules]: "(\<And>x. guards obs m False False (f x)) \<Longrightarrow> guards obs m False False (forC xs f)"
  by (induction xs) (auto intro: guards_seq guards_Done)

text \<open>Each thread that may change the part of the state owns the mutex.\<close>

definition guards_ok :: "('s \<Rightarrow> 'o) \<Rightarrow> 'm \<Rightarrow> ('m, 's, 'a) config \<Rightarrow> bool" where
  "guards_ok obs m = (\<lambda>(w, own, ts). \<forall>i<length ts. \<exists>h h'. guards obs m h' h (ts ! i) \<and> (h \<longrightarrow> own m = Some i))"

lemma guards_step:
  assumes g: "guards obs m h' h (ts ! i)" "h \<longrightarrow> own m = Some i"
    and st: "thread_step acc i (w, own, ts) = Moved (w', own', ts')"
  shows "\<exists>k h1. ts' = ts[i := k] \<and> guards obs m h' h1 k \<and> (h1 \<longrightarrow> own' m = Some i) \<and>
     (obs w' = obs w \<or> own m = Some i) \<and> (\<forall>j. j \<noteq> i \<longrightarrow> own m = Some j \<longrightarrow> own' m = Some j)"
proof (cases "ts ! i")
  case (Lock n k)
  with st have "w' = w" "own' = own(n \<mapsto> i)" "ts' = ts[i := k]" "own n = None" by (auto simp: thread_step_def split: if_splits)
  moreover from g(1) Lock have "guards obs m h' (h \<or> n = m) k" by (auto elim: guards_LockE)
  ultimately show ?thesis using g(2) by (intro exI [of _ k] exI [of _ "h \<or> n = m"]) auto
next
  case (Unlock n k)
  with st have "w' = w" "own' = own(n := None)" "ts' = ts[i := k]" "own n = Some i" by (auto simp: thread_step_def split: if_splits)
  moreover from g(1) Unlock have "guards obs m h' (h \<and> n \<noteq> m) k" by (auto elim: guards_UnlockE)
  ultimately show ?thesis using g(2) by (intro exI [of _ k] exI [of _ "h \<and> n \<noteq> m"]) auto
next
  case (Act p)
  with g(1) have "p w = Ret k w' \<Longrightarrow> guards obs m h' h k \<and> (h \<or> obs w' = obs w)" "p w = Exit c w' \<Longrightarrow> h \<or> obs w' = obs w" for k c
    by (auto elim: guards_ActE) (blast elim: guards_ActE)+
  with Act st g(2) show ?thesis
    by (auto simp: thread_step_def split: outcome.splits intro: guards_Leave)
qed (use st in \<open>simp_all add: thread_step_def\<close>)

lemma guards_ok_step:
  assumes ok: "guards_ok obs m (w, own, ts)" and i: "i < length ts"
    and st: "thread_step acc i (w, own, ts) = Moved (w', own', ts')"
  shows "guards_ok obs m (w', own', ts') \<and> (obs w' = obs w \<or> own m = Some i)"
proof -
  from ok i obtain h h' where "guards obs m h' h (ts ! i)" "h \<longrightarrow> own m = Some i" unfolding guards_ok_def by auto
  from guards_step [OF this st] obtain k h1 where k: "ts' = ts[i := k]" "guards obs m h' h1 k" "h1 \<longrightarrow> own' m = Some i"
      "obs w' = obs w \<or> own m = Some i" "\<forall>j. j \<noteq> i \<longrightarrow> own m = Some j \<longrightarrow> own' m = Some j" by blast
  have "\<exists>h h'. guards obs m h' h (ts' ! j) \<and> (h \<longrightarrow> own' m = Some j)" if "j < length ts'" for j
  proof (cases "j = i")
    case False
    from ok that k(1) obtain h2 h3 where "guards obs m h3 h2 (ts ! j)" "h2 \<longrightarrow> own m = Some j" unfolding guards_ok_def by auto
    with False k(1,5) show ?thesis by auto
  qed (use k i in auto)
  with k(4) show ?thesis unfolding guards_ok_def by auto
qed

lemma guarded_writes:
  assumes start: "\<And>c. c \<in> set cs \<Longrightarrow> guards obs m False False c" and run: "(sched acc)\<^sup>*\<^sup>* (spawned w cs) (v, own, ts)"
    and st: "i < length ts" "thread_step acc i (v, own, ts) = Moved (v', own', ts')" "obs v' \<noteq> obs v"
  shows "own m = Some i"
proof -
  have "guards_ok obs m (spawned w cs)" using start unfolding guards_ok_def spawned_def by auto (metis nth_mem)
  with run have "guards_ok obs m (v, own, ts)"
  proof (induction rule: rtranclp_induct)
    case (step c c')
    obtain w' own' ts' where "c' = (w', own', ts')" by (cases c') auto
    with step show ?case by (auto elim!: sched.cases dest: guards_ok_step)
  qed
  from guards_ok_step [OF this st(1,2)] st(3) show ?thesis by blast
qed

end
