(* ===== verification/Tux_FDLocks.thy ===== *)
theory Tux_FDLocks
  imports Tux_FD Tux_Locks
begin

text \<open>
  \<^verbatim>\<open>src/fd.c\<close> with its mutexes: the functions of \<open>Tux_FD\<close> cut into the steps between which other threads run.  A read and a
  write of the reference count are two steps.
\<close>

section \<open>Mutexes\<close>

text \<open>A mutex is a member of a process or of a file and is named by the object it is in.\<close>

datatype mutex = Lk_fdtable ptr | Lk_refs ptr | Lk_brk ptr | Lk_as ptr

fun mutex_live :: "mutex \<Rightarrow> ('x, 'z) tuxw_scheme \<Rightarrow> bool" where
  "mutex_live (Lk_refs f) w = (fdfiles w f \<noteq> None)"
| "mutex_live (Lk_fdtable p) w = (procs w p \<noteq> None)"
| "mutex_live (Lk_brk p) w = (procs w p \<noteq> None)"
| "mutex_live (Lk_as p) w = (procs w p \<noteq> None)"

text \<open>The order in which the code takes them: tables and breaks before counts and address spaces.\<close>

fun mutex_rank :: "mutex \<Rightarrow> nat" where
  "mutex_rank (Lk_fdtable p) = 0"
| "mutex_rank (Lk_brk p) = 0"
| "mutex_rank (Lk_refs f) = 1"
| "mutex_rank (Lk_as p) = 1"

type_synonym ('x, 'z, 'a) tcode = "(mutex, ('x, 'z) tuxw_scheme, 'a) code"

section \<open>\<^verbatim>\<open>fd.c\<close>\<close>

definition ref_load :: "ptr \<Rightarrow> ('x, 'z, u64) tcode" where
  "ref_load f = act (bindM (deref fdfiles f) (\<lambda>v. ret (refs v)))"

definition ref_store :: "ptr \<Rightarrow> u64 \<Rightarrow> ('x, 'z, unit) tcode" where
  "ref_store f n = act (set_fdfile f (\<lambda>v. v\<lparr>refs := n\<rparr>))"

definition table_load :: "ptr \<Rightarrow> ('x, 'z, ptr list) tcode" where
  "table_load t = act (bindM (deref procs t) (\<lambda>pr. ret (ft_files (fdtable pr))))"

definition slot_store :: "ptr \<Rightarrow> int \<Rightarrow> ptr \<Rightarrow> (('x, 'z) tuxw_scheme, unit) prog" where
  "slot_store t fd f = set_proc t (\<lambda>p. p\<lparr>fdtable := \<lparr>ft_files = (ft_files (fdtable p))[nat fd := f]\<rparr>\<rparr>)"

definition fdassign_lk :: "ptr \<Rightarrow> int \<Rightarrow> ptr \<Rightarrow> ('x, 'z, unit) tcode" where
  "fdassign_lk t fd ff =
     LOCK_WITH_DEFER (Lk_fdtable t) (LOCK_WITH_DEFER (Lk_refs ff) (
     bindC (ref_load ff) (\<lambda>n.
     bindC (ref_store ff (n + 1)) (\<lambda>_.
     act (if 0 \<le> fd \<and> fd < int TUX_NOFILE then slot_store t fd ff else raise OutOfBounds)))))"

definition fdalloc_lk :: "ptr \<Rightarrow> ('x, 'z, int) tcode" where
  "fdalloc_lk t =
     LOCK_WITH_DEFER (Lk_fdtable t) (
     bindC (table_load t) (\<lambda>fs.
     let i = fdalloc_loop fs 0 in Done (if i \<ge> int TUX_NOFILE then - 1 else i)))"

definition fdget_lk :: "ptr \<Rightarrow> int \<Rightarrow> ('x, 'z, ptr) tcode" where
  "fdget_lk t fd =
     LOCK_WITH_DEFER (Lk_fdtable t) (
     bindC (table_load t) (\<lambda>fs. Done (if fdhas_x fs fd then fs ! nat fd else NULL)))"

definition fdhas_lk :: "ptr \<Rightarrow> int \<Rightarrow> ('x, 'z, bool) tcode" where
  "fdhas_lk t fd = LOCK_WITH_DEFER (Lk_fdtable t) (bindC (table_load t) (\<lambda>fs. Done (fdhas_x fs fd)))"

definition fdrelease_lk :: "('x, 'e) tuxenv_scheme \<Rightarrow> ptr \<Rightarrow> ptr \<Rightarrow> ('x, 'z, unit) tcode" where
  "fdrelease_lk P f p =
     LOCK_WITH_DEFER (Lk_refs f) (
     bindC (ref_load f) (\<lambda>n.
     bindC (ref_store f (n - 1)) (\<lambda>_.
     bindC (act (deref fdfiles f)) (\<lambda>v.
     if refs v = 0 then
       bindC (act (case ff_close v of None \<Rightarrow> ret 0 | Some fn \<Rightarrow> call_close P fn (dev v))) (\<lambda>_.
       act (modifyM (\<lambda>w. w\<lparr>fdfiles := (fdfiles w)(f := None)\<rparr>)))
     else Done ()))))"

definition fdremove_x_lk :: "('x, 'e) tuxenv_scheme \<Rightarrow> ptr \<Rightarrow> int \<Rightarrow> ptr \<Rightarrow> ('x, 'z, bool) tcode" where
  "fdremove_x_lk P t fd p =
     bindC (table_load t) (\<lambda>fs.
     if fdhas_x fs fd then
       bindC (fdrelease_lk P (fs ! nat fd) p) (\<lambda>_.
       bindC (act (slot_store t fd NULL)) (\<lambda>_.
       Done True))
     else Done False)"

definition fdremove_lk :: "('x, 'e) tuxenv_scheme \<Rightarrow> ptr \<Rightarrow> int \<Rightarrow> ptr \<Rightarrow> ('x, 'z, bool) tcode" where
  "fdremove_lk P t fd p = LOCK_WITH_DEFER (Lk_fdtable t) (fdremove_x_lk P t fd p)"

definition fdclear_lk :: "('x, 'e) tuxenv_scheme \<Rightarrow> ptr \<Rightarrow> ptr \<Rightarrow> ('x, 'z, unit) tcode" where
  "fdclear_lk P t p =
     LOCK_WITH_DEFER (Lk_fdtable t) (
     forC (map int [0..<TUX_NOFILE]) (\<lambda>fd. bindC (fdremove_x_lk P t fd p) (\<lambda>_. Done ())))"

section \<open>The locks erased\<close>

lemma bindM_assoc: "bindM (bindM m f) g = bindM m (\<lambda>x. bindM (f x) g)"
  by (rule ext) (simp add: bindM_def split: outcome.split)

lemma bindM_unit [simp]: "bindM (ret x) f = f x" "bindM m ret = m"
  by (auto simp: bindM_def ret_def fun_eq_iff split: outcome.split)

lemma bindM_deref_same: "bindM (deref sel a) (\<lambda>v. bindM (deref sel a) (f v)) = bindM (deref sel a) (\<lambda>v. f v v)"
  by (auto simp: bindM_def deref_def fun_eq_iff split: option.split)

lemma erase_if: "erase (if b then c else d) = (if b then erase c else erase d)"
  by simp

lemma erase_option: "erase (case x of None \<Rightarrow> c | Some y \<Rightarrow> f y) = (case x of None \<Rightarrow> erase c | Some y \<Rightarrow> erase (f y))"
  by (cases x) simp_all

lemma erase_sum: "erase (case x of Inl e \<Rightarrow> f e | Inr y \<Rightarrow> g y) = (case x of Inl e \<Rightarrow> erase (f e) | Inr y \<Rightarrow> erase (g y))"
  by (cases x) simp_all

lemma erase_prod: "erase (case x of (a, b) \<Rightarrow> f a b) = (case x of (a, b) \<Rightarrow> erase (f a b))"
  by (cases x) simp

lemma erase_ref: "bindM (bindM (deref fdfiles f) (\<lambda>v. ret (refs v))) (\<lambda>n. bindM (set_fdfile f (\<lambda>v. v\<lparr>refs := g n\<rparr>)) k) =
  bindM (set_fdfile f (\<lambda>v. v\<lparr>refs := g (refs v)\<rparr>)) k"
  by (simp add: set_fdfile_def bindM_assoc bindM_deref_same)

lemma erase_fdassign: "erase (fdassign_lk t fd ff) = fdassign t fd ff"
  by (simp add: fdassign_lk_def fdassign_def ref_load_def ref_store_def slot_store_def erase_rules erase_ref)

lemma erase_fdalloc: "erase (fdalloc_lk t) = fdalloc t"
  and erase_fdget: "erase (fdget_lk t fd) = fdget t fd"
  and erase_fdhas: "erase (fdhas_lk t fd) = fdhas t fd"
  by (simp_all add: fdalloc_lk_def fdalloc_def fdget_lk_def fdget_def fdhas_lk_def fdhas_def table_load_def erase_rules
      bindM_assoc Let_def)

lemma erase_fdrelease: "erase (fdrelease_lk P f p) = fdrelease P f p"
  by (simp add: fdrelease_lk_def fdrelease_def ref_load_def ref_store_def erase_rules erase_if erase_ref cong: if_cong)

lemma erase_fdremove_x: "erase (fdremove_x_lk P t fd p) = fdremove_x P t fd p"
  by (simp add: fdremove_x_lk_def fdremove_x_def table_load_def slot_store_def erase_rules erase_if erase_fdrelease bindM_assoc cong: if_cong)

lemma erase_fdremove: "erase (fdremove_lk P t fd p) = fdremove P t fd p"
  and erase_fdclear: "erase (fdclear_lk P t p) = fdclear P t p"
  by (simp_all add: fdremove_lk_def fdremove_def fdclear_lk_def fdclear_def erase_rules erase_fdremove_x)

lemmas erase_fd = erase_fdassign erase_fdalloc erase_fdget erase_fdhas erase_fdrelease erase_fdremove erase_fdclear

section \<open>Lock order\<close>

lemma no_exit_basic [obeys_rules, avoids_rules]:
  "no_exit (ret x)" "no_exit (raise e)" "no_exit (gets g)" "no_exit (modifyM h)" "no_exit (deref sel a)"
  by (auto simp: no_exit_def ret_def raise_def gets_def modifyM_def deref_def split: option.split)

lemma no_exit_bind [obeys_rules, avoids_rules]: "no_exit m \<Longrightarrow> (\<And>x. no_exit (f x)) \<Longrightarrow> no_exit (bindM m f)"
  by (auto simp: no_exit_def bindM_def split: outcome.split)

lemma no_exit_if [obeys_rules, avoids_rules]: "no_exit m \<Longrightarrow> no_exit n \<Longrightarrow> no_exit (if b then m else n)"
  by simp

lemma no_exit_option [obeys_rules, avoids_rules]:
  "no_exit m \<Longrightarrow> (\<And>y. no_exit (f y)) \<Longrightarrow> no_exit (case x of None \<Rightarrow> m | Some y \<Rightarrow> f y)"
  by (cases x) simp_all

lemma no_exit_stores [obeys_rules, avoids_rules]:
  "no_exit (set_fdfile a g)" "no_exit (set_proc b h)" "no_exit (slot_store t fd f)" "no_exit (kcall k)"
  "no_exit (set_hostfile c hf)" "no_exit (free_hostfile c)"
  unfolding set_fdfile_def set_proc_def slot_store_def set_hostfile_def free_hostfile_def
  by (auto simp: no_exit_def kcall_def modifyM_def raise_def bindM_def deref_def ret_def split: prod.split option.split)

lemma no_exit_close [obeys_rules, avoids_rules]: "no_exit (call_close P fn d)"
  unfolding call_close_def fileclose_def filef_def host_close_def return_tuxerr_def
  by (cases fn) (simp, intro obeys_rules)

lemma obeys_DoneI [obeys_rules]: "obeys rank hs hs (Done a)"
  by (rule obeys_Done)

lemma obeys_if [obeys_rules]: "obeys rank hs hs' c \<Longrightarrow> obeys rank hs hs' d \<Longrightarrow> obeys rank hs hs' (if b then c else d)"
  by simp

lemma obeys_option [obeys_rules]:
  "obeys rank hs hs' c \<Longrightarrow> (\<And>y. obeys rank hs hs' (f y)) \<Longrightarrow> obeys rank hs hs' (case x of None \<Rightarrow> c | Some y \<Rightarrow> f y)"
  by (cases x) simp_all

lemma avoids_DoneI [avoids_rules]: "avoids m (Done a)"
  by (rule avoids_Done)

lemma avoids_if [avoids_rules]: "avoids m c \<Longrightarrow> avoids m d \<Longrightarrow> avoids m (if b then c else d)"
  by simp

lemma obeys_cells [obeys_rules]:
  "obeys rank hs hs (ref_load f)" "obeys rank hs hs (ref_store f n)" "obeys rank hs hs (table_load t)"
  unfolding ref_load_def ref_store_def table_load_def by (intro obeys_rules)+

lemma obeys_fdassign [obeys_rules]: "obeys mutex_rank [] [] (fdassign_lk t fd ff)"
  unfolding fdassign_lk_def by (intro obeys_rules; simp)

lemma obeys_table_reads [obeys_rules]:
  "obeys mutex_rank [] [] (fdalloc_lk t)" "obeys mutex_rank [] [] (fdget_lk t fd)" "obeys mutex_rank [] [] (fdhas_lk t fd)"
  unfolding fdalloc_lk_def fdget_lk_def fdhas_lk_def Let_def by (intro obeys_rules; simp)+

lemma obeys_fdrelease [obeys_rules]:
  "\<forall>h\<in>set hs. mutex_rank h = 0 \<Longrightarrow> obeys mutex_rank hs hs (fdrelease_lk P f p)"
  unfolding fdrelease_lk_def by (intro obeys_rules) simp

lemma obeys_fdremove_x [obeys_rules]:
  "\<forall>h\<in>set hs. mutex_rank h = 0 \<Longrightarrow> obeys mutex_rank hs hs (fdremove_x_lk P t fd p)"
  unfolding fdremove_x_lk_def by (intro obeys_rules) simp

lemma obeys_removals [obeys_rules]:
  "obeys mutex_rank [] [] (fdremove_lk P t fd p)" "obeys mutex_rank [] [] (fdclear_lk P t p)"
  unfolding fdremove_lk_def fdclear_lk_def by (intro obeys_rules; simp)+

section \<open>Calls on one table\<close>

lemma avoids_cells [avoids_rules]:
  "avoids m (ref_load f)" "avoids m (ref_store f n)" "avoids m (table_load t)"
  unfolding ref_load_def ref_store_def table_load_def by (intro avoids_rules)+

lemma avoids_fdrelease [avoids_rules]: "avoids (Lk_fdtable t) (fdrelease_lk P f p)"
  unfolding fdrelease_lk_def by (intro avoids_rules; simp)

lemma avoids_fdremove_x [avoids_rules]: "avoids (Lk_fdtable t) (fdremove_x_lk P q fd p)"
  unfolding fdremove_x_lk_def by (intro avoids_rules)

datatype fd_call = Assign int ptr | Alloc | Get int | Has int | Remove int | Clear

datatype fd_result = RUnit | RInt int | RPtr ptr | RBool bool

fun fd_code :: "('x, 'e) tuxenv_scheme \<Rightarrow> ptr \<Rightarrow> fd_call \<Rightarrow> ('x, 'z, fd_result) tcode" where
  "fd_code P t (Assign fd ff) = bindC (fdassign_lk t fd ff) (\<lambda>_. Done RUnit)"
| "fd_code P t Alloc = bindC (fdalloc_lk t) (\<lambda>i. Done (RInt i))"
| "fd_code P t (Get fd) = bindC (fdget_lk t fd) (\<lambda>f. Done (RPtr f))"
| "fd_code P t (Has fd) = bindC (fdhas_lk t fd) (\<lambda>b. Done (RBool b))"
| "fd_code P t (Remove fd) = bindC (fdremove_lk P t fd t) (\<lambda>b. Done (RBool b))"
| "fd_code P t Clear = bindC (fdclear_lk P t t) (\<lambda>_. Done RUnit)"

fun fd_prog :: "('x, 'e) tuxenv_scheme \<Rightarrow> ptr \<Rightarrow> fd_call \<Rightarrow> (('x, 'z) tuxw_scheme, fd_result) prog" where
  "fd_prog P t (Assign fd ff) = bindM (fdassign t fd ff) (\<lambda>_. ret RUnit)"
| "fd_prog P t Alloc = bindM (fdalloc t) (\<lambda>i. ret (RInt i))"
| "fd_prog P t (Get fd) = bindM (fdget t fd) (\<lambda>f. ret (RPtr f))"
| "fd_prog P t (Has fd) = bindM (fdhas t fd) (\<lambda>b. ret (RBool b))"
| "fd_prog P t (Remove fd) = bindM (fdremove P t fd t) (\<lambda>b. ret (RBool b))"
| "fd_prog P t Clear = bindM (fdclear P t t) (\<lambda>_. ret RUnit)"

lemma erase_fd_code: "erase (fd_code P t c) = fd_prog P t c"
  by (cases c) (simp_all add: erase_bindC erase_fd)

lemma to_end_result: "to_end m k \<Longrightarrow> to_end m (bindC k (\<lambda>r. Done (g r)))"
  by (induction rule: to_end.induct) (auto intro!: to_end.intros simp: map_Ret map_Exit)

lemma to_end_call:
  assumes "avoids m body"
  shows "\<exists>k. bindC (LOCK_WITH_DEFER m body) (\<lambda>r. Done (g r)) = Lock m k \<and> to_end m k"
  using to_end_locked [OF assms] to_end_result by fastforce

lemma fd_code_section: "\<exists>k. fd_code P t c = Lock (Lk_fdtable t) k \<and> to_end (Lk_fdtable t) k"
  by (cases c; simp only: fd_code.simps fdassign_lk_def fdalloc_lk_def fdget_lk_def fdhas_lk_def fdremove_lk_def fdclear_lk_def Let_def;
      intro to_end_call avoids_rules; simp?)

text \<open>C7. The calls on one descriptor table are atomic.  Whatever the interleaving of any number of threads that call \<^verbatim>\<open>fdassign\<close>,
  \<^verbatim>\<open>fdalloc\<close>, \<^verbatim>\<open>fdget\<close>, \<^verbatim>\<open>fdhas\<close>, \<^verbatim>\<open>fdremove\<close> and \<^verbatim>\<open>fdclear\<close> on the same table, step by step with its mutexes, once all have returned the
  results and the state are those of the functions without mutexes, run one after the other in some order.\<close>

theorem table_calls_serial:
  assumes "(sched acc)\<^sup>*\<^sup>* (spawned w (map (fd_code P t) cs)) (v, own, map Done rs)"
  shows "\<exists>os. distinct os \<and> set os = {..<length cs} \<and> serial (map (fd_prog P t) cs) os w = Ret (map ((!) rs) os) v"
proof -
  have e: "map erase (map (fd_code P t) cs) = map (fd_prog P t) cs" by (simp add: erase_fd_code)
  have "\<exists>k. c = Lock (Lk_fdtable t) k \<and> to_end (Lk_fdtable t) k" if "c \<in> set (map (fd_code P t) cs)" for c
    using that fd_code_section by auto
  from calls_serial [OF this assms] show ?thesis unfolding e by simp
qed

section \<open>The last release\<close>

lemmas exec_simps = thread_step_def spawned_def act_def LOCK_WITH_DEFER_def ref_load_def ref_store_def table_load_def
  bindM_def ret_def deref_def set_fdfile_def set_proc_def modifyM_def

lemma last_release_run:
  assumes "f \<noteq> NULL" "fdfiles w f = Some v" "refs v = 1" "fdrelease P f p w = Ret () w'"
  shows "run_schedule mutex_live (replicate 6 0) (spawned w [fdrelease_lk P f p]) =
      Moved (w', [Lk_refs f \<mapsto> 0], [Unlock (Lk_refs f) (Done ())]) \<and> fdfiles w' f = None"
  using assms
  by (auto simp: exec_simps fdrelease_lk_def fdrelease_def numeral_eq_Suc split: outcome.splits option.splits)

text \<open>C38. The last release of a file gives back a mutex it has freed.  A single thread that releases the last reference, and closes
  and frees the file with success, comes to the deferred unlock of \<^verbatim>\<open>lk_refs\<close>, which lies in the freed file: undefined
  behaviour, in every close of a file with one descriptor.\<close>

theorem last_release_breaks:
  assumes "f \<noteq> NULL" "fdfiles w f = Some v" "refs v = 1" "fdrelease P f p w = Ret () w'"
  shows "\<exists>c. (sched mutex_live)\<^sup>*\<^sup>* (spawned w [fdrelease_lk P f p]) c \<and> fst c = w' \<and> fdfiles w' f = None \<and>
     thread_step mutex_live 0 c = Broken Dangling"
proof -
  note r = last_release_run [OF assms]
  have "thread_step mutex_live 0 (w', [Lk_refs f \<mapsto> 0], [Unlock (Lk_refs f) (Done ())]) = Broken Dangling"
    using r by (simp add: thread_step_def)
  then show ?thesis using r run_schedule_sched by fastforce
qed

section \<open>Two opens at once\<close>

text \<open>The end of \<^verbatim>\<open>sys_openat\<close>: a slot for the new file \<open>f\<close>.\<close>

definition open_slot_lk :: "('x, 'e) tuxenv_scheme \<Rightarrow> ptr \<Rightarrow> ptr \<Rightarrow> ('x, 'z, int) tcode" where
  "open_slot_lk P p f =
     bindC (fdalloc_lk p) (\<lambda>fd.
     if fd < 0 then bindC (fdrelease_lk P f p) (\<lambda>_. Done (- TUX_EMFILE))
     else bindC (fdassign_lk p fd f) (\<lambda>_. Done fd))"

lemma fdalloc_run:
  assumes "i < length ts" "ts ! i = bindC (fdalloc_lk t) k" "own (Lk_fdtable t) = None"
    and "t \<noteq> NULL" "fdalloc t w = Ret fd w"
  shows "run_schedule mutex_live (replicate 3 i) (w, own, ts) = Moved (w, own, ts[i := k fd])"
  using assms
  by (auto simp: exec_simps fdalloc_lk_def fdalloc_def numeral_eq_Suc Let_def fun_upd_idem split: option.splits)

lemma fdassign_run:
  assumes "i < length ts" "ts ! i = bindC (fdassign_lk t fd ff) k" "own (Lk_fdtable t) = None" "own (Lk_refs ff) = None"
    and "t \<noteq> NULL" "procs w t = Some pr" "fdassign t fd ff w = Ret () w'"
  shows "run_schedule mutex_live (replicate 7 i) (w, own, ts) = Moved (w', own, ts[i := k ()])"
  using assms
  by (auto simp: exec_simps fdassign_lk_def fdassign_def slot_store_def numeral_eq_Suc fun_upd_idem raise_def
     split: option.splits if_splits)

lemma fdassign_result:
  assumes "t \<noteq> NULL" "procs w t = Some pr" "0 \<le> fd" "fd < int TUX_NOFILE" "f \<noteq> NULL" "fdfiles w f = Some v"
  shows "fdassign t fd f w = Ret () (w\<lparr>fdfiles := (fdfiles w)(f \<mapsto> v\<lparr>refs := refs v + 1\<rparr>),
     procs := (procs w)(t \<mapsto> pr\<lparr>fdtable := \<lparr>ft_files = (ft_files (fdtable pr))[nat fd := f]\<rparr>\<rparr>)\<rparr>)"
  using assms by (simp add: fdassign_def set_fdfile_def set_proc_def run_simps)

lemma fdalloc_result:
  assumes "t \<noteq> NULL" "procs w t = Some pr" "length (ft_files (fdtable pr)) = TUX_NOFILE" "NULL \<in> set (ft_files (fdtable pr))"
  shows "fdalloc t w = Ret (fdalloc_loop (ft_files (fdtable pr)) 0) w \<and> 0 \<le> fdalloc_loop (ft_files (fdtable pr)) 0 \<and>
     fdalloc_loop (ft_files (fdtable pr)) 0 < int TUX_NOFILE"
proof -
  have "length (takeWhile (\<lambda>f. f \<noteq> NULL) (ft_files (fdtable pr))) < TUX_NOFILE"
    using assms(3,4) length_takeWhile_le [of "\<lambda>f. f \<noteq> NULL" "ft_files (fdtable pr)"]
      takeWhile_eq_all_conv [of "\<lambda>f. f \<noteq> NULL" "ft_files (fdtable pr)"]
      takeWhile_eq_take [of "\<lambda>f. f \<noteq> NULL" "ft_files (fdtable pr)"]
    by (metis le_neq_implies_less take_all_iff)
  then show ?thesis using assms by (simp add: fdalloc_def run_simps Let_def fdalloc_loop_spec)
qed

text \<open>C37. Two opens at once can get the same descriptor.  \<^verbatim>\<open>fdalloc\<close> and \<^verbatim>\<open>fdassign\<close> lock the table one after the other, so from every state
  with a free slot and two new files there is an interleaving of two threads after which both return the same
  number, the slot holds the second file, and the first one has a reference that nothing holds.\<close>

theorem open_race:
  assumes "t \<noteq> NULL" "procs w t = Some pr" "length (ft_files (fdtable pr)) = TUX_NOFILE" "NULL \<in> set (ft_files (fdtable pr))"
    and "f \<noteq> NULL" "fdfiles w f = Some v" "g \<noteq> NULL" "fdfiles w g = Some u" "f \<noteq> g" "f \<notin> set (ft_files (fdtable pr))"
  shows "\<exists>w' own fd pr'. (sched mutex_live)\<^sup>*\<^sup>* (spawned w [open_slot_lk P t f, open_slot_lk P t g]) (w', own, [Done fd, Done fd]) \<and>
     fdfiles w' f = Some (v\<lparr>refs := refs v + 1\<rparr>) \<and> fdfiles w' g = Some (u\<lparr>refs := refs u + 1\<rparr>) \<and>
     procs w' t = Some pr' \<and> ft_files (fdtable pr') ! nat fd = g \<and> f \<notin> set (ft_files (fdtable pr'))"
proof -
  define fd where "fd = fdalloc_loop (ft_files (fdtable pr)) 0"
  note al = fdalloc_result [OF assms(1-4), folded fd_def]
  let ?k = "\<lambda>h fd. if fd < 0 then bindC (fdrelease_lk P h t) (\<lambda>_. Done (- TUX_EMFILE)) else bindC (fdassign_lk t fd h) (\<lambda>_. Done fd)"
  let ?as = "\<lambda>h. bindC (fdassign_lk t fd h) (\<lambda>_. Done fd)"
  define w1 where "w1 = w\<lparr>fdfiles := (fdfiles w)(f \<mapsto> v\<lparr>refs := refs v + 1\<rparr>),
     procs := (procs w)(t \<mapsto> pr\<lparr>fdtable := \<lparr>ft_files = (ft_files (fdtable pr))[nat fd := f]\<rparr>\<rparr>)\<rparr>"
  have a1: "fdassign t fd f w = Ret () w1" unfolding w1_def using al assms by (intro fdassign_result) auto
  obtain pr1 where p1: "procs w1 t = Some pr1" "ft_files (fdtable pr1) = (ft_files (fdtable pr))[nat fd := f]"
    and g1: "fdfiles w1 g = Some u" unfolding w1_def using assms by simp
  define w2 where "w2 = w1\<lparr>fdfiles := (fdfiles w1)(g \<mapsto> u\<lparr>refs := refs u + 1\<rparr>),
     procs := (procs w1)(t \<mapsto> pr1\<lparr>fdtable := \<lparr>ft_files = (ft_files (fdtable pr1))[nat fd := g]\<rparr>\<rparr>)\<rparr>"
  have a2: "fdassign t fd g w1 = Ret () w2" unfolding w2_def using al assms p1 g1 by (intro fdassign_result) auto
  have "run_schedule mutex_live (replicate 3 0 @ replicate 3 1 @ replicate 7 0 @ replicate 7 1)
      (spawned w [open_slot_lk P t f, open_slot_lk P t g]) = Moved (w2, Map.empty, [Done fd, Done fd])"
    unfolding run_schedule_append spawned_def open_slot_lk_def
    using al a1 a2 assms(1,2) p1(1)
    by (simp add: fdalloc_run [where k = "?k f" and fd = fd] fdalloc_run [where k = "?k g" and fd = fd and i = "Suc 0"]
        fdassign_run [where k = "\<lambda>_. Done fd" and w' = w1] fdassign_run [where k = "\<lambda>_. Done fd" and w' = w2 and i = "Suc 0"])
  from run_schedule_sched [OF this]
  have "(sched mutex_live)\<^sup>*\<^sup>* (spawned w [open_slot_lk P t f, open_slot_lk P t g]) (w2, Map.empty, [Done fd, Done fd])" .
  moreover have "fdfiles w2 f = Some (v\<lparr>refs := refs v + 1\<rparr>)" "fdfiles w2 g = Some (u\<lparr>refs := refs u + 1\<rparr>)"
    using assms unfolding w2_def w1_def by auto
  moreover have "procs w2 t = Some (pr1\<lparr>fdtable := \<lparr>ft_files = (ft_files (fdtable pr))[nat fd := g]\<rparr>\<rparr>)"
    unfolding w2_def using p1(2) by simp
  moreover have "f \<notin> set ((ft_files (fdtable pr))[nat fd := g])"
    using set_update_subset_insert [of "ft_files (fdtable pr)" "nat fd" g] assms(9,10) by auto
  moreover have "nat fd < length (ft_files (fdtable pr))" using al assms(3) by auto
  ultimately show ?thesis by (intro exI [of _ w2] exI [of _ Map.empty] exI [of _ fd] exI conjI) auto
qed

section \<open>Witnesses\<close>

definition demo_shared :: "int tuxw" where
  "demo_shared = demo_world\<lparr>hostfiles := (hostfiles demo_world)(22 \<mapsto> \<lparr>hf_fd = 7\<rparr>), files := (files demo_world)(21 \<mapsto> \<lparr>f_file = 22, f_flags = 0\<rparr>),
     fdfiles := (fdfiles demo_world)(20 \<mapsto> demo_file 21 1, 23 \<mapsto> demo_file 21 0)\<rparr>"

theorem table_calls_serial_witness:
  "\<exists>os. distinct os \<and> set os = {..<2} \<and>
     serial (map (fd_prog demo_env 14) [Alloc, Has 0]) os demo_world = Ret (map ((!) [RInt 3, RBool True]) os) demo_world"
proof -
  have "run_schedule mutex_live [1, 1, 1, 0, 0, 0] (spawned demo_world (map (fd_code demo_env 14) [Alloc, Has 0])) =
      Moved (demo_world, Map.empty, map Done [RInt 3, RBool True])"
    by (simp add: exec_simps fdalloc_lk_def fdhas_lk_def fdhas_x_def demo_proc_def Let_def fun_upd_idem fdalloc_loop_spec)
  from table_calls_serial [OF run_schedule_sched [OF this]] show ?thesis by (simp add: numeral_2_eq_2)
qed

theorem last_release_breaks_witness:
  "\<exists>w' c. (sched mutex_live)\<^sup>*\<^sup>* (spawned demo_shared [fdrelease_lk demo_env 20 14]) c \<and> fst c = w' \<and> fdfiles w' 20 = None \<and>
     thread_step mutex_live 0 c = Broken Dangling"
proof -
  have "\<exists>w'. fdrelease demo_env 20 14 demo_shared = Ret () w'"
    by (intro exI, rule fdrelease_last [where r = 0 and x = 0, of 20 _ "demo_file 21 1" "\<lparr>f_file = 22, f_flags = 0\<rparr>" "\<lparr>hf_fd = 7\<rparr>"])
      (simp_all add: demo_shared_def demo_file_def host_stdin_def host_stdout_def host_stderr_def demo_env_defs demo_status_def)
  then obtain w' where "fdrelease demo_env 20 14 demo_shared = Ret () w'" by blast
  from last_release_breaks [OF _ _ _ this, of "demo_file 21 1"] show ?thesis
    by (simp add: demo_shared_def demo_file_def) blast
qed

theorem open_race_witness:
  "\<exists>w' own fd pr'. (sched mutex_live)\<^sup>*\<^sup>* (spawned demo_shared [open_slot_lk demo_env 14 23, open_slot_lk demo_env 14 20]) (w', own, [Done fd, Done fd]) \<and>
     fdfiles w' 23 = Some (demo_file 21 1) \<and> procs w' 14 = Some pr' \<and> ft_files (fdtable pr') ! nat fd = 20 \<and> 23 \<notin> set (ft_files (fdtable pr'))"
  using open_race [of 14 demo_shared demo_proc 23 "demo_file 21 0" 20 "demo_file 21 1" demo_env]
  by (auto simp: demo_shared_def demo_proc_def demo_file_def)

end
