(* ===== verification/Tux_FileLocks.thy ===== *)
theory Tux_FileLocks
  imports Tux_SysFile Tux_FDLocks
begin

text \<open>
  The system calls of \<^verbatim>\<open>src/syscalls/sys_file.c\<close> and \<^verbatim>\<open>sys_cwd.c\<close> that go through a mutex, as code of a
  thread: every access to an object and every call of the host layer is a step of its own.
\<close>

section \<open>Reading and writing\<close>

definition getfdir_lk :: "('x, 'e) tuxenv_scheme \<Rightarrow> ptr \<Rightarrow> int \<Rightarrow> ('x, 'z, ptr) tcode" where
  "getfdir_lk P p dirfd =
     (if dirfd = TUX_AT_FDCWD then bindC (act (deref procs p)) (\<lambda>pr. Done (dir_file (cwd pr)))
      else
        bindC (fdget_lk p dirfd) (\<lambda>f.
        if f = NULL then Done NULL
        else
          bindC (act (deref fdfiles f)) (\<lambda>v.
          case ff_file v of None \<Rightarrow> Done NULL
          | Some fn \<Rightarrow>
              bindC (act (call_file fn (dev v))) (\<lambda>dir.
              bindC (act (host_isdir P dir)) (\<lambda>isdir.
              if \<not> isdir then Done NULL else Done dir)))))"

definition sys_write_lk :: "('x, 'e) tuxenv_scheme \<Rightarrow> ptr \<Rightarrow> int \<Rightarrow> u64 \<Rightarrow> u64 \<Rightarrow> ('x, 'z, int) tcode" where
  "sys_write_lk P p fd bufp sz =
     (if sz = 0 then Done 0
      else
        bindC (fdget_lk p fd) (\<lambda>f.
        if f = NULL then Done (- TUX_EBADF)
        else
          bindC (act (deref fdfiles f)) (\<lambda>v.
          case ff_write v of None \<Rightarrow> Done (- TUX_EPERM)
          | Some fn \<Rightarrow>
              bindC (act (procbuf p bufp sz)) (\<lambda>buf.
              if buf = 0 then Done (- TUX_EFAULT)
              else act (call_write P fn (dev v) buf sz)))))"

definition sys_read_lk :: "('x, 'e) tuxenv_scheme \<Rightarrow> ptr \<Rightarrow> int \<Rightarrow> u64 \<Rightarrow> u64 \<Rightarrow> ('x, 'z, int) tcode" where
  "sys_read_lk P p fd bufp sz =
     (if sz = 0 then Done 0
      else
        bindC (fdget_lk p fd) (\<lambda>f.
        if f = NULL then Done (- TUX_EBADF)
        else
          bindC (act (deref fdfiles f)) (\<lambda>v.
          case ff_read v of None \<Rightarrow> Done (- TUX_EPERM)
          | Some fn \<Rightarrow>
              bindC (act (procbuf p bufp sz)) (\<lambda>buf.
              if buf = 0 then Done (- TUX_EFAULT)
              else act (call_read P fn (dev v) buf sz)))))"

fun iov_loop_lk :: "(u64 \<Rightarrow> u64 \<Rightarrow> ('x, 'z, int) tcode) \<Rightarrow> u64 \<Rightarrow> nat \<Rightarrow> int \<Rightarrow> ('x, 'z, int) tcode" where
  "iov_loop_lk f iov 0 tot = Done tot"
| "iov_loop_lk f iov (Suc n) tot =
     bindC (act (gets (\<lambda>w. iov_at (mem w) iov))) (\<lambda>v.
     bindC (f (fst v) (snd v)) (\<lambda>r.
     if r < 0 then Done r
     else iov_loop_lk f (iov + 16) n (add_ssize tot r)))"

definition sys_writev_lk :: "('x, 'e) tuxenv_scheme \<Rightarrow> ptr \<Rightarrow> int \<Rightarrow> u64 \<Rightarrow> u64 \<Rightarrow> ('x, 'z, int) tcode" where
  "sys_writev_lk P p fd iovp iovcnt =
     bindC (act (procbufalign p iovp (iovcnt * 16) 8)) (\<lambda>iov.
     if iov = 0 then Done (- TUX_EFAULT)
     else iov_loop_lk (sys_write_lk P p fd) iov (unat iovcnt) 0)"

definition sys_readv_lk :: "('x, 'e) tuxenv_scheme \<Rightarrow> ptr \<Rightarrow> int \<Rightarrow> u64 \<Rightarrow> u64 \<Rightarrow> ('x, 'z, int) tcode" where
  "sys_readv_lk P p fd iovp iovcnt =
     bindC (act (procbufalign p iovp (iovcnt * 16) 8)) (\<lambda>iov.
     if iov = 0 then Done (- TUX_EFAULT)
     else iov_loop_lk (sys_read_lk P p fd) iov (unat iovcnt) 0)"

definition sys_pread64_lk :: "('x, 'e) tuxenv_scheme \<Rightarrow> ptr \<Rightarrow> int \<Rightarrow> u64 \<Rightarrow> u64 \<Rightarrow> int \<Rightarrow> ('x, 'z, int) tcode" where
  "sys_pread64_lk P p fd bufp sz offset =
     bindC (fdget_lk p fd) (\<lambda>f.
     if f = NULL then Done (- TUX_EBADF)
     else
       bindC (act (deref fdfiles f)) (\<lambda>v.
       case ff_read v of None \<Rightarrow> Done (- TUX_EPERM) | Some rd \<Rightarrow>
       (case ff_lseek v of None \<Rightarrow> Done (- TUX_EPERM) | Some sk \<Rightarrow>
         bindC (act (procbuf p bufp sz)) (\<lambda>buf.
         if buf = 0 then Done (- TUX_EFAULT)
         else
           bindC (act (call_lseek P 0 TUX_SEEK_CUR sk (dev v))) (\<lambda>orig.
           bindC (act (call_lseek P offset TUX_SEEK_SET sk (dev v))) (\<lambda>_.
           bindC (act (call_read P rd (dev v) buf sz)) (\<lambda>n.
           bindC (act (call_lseek P orig TUX_SEEK_SET sk (dev v))) (\<lambda>_.
           Done n))))))))"

definition sys_lseek_lk :: "('x, 'e) tuxenv_scheme \<Rightarrow> ptr \<Rightarrow> int \<Rightarrow> int \<Rightarrow> int \<Rightarrow> ('x, 'z, int) tcode" where
  "sys_lseek_lk P p fd offset whence =
     bindC (fdget_lk p fd) (\<lambda>f.
     if f = NULL then Done (- TUX_EBADF)
     else
       bindC (act (deref fdfiles f)) (\<lambda>v.
       case ff_lseek v of None \<Rightarrow> Done (- TUX_EPERM)
       | Some fn \<Rightarrow> act (call_lseek P offset whence fn (dev v))))"

definition sys_getdents64_lk :: "('x, 'e) tuxenv_scheme \<Rightarrow> ptr \<Rightarrow> int \<Rightarrow> u64 \<Rightarrow> u64 \<Rightarrow> ('x, 'z, int) tcode" where
  "sys_getdents64_lk P p fd dirp cnt =
     bindC (fdget_lk p fd) (\<lambda>f.
     if f = NULL then Done (- TUX_EBADF)
     else
       bindC (act (deref fdfiles f)) (\<lambda>v.
       case ff_getdents v of None \<Rightarrow> Done (- TUX_EPERM)
       | Some fn \<Rightarrow>
           bindC (act (procbufalign p dirp cnt 8)) (\<lambda>buf.
           if buf = 0 then Done (- TUX_EFAULT)
           else act (call_getdents P fn (dev v) buf cnt))))"

section \<open>Opening and closing\<close>

definition sys_openat_lk :: "('x, 'e) tuxenv_scheme \<Rightarrow> ptr \<Rightarrow> int \<Rightarrow> u64 \<Rightarrow> u32 \<Rightarrow> u32 \<Rightarrow> ('x, 'z, int) tcode" where
  "sys_openat_lk P p dirfd pathp flags mode =
     bindC (getfdir_lk P p dirfd) (\<lambda>dir.
     if dirfd \<noteq> TUX_AT_FDCWD \<and> dir = NULL then Done (- TUX_EBADF)
     else
       bindC (act (procpath p pathp)) (\<lambda>path.
       case path of None \<Rightarrow> Done (- TUX_EFAULT)
       | Some path \<Rightarrow>
           bindC (act (deref procs p)) (\<lambda>pr.
           bindC (act (filenew P (p_tux pr) dir path flags mode)) (\<lambda>f.
           if f = NULL then Done (- TUX_ENOENT)
           else open_slot_lk P p f))))"

definition sys_open_lk :: "('x, 'e) tuxenv_scheme \<Rightarrow> ptr \<Rightarrow> u64 \<Rightarrow> u32 \<Rightarrow> u32 \<Rightarrow> ('x, 'z, int) tcode" where
  "sys_open_lk P p pathp flags mode = sys_openat_lk P p TUX_AT_FDCWD pathp flags mode"

definition sys_close_lk :: "('x, 'e) tuxenv_scheme \<Rightarrow> ptr \<Rightarrow> int \<Rightarrow> ('x, 'z, int) tcode" where
  "sys_close_lk P p fd =
     bindC (fdremove_lk P p fd p) (\<lambda>ok. if \<not> ok then Done (- TUX_EBADF) else Done 0)"

section \<open>Links, status and attributes\<close>

definition sys_readlinkat_lk :: "('x, 'e) tuxenv_scheme \<Rightarrow> ptr \<Rightarrow> int \<Rightarrow> u64 \<Rightarrow> u64 \<Rightarrow> u64 \<Rightarrow> ('x, 'z, int) tcode" where
  "sys_readlinkat_lk P p dirfd pathp bufp sz =
     bindC (getfdir_lk P p dirfd) (\<lambda>dir.
     if dirfd \<noteq> TUX_AT_FDCWD \<and> dir = NULL then Done (- TUX_EBADF)
     else
       bindC (act (procpath p pathp)) (\<lambda>path.
       bindC (act (procbuf p bufp sz)) (\<lambda>buf.
       case path of None \<Rightarrow> Done (- TUX_EFAULT)
       | Some path \<Rightarrow>
           if buf = 0 then Done (- TUX_EFAULT)
           else
             bindC (act (host_readlinkat P dir path buf sz)) (\<lambda>r.
             if int_of_ssize r < 0 then act (gets (\<lambda>w. - k_errno P (ext w))) else Done (int_of_ssize r)))))"

definition sys_readlink_lk :: "('x, 'e) tuxenv_scheme \<Rightarrow> ptr \<Rightarrow> u64 \<Rightarrow> u64 \<Rightarrow> u64 \<Rightarrow> ('x, 'z, int) tcode" where
  "sys_readlink_lk P p pathp bufp sz = sys_readlinkat_lk P p TUX_AT_FDCWD pathp bufp sz"

definition sys_newfstatat_lk :: "('x, 'e) tuxenv_scheme \<Rightarrow> ptr \<Rightarrow> int \<Rightarrow> u64 \<Rightarrow> u64 \<Rightarrow> u32 \<Rightarrow> ('x, 'z, int) tcode" where
  "sys_newfstatat_lk P p dirfd pathp statbufp flags =
     bindC (act (procbufalign p statbufp (of_nat (layout_end 0 (stat_members (target P)))) 8)) (\<lambda>st.
     if st = 0 then Done (- TUX_EFAULT)
     else if flags AND TUX_AT_EMPTY_PATH = 0 then
       bindC (act (procpath p pathp)) (\<lambda>path.
       case path of None \<Rightarrow> Done (- TUX_EFAULT)
       | Some path \<Rightarrow>
           bindC (getfdir_lk P p dirfd) (\<lambda>dir.
           if dirfd \<noteq> TUX_AT_FDCWD \<and> dir = NULL then Done (- TUX_EBADF)
           else act (host_fstatat P (target P) dir path st 0)))
     else
       bindC (fdget_lk p dirfd) (\<lambda>f.
       if f = NULL then Done (- TUX_EBADF)
       else
         bindC (act (deref fdfiles f)) (\<lambda>v.
         case ff_stat v of None \<Rightarrow> Done (- TUX_EACCES)
         | Some fn \<Rightarrow> act (call_stat P fn (dev v) st))))"

definition sys_stat_lk :: "('x, 'e) tuxenv_scheme \<Rightarrow> ptr \<Rightarrow> u64 \<Rightarrow> u64 \<Rightarrow> ('x, 'z, int) tcode" where
  "sys_stat_lk P p pathp statbufp = sys_newfstatat_lk P p TUX_AT_FDCWD pathp statbufp 0"

definition sys_lstat_lk :: "('x, 'e) tuxenv_scheme \<Rightarrow> ptr \<Rightarrow> u64 \<Rightarrow> u64 \<Rightarrow> ('x, 'z, int) tcode" where
  "sys_lstat_lk P p pathp statbufp = sys_stat_lk P p pathp statbufp"

definition sys_ftruncate_lk :: "('x, 'e) tuxenv_scheme \<Rightarrow> ptr \<Rightarrow> int \<Rightarrow> int \<Rightarrow> ('x, 'z, int) tcode" where
  "sys_ftruncate_lk P p fd len =
     bindC (fdget_lk p fd) (\<lambda>f.
     if f = NULL then Done (- TUX_EBADF)
     else
       bindC (act (deref fdfiles f)) (\<lambda>v.
       case ff_truncate v of None \<Rightarrow> Done (- TUX_EPERM)
       | Some fn \<Rightarrow> act (call_truncate P len fn (dev v))))"

definition sys_fchown_lk :: "('x, 'e) tuxenv_scheme \<Rightarrow> ptr \<Rightarrow> int \<Rightarrow> u32 \<Rightarrow> u32 \<Rightarrow> ('x, 'z, int) tcode" where
  "sys_fchown_lk P p fd owner grp =
     bindC (fdget_lk p fd) (\<lambda>f.
     if f = NULL then Done (- TUX_EBADF)
     else
       bindC (act (deref fdfiles f)) (\<lambda>v.
       case ff_chown v of None \<Rightarrow> Done (- TUX_EPERM)
       | Some fn \<Rightarrow> act (call_chown P owner grp fn (dev v))))"

definition sys_fchmod_lk :: "('x, 'e) tuxenv_scheme \<Rightarrow> ptr \<Rightarrow> int \<Rightarrow> u32 \<Rightarrow> ('x, 'z, int) tcode" where
  "sys_fchmod_lk P p fd mode =
     bindC (fdget_lk p fd) (\<lambda>f.
     if f = NULL then Done (- TUX_EBADF)
     else
       bindC (act (deref fdfiles f)) (\<lambda>v.
       case ff_chmod v of None \<Rightarrow> Done (- TUX_EPERM)
       | Some fn \<Rightarrow> act (call_chmod P mode fn (dev v))))"

definition sys_fsync_lk :: "('x, 'e) tuxenv_scheme \<Rightarrow> ptr \<Rightarrow> int \<Rightarrow> ('x, 'z, int) tcode" where
  "sys_fsync_lk P p fd =
     bindC (fdget_lk p fd) (\<lambda>f.
     if f = NULL then Done (- TUX_EBADF)
     else
       bindC (act (deref fdfiles f)) (\<lambda>v.
       case ff_sync v of None \<Rightarrow> Done (- TUX_EPERM)
       | Some fn \<Rightarrow> act (call_sync P fn (dev v))))"

section \<open>Names\<close>

definition sys_unlinkat_lk :: "('x, 'e) tuxenv_scheme \<Rightarrow> ptr \<Rightarrow> int \<Rightarrow> u64 \<Rightarrow> u32 \<Rightarrow> ('x, 'z, int) tcode" where
  "sys_unlinkat_lk P p dirfd pathp flags =
     bindC (getfdir_lk P p dirfd) (\<lambda>dir.
     if dirfd \<noteq> TUX_AT_FDCWD \<and> dir = NULL then Done (- TUX_EBADF)
     else if flags \<noteq> 0 \<and> flags \<noteq> TUX_AT_REMOVEDIR then Done (- TUX_EINVAL)
     else
       bindC (act (procpath p pathp)) (\<lambda>path.
       case path of None \<Rightarrow> Done (- TUX_EFAULT)
       | Some path \<Rightarrow>
           bindC (act (host_unlinkat P dir path flags)) (\<lambda>r.
           if r < 0 then act (gets (\<lambda>w. - k_errno P (ext w))) else Done r)))"

definition sys_unlink_lk :: "('x, 'e) tuxenv_scheme \<Rightarrow> ptr \<Rightarrow> u64 \<Rightarrow> ('x, 'z, int) tcode" where
  "sys_unlink_lk P p pathp = sys_unlinkat_lk P p TUX_AT_FDCWD pathp 0"

definition sys_renameat_lk :: "('x, 'e) tuxenv_scheme \<Rightarrow> ptr \<Rightarrow> int \<Rightarrow> u64 \<Rightarrow> int \<Rightarrow> u64 \<Rightarrow> ('x, 'z, int) tcode" where
  "sys_renameat_lk P p olddir oldpathp newdir newpathp =
     bindC (getfdir_lk P p olddir) (\<lambda>oldf.
     bindC (getfdir_lk P p newdir) (\<lambda>newf.
     if (olddir \<noteq> TUX_AT_FDCWD \<and> oldf = NULL) \<or> (newdir \<noteq> TUX_AT_FDCWD \<and> newf = NULL) then Done (- TUX_EBADF)
     else
       bindC (act (procpath p oldpathp)) (\<lambda>oldpath.
       bindC (act (procpath p newpathp)) (\<lambda>newpath.
       case oldpath of None \<Rightarrow> Done (- TUX_EFAULT) | Some oldpath \<Rightarrow>
       (case newpath of None \<Rightarrow> Done (- TUX_EFAULT) | Some newpath \<Rightarrow>
         act (host_renameat2 P oldf oldpath newf newpath 0))))))"

definition sys_rename_lk :: "('x, 'e) tuxenv_scheme \<Rightarrow> ptr \<Rightarrow> u64 \<Rightarrow> u64 \<Rightarrow> ('x, 'z, int) tcode" where
  "sys_rename_lk P p oldpathp newpathp = sys_renameat_lk P p TUX_AT_FDCWD oldpathp TUX_AT_FDCWD newpathp"

definition sys_faccessat2_lk :: "('x, 'e) tuxenv_scheme \<Rightarrow> ptr \<Rightarrow> int \<Rightarrow> u64 \<Rightarrow> u32 \<Rightarrow> u32 \<Rightarrow> ('x, 'z, int) tcode" where
  "sys_faccessat2_lk P p dirfd pathp mode flags =
     bindC (getfdir_lk P p dirfd) (\<lambda>dir.
     if dirfd \<noteq> TUX_AT_FDCWD \<and> dir = NULL then Done (- TUX_EBADF)
     else if flags \<noteq> 0 then Done (- TUX_EINVAL)
     else
       bindC (act (procpath p pathp)) (\<lambda>path.
       case path of None \<Rightarrow> Done (- TUX_EFAULT)
       | Some path \<Rightarrow> act (host_faccessat2 P dir path mode 0)))"

definition sys_faccessat_lk :: "('x, 'e) tuxenv_scheme \<Rightarrow> ptr \<Rightarrow> int \<Rightarrow> u64 \<Rightarrow> u32 \<Rightarrow> ('x, 'z, int) tcode" where
  "sys_faccessat_lk P p dirfd pathp mode = sys_faccessat2_lk P p dirfd pathp mode 0"

definition sys_access_lk :: "('x, 'e) tuxenv_scheme \<Rightarrow> ptr \<Rightarrow> u64 \<Rightarrow> u32 \<Rightarrow> ('x, 'z, int) tcode" where
  "sys_access_lk P p pathp mode = sys_faccessat2_lk P p TUX_AT_FDCWD pathp mode 0"

definition sys_mkdirat_lk :: "('x, 'e) tuxenv_scheme \<Rightarrow> ptr \<Rightarrow> int \<Rightarrow> u64 \<Rightarrow> u32 \<Rightarrow> ('x, 'z, int) tcode" where
  "sys_mkdirat_lk P p dirfd pathp mode =
     bindC (getfdir_lk P p dirfd) (\<lambda>dir.
     if dirfd \<noteq> TUX_AT_FDCWD \<and> dir = NULL then Done (- TUX_EBADF)
     else
       bindC (act (procpath p pathp)) (\<lambda>path.
       case path of None \<Rightarrow> Done (- TUX_EFAULT)
       | Some path \<Rightarrow> act (host_mkdirat P dir path mode)))"

definition sys_mkdir_lk :: "('x, 'e) tuxenv_scheme \<Rightarrow> ptr \<Rightarrow> u64 \<Rightarrow> u32 \<Rightarrow> ('x, 'z, int) tcode" where
  "sys_mkdir_lk P p pathp mode = sys_mkdirat_lk P p TUX_AT_FDCWD pathp mode"

section \<open>The current directory\<close>

text \<open>Its own mutex \<^verbatim>\<open>cwd.lk\<close> is never taken.\<close>

definition drop_cwd_lk :: "('x, 'e) tuxenv_scheme \<Rightarrow> ptr \<Rightarrow> ('x, 'z, unit) tcode" where
  "drop_cwd_lk P p =
     bindC (act (deref procs p)) (\<lambda>pr.
     if dir_fd (cwd pr) \<noteq> NULL then
       bindC (fdrelease_lk P (dir_fd (cwd pr)) p) (\<lambda>_.
       act (set_proc p (\<lambda>pr. pr\<lparr>cwd := (cwd pr)\<lparr>dir_fd := NULL\<rparr>\<rparr>)))
     else if dir_file (cwd pr) \<noteq> NULL then
       bindC (act (host_close P (dir_file (cwd pr)))) (\<lambda>_. Done ())
     else Done ())"

definition sys_chdir_lk :: "('x, 'e) tuxenv_scheme \<Rightarrow> ptr \<Rightarrow> u64 \<Rightarrow> ('x, 'z, int) tcode" where
  "sys_chdir_lk P p pathp =
     bindC (act (procpath p pathp)) (\<lambda>path.
     case path of None \<Rightarrow> Done (- TUX_EFAULT)
     | Some path \<Rightarrow>
         bindC (act (deref procs p)) (\<lambda>pr.
         bindC (act (host_openat P (dir_file (cwd pr)) path (TUX_O_DIRECTORY OR TUX_O_PATH) 0)) (\<lambda>file.
         bindC (drop_cwd_lk P p) (\<lambda>_.
         bindC (act (set_proc p (\<lambda>pr. pr\<lparr>cwd := (cwd pr)\<lparr>dir_file := file\<rparr>\<rparr>))) (\<lambda>_.
         Done 0)))))"

definition sys_fchdir_lk :: "('x, 'e) tuxenv_scheme \<Rightarrow> ptr \<Rightarrow> int \<Rightarrow> ('x, 'z, int) tcode" where
  "sys_fchdir_lk P p fd =
     bindC (fdget_lk p fd) (\<lambda>f.
     if f = NULL then Done (- TUX_EBADF)
     else
       bindC (act (deref fdfiles f)) (\<lambda>v.
       case ff_file v of None \<Rightarrow> Done (- TUX_EACCES)
       | Some fn \<Rightarrow>
           bindC (act (call_file fn (dev v))) (\<lambda>file.
           bindC (act (host_isdir P file)) (\<lambda>isdir.
           if \<not> isdir then Done (- TUX_ENOTDIR)
           else
             bindC (drop_cwd_lk P p) (\<lambda>_.
             bindC (LOCK_WITH_DEFER (Lk_refs f) (bindC (ref_load f) (\<lambda>n. ref_store f (n + 1)))) (\<lambda>_.
             bindC (act (set_proc p (\<lambda>pr. pr\<lparr>cwd := \<lparr>dir_file = file, dir_fd = f\<rparr>\<rparr>))) (\<lambda>_.
             Done 0)))))))"

section \<open>The locks erased\<close>

lemmas erase_simps = erase_rules erase_if erase_option erase_sum erase_prod erase_fd

lemma erase_getfdir:
  "erase (getfdir_lk P p dirfd) = getfdir P p dirfd"
  by (simp_all add: getfdir_lk_def getfdir_def erase_simps cong: if_cong option.case_cong)

lemma erase_io:
  "erase (sys_write_lk P p fd bufp sz) = sys_write P p fd bufp sz"
  "erase (sys_read_lk P p fd bufp sz) = sys_read P p fd bufp sz"
  by (simp_all add: sys_write_lk_def sys_write_def sys_read_lk_def sys_read_def erase_simps cong: if_cong option.case_cong)

lemma erase_iov_loop: "(\<And>b n. erase (f b n) = g b n) \<Longrightarrow> erase (iov_loop_lk f iov k tot) = iov_loop g iov k tot"
  by (induction k arbitrary: iov tot) (simp_all add: erase_simps cong: if_cong)

lemma erase_vectors:
  "erase (sys_writev_lk P p fd iovp iovcnt) = sys_writev P p fd iovp iovcnt"
  "erase (sys_readv_lk P p fd iovp iovcnt) = sys_readv P p fd iovp iovcnt"
  by (simp_all add: sys_writev_lk_def sys_writev_def sys_readv_lk_def sys_readv_def erase_simps erase_iov_loop [of _ "sys_write P p fd"] erase_iov_loop [of _ "sys_read P p fd"] erase_io cong: if_cong option.case_cong)

lemma erase_positions:
  "erase (sys_pread64_lk P p fd bufp sz offset) = sys_pread64 P p fd bufp sz offset"
  "erase (sys_lseek_lk P p fd offset whence) = sys_lseek P p fd offset whence"
  "erase (sys_getdents64_lk P p fd dirp cnt) = sys_getdents64 P p fd dirp cnt"
  by (simp_all add: sys_pread64_lk_def sys_pread64_def sys_lseek_lk_def sys_lseek_def sys_getdents64_lk_def sys_getdents64_def erase_simps cong: if_cong option.case_cong)

lemma erase_openat:
  "erase (sys_openat_lk P p dirfd pathp flags mode) = sys_openat P p dirfd pathp flags mode"
  by (simp_all add: sys_openat_lk_def sys_openat_def erase_simps erase_getfdir open_slot_lk_def cong: if_cong option.case_cong)

lemma erase_open:
  "erase (sys_open_lk P p pathp flags mode) = sys_open P p pathp flags mode"
  "erase (sys_close_lk P p fd) = sys_close P p fd"
  by (simp_all add: sys_open_lk_def sys_open_def sys_close_lk_def sys_close_def erase_simps erase_openat cong: if_cong option.case_cong)

lemma erase_newfstatat:
  "erase (sys_newfstatat_lk P p dirfd pathp statbufp flags) = sys_newfstatat P p dirfd pathp statbufp flags"
  by (simp_all add: sys_newfstatat_lk_def sys_newfstatat_def erase_simps erase_getfdir cong: if_cong option.case_cong)

lemma erase_links:
  "erase (sys_readlinkat_lk P p dirfd pathp bufp sz) = sys_readlinkat P p dirfd pathp bufp sz"
  "erase (sys_unlinkat_lk P p dirfd pathp flags) = sys_unlinkat P p dirfd pathp flags"
  "erase (sys_renameat_lk P p olddir oldpathp newdir newpathp) = sys_renameat P p olddir oldpathp newdir newpathp"
  "erase (sys_faccessat2_lk P p dirfd pathp mode flags) = sys_faccessat2 P p dirfd pathp mode flags"
  "erase (sys_mkdirat_lk P p dirfd pathp mode) = sys_mkdirat P p dirfd pathp mode"
  by (simp_all add: sys_readlinkat_lk_def sys_readlinkat_def sys_unlinkat_lk_def sys_unlinkat_def sys_renameat_lk_def sys_renameat_def sys_faccessat2_lk_def sys_faccessat2_def sys_mkdirat_lk_def sys_mkdirat_def erase_simps erase_getfdir cong: if_cong option.case_cong)

lemma erase_attributes:
  "erase (sys_ftruncate_lk P p fd len) = sys_ftruncate P p fd len"
  "erase (sys_fchown_lk P p fd owner grp) = sys_fchown P p fd owner grp"
  "erase (sys_fchmod_lk P p fd mode) = sys_fchmod P p fd mode"
  "erase (sys_fsync_lk P p fd) = sys_fsync P p fd"
  by (simp_all add: sys_ftruncate_lk_def sys_ftruncate_def sys_fchown_lk_def sys_fchown_def sys_fchmod_lk_def sys_fchmod_def sys_fsync_lk_def sys_fsync_def erase_simps cong: if_cong option.case_cong)

lemma erase_variants:
  "erase (sys_readlink_lk P p pathp bufp sz) = sys_readlink P p pathp bufp sz"
  "erase (sys_stat_lk P p pathp statbufp) = sys_stat P p pathp statbufp"
  "erase (sys_unlink_lk P p pathp) = sys_unlink P p pathp"
  "erase (sys_rename_lk P p oldpathp newpathp) = sys_rename P p oldpathp newpathp"
  "erase (sys_faccessat_lk P p dirfd pathp mode) = sys_faccessat P p dirfd pathp mode"
  "erase (sys_access_lk P p pathp mode) = sys_access P p pathp mode"
  "erase (sys_mkdir_lk P p pathp mode) = sys_mkdir P p pathp mode"
  by (simp_all add: sys_readlink_lk_def sys_readlink_def sys_stat_lk_def sys_stat_def sys_unlink_lk_def sys_unlink_def sys_rename_lk_def sys_rename_def sys_faccessat_lk_def sys_faccessat_def sys_access_lk_def sys_access_def sys_mkdir_lk_def sys_mkdir_def erase_simps erase_links erase_newfstatat cong: if_cong option.case_cong)

lemma erase_lstat:
  "erase (sys_lstat_lk P p pathp statbufp) = sys_lstat P p pathp statbufp"
  by (simp_all add: sys_lstat_lk_def sys_lstat_def erase_simps erase_variants cong: if_cong option.case_cong)

lemma erase_drop_cwd:
  "erase (drop_cwd_lk P p) = drop_cwd P p"
  by (simp_all add: drop_cwd_lk_def drop_cwd_def erase_simps cong: if_cong option.case_cong)

lemma erase_chdir:
  "erase (sys_chdir_lk P p pathp) = sys_chdir P p pathp"
  "erase (sys_fchdir_lk P p fd) = sys_fchdir P p fd"
  by (simp_all add: sys_chdir_lk_def sys_chdir_def sys_fchdir_lk_def sys_fchdir_def erase_simps erase_drop_cwd ref_load_def ref_store_def erase_ref [where k = ret, simplified] cong: if_cong option.case_cong)

lemmas erase_file = erase_io erase_vectors erase_positions erase_openat erase_open erase_newfstatat erase_links erase_attributes
  erase_variants erase_lstat erase_chdir

section \<open>Lock order\<close>

lemmas obeys_top [obeys_rules] = obeys_act [of rank] for rank

lemma obeys_getfdir [obeys_rules]:
  "obeys mutex_rank [] [] (getfdir_lk P p dirfd)"
  unfolding getfdir_lk_def by (intro obeys_rules; simp)+

lemma obeys_io [obeys_rules]:
  "obeys mutex_rank [] [] (sys_write_lk P p fd bufp sz)"
  "obeys mutex_rank [] [] (sys_read_lk P p fd bufp sz)"
  unfolding sys_write_lk_def sys_read_lk_def by (intro obeys_rules; simp)+

lemma obeys_iov_loop [obeys_rules]:
  "(\<And>b n. obeys mutex_rank [] [] (f b n)) \<Longrightarrow> obeys mutex_rank [] [] (iov_loop_lk f iov k tot)"
  by (induction k arbitrary: iov tot) (auto intro!: obeys_rules)

lemma obeys_vectors [obeys_rules]:
  "obeys mutex_rank [] [] (sys_writev_lk P p fd iovp iovcnt)"
  "obeys mutex_rank [] [] (sys_readv_lk P p fd iovp iovcnt)"
  unfolding sys_writev_lk_def sys_readv_lk_def by (intro obeys_rules; simp)+

lemma obeys_positions [obeys_rules]:
  "obeys mutex_rank [] [] (sys_pread64_lk P p fd bufp sz offset)"
  "obeys mutex_rank [] [] (sys_lseek_lk P p fd offset whence)"
  "obeys mutex_rank [] [] (sys_getdents64_lk P p fd dirp cnt)"
  unfolding sys_pread64_lk_def sys_lseek_lk_def sys_getdents64_lk_def by (intro obeys_rules; simp)+

lemma obeys_open_slot [obeys_rules]: "obeys mutex_rank [] [] (open_slot_lk P p f)"
  unfolding open_slot_lk_def by (intro obeys_rules; simp)

lemma obeys_openat [obeys_rules]:
  "obeys mutex_rank [] [] (sys_openat_lk P p dirfd pathp flags mode)"
  unfolding sys_openat_lk_def by (intro obeys_rules; simp)+

lemma obeys_open [obeys_rules]:
  "obeys mutex_rank [] [] (sys_open_lk P p pathp flags mode)"
  "obeys mutex_rank [] [] (sys_close_lk P p fd)"
  unfolding sys_open_lk_def sys_close_lk_def by (intro obeys_rules; simp)+

lemma obeys_newfstatat [obeys_rules]:
  "obeys mutex_rank [] [] (sys_newfstatat_lk P p dirfd pathp statbufp flags)"
  unfolding sys_newfstatat_lk_def by (intro obeys_rules; simp)+

lemma obeys_links [obeys_rules]:
  "obeys mutex_rank [] [] (sys_readlinkat_lk P p dirfd pathp bufp sz)"
  "obeys mutex_rank [] [] (sys_unlinkat_lk P p dirfd pathp flags)"
  "obeys mutex_rank [] [] (sys_renameat_lk P p olddir oldpathp newdir newpathp)"
  "obeys mutex_rank [] [] (sys_faccessat2_lk P p dirfd pathp mode flags)"
  "obeys mutex_rank [] [] (sys_mkdirat_lk P p dirfd pathp mode)"
  unfolding sys_readlinkat_lk_def sys_unlinkat_lk_def sys_renameat_lk_def sys_faccessat2_lk_def sys_mkdirat_lk_def by (intro obeys_rules; simp)+

lemma obeys_attributes [obeys_rules]:
  "obeys mutex_rank [] [] (sys_ftruncate_lk P p fd len)"
  "obeys mutex_rank [] [] (sys_fchown_lk P p fd owner grp)"
  "obeys mutex_rank [] [] (sys_fchmod_lk P p fd mode)"
  "obeys mutex_rank [] [] (sys_fsync_lk P p fd)"
  unfolding sys_ftruncate_lk_def sys_fchown_lk_def sys_fchmod_lk_def sys_fsync_lk_def by (intro obeys_rules; simp)+

lemma obeys_variants [obeys_rules]:
  "obeys mutex_rank [] [] (sys_readlink_lk P p pathp bufp sz)"
  "obeys mutex_rank [] [] (sys_stat_lk P p pathp statbufp)"
  "obeys mutex_rank [] [] (sys_unlink_lk P p pathp)"
  "obeys mutex_rank [] [] (sys_rename_lk P p oldpathp newpathp)"
  "obeys mutex_rank [] [] (sys_faccessat_lk P p dirfd pathp mode)"
  "obeys mutex_rank [] [] (sys_access_lk P p pathp mode)"
  "obeys mutex_rank [] [] (sys_mkdir_lk P p pathp mode)"
  unfolding sys_readlink_lk_def sys_stat_lk_def sys_unlink_lk_def sys_rename_lk_def sys_faccessat_lk_def sys_access_lk_def sys_mkdir_lk_def by (intro obeys_rules; simp)+

lemma obeys_lstat [obeys_rules]:
  "obeys mutex_rank [] [] (sys_lstat_lk P p pathp statbufp)"
  unfolding sys_lstat_lk_def by (intro obeys_rules; simp)+

lemma obeys_drop_cwd [obeys_rules]:
  "obeys mutex_rank [] [] (drop_cwd_lk P p)"
  unfolding drop_cwd_lk_def by (intro obeys_rules; simp)+

lemma obeys_chdir [obeys_rules]:
  "obeys mutex_rank [] [] (sys_chdir_lk P p pathp)"
  "obeys mutex_rank [] [] (sys_fchdir_lk P p fd)"
  unfolding sys_chdir_lk_def sys_fchdir_lk_def by (intro obeys_rules; simp)+

lemmas obeys_file = obeys_io obeys_vectors obeys_positions obeys_openat obeys_open obeys_newfstatat obeys_links obeys_attributes
  obeys_variants obeys_lstat obeys_chdir

section \<open>A read and a close at once\<close>

lemma fdremove_free_run:
  assumes "i < length ts" "ts ! i = bindC (fdremove_lk P t fd q) k" "own (Lk_fdtable t) = None" "own (Lk_refs f) = None"
    and "t \<noteq> NULL" "procs w t = Some pr" "fdhas_x (ft_files (fdtable pr)) fd" "ft_files (fdtable pr) ! nat fd = f"
    and "f \<noteq> NULL" "fdfiles w f = Some v" "refs v = 1" "fdrelease P f q w = Ret () w'"
  shows "\<exists>own' c. run_schedule mutex_live (replicate 8 i) (w, own, ts) = Moved (w', own', ts[i := c]) \<and> fdfiles w' f = None"
  using assms
  by (auto simp: exec_simps fdremove_lk_def fdremove_x_lk_def fdrelease_lk_def fdrelease_def numeral_eq_Suc split: outcome.splits option.splits)

lemma fdget_run:
  assumes "i < length ts" "ts ! i = bindC (fdget_lk t fd) k" "own (Lk_fdtable t) = None"
    and "t \<noteq> NULL" "procs w t = Some pr" "fdhas_x (ft_files (fdtable pr)) fd"
  shows "run_schedule mutex_live (replicate 3 i) (w, own, ts) = Moved (w, own, ts[i := k (ft_files (fdtable pr) ! nat fd)])"
  using assms by (auto simp: exec_simps fdget_lk_def numeral_eq_Suc fun_upd_idem)

text \<open>C39. A close by one thread frees a file that another thread reads.  \<^verbatim>\<open>fdget\<close> gives back the table before the file is used and takes no
  reference, so for every open descriptor with one reference there is an interleaving of a read and a close of
  it after which the next step of the reading thread goes through a pointer to the freed file.\<close>

theorem read_close_race:
  assumes "p \<noteq> NULL" "procs w p = Some pr" "fdhas_x (ft_files (fdtable pr)) fd" "ft_files (fdtable pr) ! nat fd = f"
    and "fdfiles w f = Some v" "refs v = 1" "fdrelease P f p w = Ret () w'" "sz \<noteq> 0"
  shows "\<exists>c. (sched mutex_live)\<^sup>*\<^sup>* (spawned w [sys_read_lk P p fd bufp sz, sys_close_lk P p fd]) c \<and>
     thread_step mutex_live 0 c = Broken Dangling"
proof -
  have f: "f \<noteq> NULL" using assms(3,4) by (simp add: fdhas_x_def)
  define k where "k = (\<lambda>f. if f = NULL then Done (- TUX_EBADF) else
     bindC (act (deref fdfiles f)) (\<lambda>v. case ff_read v of None \<Rightarrow> Done (- TUX_EPERM) | Some fn \<Rightarrow>
       bindC (act (procbuf p bufp sz)) (\<lambda>buf. if buf = 0 then Done (- TUX_EFAULT) else act (call_read P fn (dev v) buf sz))) :: ('a, 'b, int) tcode)"
  have read: "sys_read_lk P p fd bufp sz = bindC (fdget_lk p fd) k"
    using assms(8) by (simp add: sys_read_lk_def k_def)
  obtain own' c where run: "run_schedule mutex_live (replicate 8 1) (w, Map.empty, [k f, sys_close_lk P p fd]) =
      Moved (w', own', [k f, c])" and free: "fdfiles w' f = None"
    using fdremove_free_run [of 1 "[k f, sys_close_lk P p fd]" P p fd p "\<lambda>ok. if \<not> ok then Done (- TUX_EBADF) else Done 0" Map.empty f w pr v w'] assms f
    by (auto simp: sys_close_lk_def)
  have "run_schedule mutex_live (replicate 3 0 @ replicate 8 1) (spawned w [sys_read_lk P p fd bufp sz, sys_close_lk P p fd]) =
      Moved (w', own', [k f, c])"
    unfolding run_schedule_append spawned_def
    using fdget_run [of 0 "[sys_read_lk P p fd bufp sz, sys_close_lk P p fd]" p fd k Map.empty w pr] read assms run by simp
  moreover have "thread_step mutex_live 0 (w', own', [k f, c]) = Broken Dangling"
    using f free by (simp add: thread_step_def k_def act_def deref_def)
  ultimately show ?thesis using run_schedule_sched by blast
qed

theorem read_close_race_witness:
  "\<exists>c. (sched mutex_live)\<^sup>*\<^sup>* (spawned (demo_shared\<lparr>procs := [14 \<mapsto> demo_proc\<lparr>fdtable := \<lparr>ft_files = [20] @ replicate 127 NULL\<rparr>\<rparr>]\<rparr>)
     [sys_read_lk demo_env 14 0 0x100020000 1, sys_close_lk demo_env 14 0]) c \<and> thread_step mutex_live 0 c = Broken Dangling"
  (is "\<exists>c. (sched _)\<^sup>*\<^sup>* (spawned ?w _) c \<and> _")
proof -
  have "\<exists>w'. fdrelease demo_env 20 14 ?w = Ret () w'"
    by (intro exI, rule fdrelease_last [where r = 0 and x = 0, of 20 _ "demo_file 21 1" "\<lparr>f_file = 22, f_flags = 0\<rparr>" "\<lparr>hf_fd = 7\<rparr>"])
      (simp_all add: demo_shared_def demo_file_def host_stdin_def host_stdout_def host_stderr_def demo_env_defs demo_status_def)
  then obtain w' where w': "fdrelease demo_env 20 14 ?w = Ret () w'" by blast
  show ?thesis
    by (rule read_close_race [where f = 20 and v = "demo_file 21 1" and
        pr = "demo_proc\<lparr>fdtable := \<lparr>ft_files = [20] @ replicate 127 NULL\<rparr>\<rparr>", OF _ _ _ _ _ _ w'])
      (simp_all add: demo_shared_def demo_file_def fdhas_x_def)
qed

section \<open>Two changes of directory at once\<close>

text \<open>Two threads that change the directory at once can close the old one twice.  The mutex of \<^verbatim>\<open>struct Dir\<close> is never taken, so both
  threads read the same file of the current directory and both close it; the second close is of a freed host file.
  This is the part of \<^verbatim>\<open>sys_chdir\<close> and \<^verbatim>\<open>sys_fchdir\<close> that drops the directory in use, when it was set by \<^verbatim>\<open>chdir\<close>.\<close>

lemma cwd_race:
  assumes "p \<noteq> NULL" "procs w p = Some pr" "dir_fd (cwd pr) = NULL" "dir_file (cwd pr) \<noteq> NULL"
    and "host_close P (dir_file (cwd pr)) w = Ret r w'" "hostfiles w' (dir_file (cwd pr)) = None"
  shows "\<exists>c. (sched mutex_live)\<^sup>*\<^sup>* (spawned w [drop_cwd_lk P p, drop_cwd_lk P p]) c \<and> thread_step mutex_live 1 c = Broken Dangling"
proof -
  have "host_close P (dir_file (cwd pr)) w' = Fault Dangling"
    using assms(4,6) by (simp add: host_close_def bindM_def deref_def)
  then have "run_schedule mutex_live [0, 1, 0] (spawned w [drop_cwd_lk P p, drop_cwd_lk P p]) =
       Moved (w', Map.empty, [Done (), bindC (act (host_close P (dir_file (cwd pr)))) (\<lambda>_. Done ())]) \<and>
     thread_step mutex_live 1 (w', Map.empty, [Done (), bindC (act (host_close P (dir_file (cwd pr)))) (\<lambda>_. Done ())]) = Broken Dangling"
    using assms by (simp add: drop_cwd_lk_def exec_simps)
  then show ?thesis using run_schedule_sched by blast
qed

lemma cwd_race_example:
  "\<exists>c. (sched mutex_live)\<^sup>*\<^sup>* (spawned (demo_shared\<lparr>procs := [14 \<mapsto> demo_proc\<lparr>cwd := \<lparr>dir_file = 22, dir_fd = NULL\<rparr>\<rparr>]\<rparr>)
     [drop_cwd_lk demo_env 14, drop_cwd_lk demo_env 14]) c \<and> thread_step mutex_live 1 c = Broken Dangling"
  by (rule cwd_race [where pr = "demo_proc\<lparr>cwd := \<lparr>dir_file = 22, dir_fd = NULL\<rparr>\<rparr>" and r = 0])
    (simp add: host_close_def run_simps demo_shared_def kcall_def set_hostfile_def free_hostfile_def
      host_stdin_def host_stdout_def host_stderr_def demo_env_defs demo_status_def)+

end
