(* ===== verification/Tux_SysLocks.thy ===== *)
theory Tux_SysLocks
  imports Tux_Dispatch Tux_Frame Tux_FileLocks
begin

text \<open>
  The memory calls with their mutexes (\<^verbatim>\<open>src/proc.c\<close>, \<^verbatim>\<open>src/syscalls/sys_mem.c\<close>), the dispatcher over calls that are code of a
  thread, and what holds of any number of threads in the library at once.
\<close>

section \<open>Memory calls\<close>

definition procmapfile_lk :: "ptr \<Rightarrow> int \<Rightarrow> ('x, 'z, int + ptr) tcode" where
  "procmapfile_lk p fd =
     (if fd \<ge> 0 then
        bindC (fdget_lk p fd) (\<lambda>f.
        if f = NULL then Done (Inl (- TUX_EBADF))
        else
          bindC (act (deref fdfiles f)) (\<lambda>v.
          case ff_file v of None \<Rightarrow> Done (Inl (- TUX_EACCES))
          | Some fn \<Rightarrow> bindC (act (call_file fn (dev v))) (\<lambda>hf. Done (Inr hf))))
      else Done (Inr NULL))"

definition procmapany_lk :: "('x, 'e) tuxenv_scheme \<Rightarrow> ptr \<Rightarrow> u64 \<Rightarrow> u32 \<Rightarrow> u32 \<Rightarrow> int \<Rightarrow> int \<Rightarrow> ('x, 'z, int \<times> u64) tcode" where
  "procmapany_lk P p sz prot flags fd offset =
     bindC (procmapfile_lk p fd) (\<lambda>r.
     case r of Inl e \<Rightarrow> Done (e, 0)
     | Inr hf \<Rightarrow>
         LOCK_WITH_DEFER (Lk_as p) (
         bindC (act (deref procs p)) (\<lambda>pr.
         bindC (act (lfi_as_mapany P (p_as pr) sz prot flags hf offset)) (\<lambda>addr.
         if addr = - 1 then Done (- TUX_EINVAL, 0) else Done (0, addr)))))"

definition procmapat_lk :: "('x, 'e) tuxenv_scheme \<Rightarrow> ptr \<Rightarrow> u64 \<Rightarrow> u64 \<Rightarrow> u32 \<Rightarrow> u32 \<Rightarrow> int \<Rightarrow> int \<Rightarrow> ('x, 'z, int) tcode" where
  "procmapat_lk P p start sz prot flags fd offset =
     bindC (procmapfile_lk p fd) (\<lambda>r.
     case r of Inl e \<Rightarrow> Done e
     | Inr hf \<Rightarrow>
         LOCK_WITH_DEFER (Lk_as p) (
         bindC (act (deref procs p)) (\<lambda>pr.
         bindC (act (lfi_as_mapat P (p_as pr) start sz prot flags hf offset)) (\<lambda>addr.
         if addr = - 1 then Done (- TUX_EINVAL) else Done 0))))"

definition procunmap_lk :: "('x, 'e) tuxenv_scheme \<Rightarrow> ptr \<Rightarrow> u64 \<Rightarrow> u64 \<Rightarrow> ('x, 'z, int) tcode" where
  "procunmap_lk P p start sz =
     LOCK_WITH_DEFER (Lk_as p) (bindC (act (deref procs p)) (\<lambda>pr. act (lfi_as_munmap P (p_as pr) start sz)))"

definition brk_map_lk :: "('x, 'e) tuxenv_scheme \<Rightarrow> ptr \<Rightarrow> TuxProc \<Rightarrow> u64 \<Rightarrow> u64 \<Rightarrow> ('x, 'z, u64) tcode" where
  "brk_map_lk P p pr brkp newsize =
     (if brkp \<ge> brkbase pr + brksize pr then
        LOCK_WITH_DEFER (Lk_as p) (
        if brksize pr = 0 then
          act (lfi_as_mapat P (p_as pr) (brkbase pr) newsize brk_mapprot brk_mapflags NULL 0)
        else
          bindC (act (deref tuxes (p_tux pr))) (\<lambda>t.
          let nxt = ceilp (brkbase pr + brksize pr) (opt_pagesize (t_opts t)) in
          act (lfi_as_mapat P (p_as pr) nxt (newsize - brksize pr) brk_mapprot brk_mapflags NULL 0)))
      else Done 0)"

definition sys_brk_lk :: "('x, 'e) tuxenv_scheme \<Rightarrow> ptr \<Rightarrow> u64 \<Rightarrow> ('x, 'z, u64) tcode" where
  "sys_brk_lk P p addr =
     LOCK_WITH_DEFER (Lk_brk p) (
     bindC (act (deref procs p)) (\<lambda>pr.
     bindC (act (procaddr p addr)) (\<lambda>addr.
     let brkp = brk_target pr addr;
         newsize = brkp - brkbase pr
     in bindC (act (assertM (newsize < TUX_BRKMAXSIZE))) (\<lambda>_.
        if newsize = brksize pr then Done brkp
        else
          bindC (brk_map_lk P p pr brkp newsize) (\<lambda>map.
          if map = - 1 then Done (- 1)
          else
            bindC (act (set_proc p (\<lambda>pr. pr\<lparr>brksize := newsize\<rparr>))) (\<lambda>_.
            Done (brkbase pr + newsize)))))))"

definition sys_mmap_lk :: "('x, 'e) tuxenv_scheme \<Rightarrow> ptr \<Rightarrow> u64 \<Rightarrow> u64 \<Rightarrow> u32 \<Rightarrow> u32 \<Rightarrow> int \<Rightarrow> int \<Rightarrow> ('x, 'z, u64) tcode" where
  "sys_mmap_lk P p addrup len prot flags fd off =
     (if len = 0 then Done (to_reg (- TUX_EINVAL))
      else
        bindC (act (deref procs p)) (\<lambda>pr.
        bindC (act (deref tuxes (p_tux pr))) (\<lambda>t.
        let len = ceilp len (opt_pagesize (t_opts t)) in
        if flags AND mmap_illegal_mask \<noteq> 0 then Done (to_reg (- TUX_EINVAL))
        else if flags AND LFI_MAP_FIXED \<noteq> 0 then
          bindC (act (procaddr p (truncp addrup (opt_pagesize (t_opts t))))) (\<lambda>addrp.
          bindC (procmapat_lk P p addrp len prot flags fd off) (\<lambda>r.
          if r < 0 then Done (to_reg r) else Done addrp))
        else
          bindC (procmapany_lk P p len prot flags fd off) (\<lambda>(r, addrp).
          if r < 0 then Done (to_reg r) else Done addrp))))"

definition sys_mprotect_lk :: "('x, 'e) tuxenv_scheme \<Rightarrow> ptr \<Rightarrow> u64 \<Rightarrow> u64 \<Rightarrow> u32 \<Rightarrow> ('x, 'z, int) tcode" where
  "sys_mprotect_lk P p addrup len prot =
     LOCK_WITH_DEFER (Lk_as p) (
     bindC (act (procaddr p addrup)) (\<lambda>addrp.
     bindC (act (deref procs p)) (\<lambda>pr. act (lfi_as_mprotect P (p_as pr) addrp len prot))))"

definition sys_munmap_lk :: "('x, 'e) tuxenv_scheme \<Rightarrow> ptr \<Rightarrow> u64 \<Rightarrow> u64 \<Rightarrow> ('x, 'z, int) tcode" where
  "sys_munmap_lk P p addrup len = bindC (act (procaddr p addrup)) (\<lambda>addrp. procunmap_lk P p addrp len)"

section \<open>Dispatch\<close>

definition ioC :: "('m, 's, int) code \<Rightarrow> ('m, 's, u64) code" where
  "ioC c = bindC c (\<lambda>r. Done (to_reg r))"

text \<open>The calls that take no mutex are one step.\<close>

definition sys_cases_lk ::
  "('x, 'e) tuxenv_scheme \<Rightarrow> ptr \<Rightarrow> ptr \<Rightarrow> u64 \<Rightarrow> u64 \<Rightarrow> u64 \<Rightarrow> u64 \<Rightarrow> u64 \<Rightarrow> u64 \<Rightarrow>
   (string \<times> ('x, 'z, u64) tcode) list" where
  "sys_cases_lk P p q a0 a1 a2 a3 a4 a5 = [
      (''getpid'', Done 0),
      (''write'', ioC (sys_write_lk P q (c_int a0) a1 a2)),
      (''read'', ioC (sys_read_lk P q (c_int a0) a1 a2)),
      (''lseek'', ioC (sys_lseek_lk P q (c_int a0) (c_long a1) (c_int a2))),
      (''exit'', act (sys_exit P p a0)),
      (''exit_group'', act (sys_exit_group p a0)),
      (''brk'', sys_brk_lk P q a0),
      (''openat'', ioC (sys_openat_lk P q (c_int a0) a1 (c_uint a2) (c_uint a3))),
      (''close'', ioC (sys_close_lk P q (c_int a0))),
      (''writev'', ioC (sys_writev_lk P q (c_int a0) a1 a2)),
      (''readv'', ioC (sys_readv_lk P q (c_int a0) a1 a2)),
      (''pread64'', ioC (sys_pread64_lk P q (c_int a0) a1 a2 (c_long a3))),
      (''mmap'', sys_mmap_lk P q a0 a1 (c_uint a2) (c_uint a3) (c_int a4) (c_long a5)),
      (''mprotect'', ioC (sys_mprotect_lk P q a0 a1 (c_uint a2))),
      (''munmap'', ioC (sys_munmap_lk P q a0 a1)),
      (''getdents64'', ioC (sys_getdents64_lk P q (c_int a0) a1 a2)),
      (''newfstatat'', ioC (sys_newfstatat_lk P q (c_int a0) a1 a2 (c_uint a3))),
      (''fstat'', ioC (sys_newfstatat_lk P q (c_int a0) 0 a1 TUX_AT_EMPTY_PATH)),
      (''fchmod'', ioC (sys_fchmod_lk P q (c_int a0) (c_uint a1))),
      (''truncate'', ioC (act (sys_truncate P q a0 (c_long a1)))),
      (''ftruncate'', ioC (sys_ftruncate_lk P q (c_int a0) (c_long a1))),
      (''fchown'', ioC (sys_fchown_lk P q (c_int a0) (c_uint a1) (c_uint a2))),
      (''fsync'', ioC (sys_fsync_lk P q (c_int a0))),
      (''chdir'', ioC (sys_chdir_lk P q a0)),
      (''fchdir'', ioC (sys_fchdir_lk P q (c_int a0))),
      (''mkdirat'', ioC (sys_mkdirat_lk P q (c_int a0) a1 (c_uint a2))),
      (''getrandom'', ioC (act (sys_getrandom P q a0 a1 (c_uint a2)))),
      (''getcwd'', act (sys_getcwd P q a0 a1)),
      (''clock_gettime'', ioC (act (sys_clock_gettime P q (c_int a0) a1))),
      (''unlinkat'', ioC (sys_unlinkat_lk P q (c_int a0) a1 (c_uint a2))),
      (''renameat'', ioC (sys_renameat_lk P q (c_int a0) a1 (c_int a2) a3)),
      (''faccessat'', ioC (sys_faccessat_lk P q (c_int a0) a1 (c_uint a2))),
      (''readlinkat'', ioC (sys_readlinkat_lk P q (c_int a0) a1 a2 a3)),
      (''ioctl'', ioC (act (sys_ioctl P q (c_int a0) a1 a2))),
      (''fcntl'', ioC (act (sys_fcntl q (c_int a0) (c_int a1)))),
      (''gettid'', ioC (act (sys_gettid p))),
      (''futex'', ioC (act (sys_futex P p a0 (c_uint a1) (c_uint a2) a3 a4 (c_uint a5)))),
      (''clone'', ioC (act (case target P of X64 \<Rightarrow> sys_clone P p a0 a1 a2 a3 a4 a5 | ARM64 \<Rightarrow> sys_clone P p a0 a1 a2 a4 a3 a5))),
      (''set_tid_address'', ioC (act (sys_set_tid_address p a0))),
      (''sched_getaffinity'', ioC (act (sys_sched_getaffinity P q (c_int a0) a1 a2))),
      (''sched_setaffinity'', ioC (act (sys_sched_setaffinity q (c_int a0) a1 a2))),
      (''sched_yield'', ioC (act (sys_sched_yield P q))),
      (''rt_sigaction'', ioC (act (sys_rt_sigaction q (c_int a0) a1 a2 a3))),
      (''rt_sigprocmask'', ioC (act (sys_rt_sigprocmask q (c_int a0) a1 a2 a3))),
      (''rt_sigreturn'', ioC (act (sys_rt_sigreturn q))),
      (''uname'', ioC (act (sys_uname P q a0))),
      (''sysinfo'', ioC (act (sys_sysinfo P q a0))),
      (''getrlimit'', ioC (act (sys_getrlimit q (c_int a0) a1))),
      (''prctl'', ioC (act (sys_prctl P q (c_int a0) a1))),
      (''set_robust_list'', Done 0),
      (''membarrier'', Done 0),
      (''statx'', Done (to_reg (- TUX_ENOSYS))),
      (''rseq'', Done (to_reg (- TUX_ENOSYS))),
      (''prlimit64'', Done (to_reg (- TUX_ENOSYS))),
      (''statfs'', Done (to_reg (- TUX_ENOSYS))),
      (''getxattr'', Done (to_reg (- TUX_ENOSYS))),
      (''lgetxattr'', Done (to_reg (- TUX_ENOSYS))),
      (''socket'', Done (to_reg (- TUX_ENOSYS))),
      (''mremap'', Done (to_reg (- TUX_ENOSYS))),
      (''utimensat'', Done (to_reg (- TUX_ENOSYS)))]"

definition syshandle_lk ::
  "('x, 'e) tuxenv_scheme \<Rightarrow> ptr \<Rightarrow> u64 \<Rightarrow> u64 \<Rightarrow> u64 \<Rightarrow> u64 \<Rightarrow> u64 \<Rightarrow> u64 \<Rightarrow> u64 \<Rightarrow> ('x, 'z, u64) tcode" where
  "syshandle_lk P p sysno a0 a1 a2 a3 a4 a5 =
     bindC (act (deref threads p)) (\<lambda>th.
     switch (target P) sysno (sys_cases_lk P p (proc th) a0 a1 a2 a3 a4 a5) (act (raise AssertFail)))"

definition x64_cases_lk ::
  "('x, 'e) tuxenv_scheme \<Rightarrow> ptr \<Rightarrow> ptr \<Rightarrow> TuxRegs \<Rightarrow> (string \<times> ('x, 'z, u64) tcode) list" where
  "x64_cases_lk P p q r = [
      (''arch_prctl'', ioC (act (sys_arch_prctl p (c_int (r Rdi)) (r Rsi)))),
      (''readlink'', ioC (sys_readlink_lk P q (r Rdi) (r Rsi) (r Rdx))),
      (''access'', ioC (sys_access_lk P q (r Rdi) (c_uint (r Rsi)))),
      (''unlink'', ioC (sys_unlink_lk P q (r Rdi))),
      (''time'', ioC (act (sys_time P q (r Rdi)))),
      (''chown'', ioC (act (sys_chown P q (r Rdi) (c_uint (r Rsi)) (c_uint (r Rdx))))),
      (''chmod'', ioC (act (sys_chmod P q (r Rdi) (c_uint (r Rsi))))),
      (''rename'', ioC (sys_rename_lk P q (r Rdi) (r Rsi))),
      (''mkdir'', ioC (sys_mkdir_lk P q (r Rdi) (c_uint (r Rsi)))),
      (''open'', ioC (sys_open_lk P q (r Rdi) (c_uint (r Rsi)) (c_uint (r Rdx)))),
      (''stat'', ioC (sys_stat_lk P q (r Rdi) (r Rsi))),
      (''lstat'', ioC (sys_lstat_lk P q (r Rdi) (r Rsi)))]"

definition arch_syshandle_x64_lk :: "('x, 'e) tuxenv_scheme \<Rightarrow> ptr \<Rightarrow> ('x, 'z, unit) tcode" where
  "arch_syshandle_x64_lk P ctx =
     bindC (act (lfi_ctx_data ctx)) (\<lambda>p.
     bindC (act (deref threads p)) (\<lambda>th.
     bindC (act (lfi_ctx_regs ctx)) (\<lambda>r.
     bindC (switch X64 (r Rax) (x64_cases_lk P p (proc th) r)
              (syshandle_lk P p (r Rax) (r Rdi) (r Rsi) (r Rdx) (r R10) (r R8) (r R9))) (\<lambda>v.
     bindC (act (lfi_ctx_regs ctx)) (\<lambda>r'.
     bindC (act (set_ctx_regs ctx (r'(Rax := v)))) (\<lambda>_.
     bindC (act (deref procs (proc th))) (\<lambda>pr.
     bindC (act (deref tuxes (p_tux pr))) (\<lambda>_. Done ()))))))))"

definition arch_syshandle_arm64_lk :: "('x, 'e) tuxenv_scheme \<Rightarrow> ptr \<Rightarrow> ('x, 'z, unit) tcode" where
  "arch_syshandle_arm64_lk P ctx =
     bindC (act (lfi_ctx_data ctx)) (\<lambda>p.
     bindC (act (lfi_ctx_regs ctx)) (\<lambda>r.
     bindC (syshandle_lk P p (r (X 8)) (r (X 0)) (r (X 1)) (r (X 2)) (r (X 3)) (r (X 4)) (r (X 5))) (\<lambda>v.
     bindC (act (lfi_ctx_regs ctx)) (\<lambda>r'.
     act (set_ctx_regs ctx (r'(X 0 := v)))))))"

definition arch_syshandle_lk :: "('x, 'e) tuxenv_scheme \<Rightarrow> ptr \<Rightarrow> ('x, 'z, unit) tcode" where
  "arch_syshandle_lk P ctx =
     (case target P of X64 \<Rightarrow> arch_syshandle_x64_lk P ctx | ARM64 \<Rightarrow> arch_syshandle_arm64_lk P ctx)"

definition lfi_tux_syscall_lk :: "('x, 'e) tuxenv_scheme \<Rightarrow> ptr \<Rightarrow> ('x, 'z, unit) tcode" where
  "lfi_tux_syscall_lk P ctx = arch_syshandle_lk P ctx"

definition lfi_syscall_handler_lk :: "('x, 'e) tuxenv_scheme \<Rightarrow> ptr \<Rightarrow> ('x, 'z, unit) tcode" where
  "lfi_syscall_handler_lk P ctx =
     bindC (act (deref ctxs ctx)) (\<lambda>c.
     bindC (act (deref aspaces (ctx_as c))) (\<lambda>a.
     bindC (act (deref plats (as_plat a))) (\<lambda>plat.
     case syshandler plat of None \<Rightarrow> act (raise AssertFail)
     | Some Lfi_tux_syscall \<Rightarrow> lfi_tux_syscall_lk P ctx)))"

section \<open>The locks erased\<close>


lemma erase_mapfile:
  "erase (procmapfile_lk p fd) = procmapfile p fd"
  by (simp_all add: procmapfile_lk_def procmapfile_def erase_simps Let_def cong: if_cong option.case_cong sum.case_cong)

lemma erase_mappings:
  "erase (procmapany_lk P p sz prot flags fd offset) = procmapany P p sz prot flags fd offset"
  "erase (procmapat_lk P p start sz prot flags fd offset) = procmapat P p start sz prot flags fd offset"
  "erase (procunmap_lk P p start sz) = procunmap P p start sz"
  "erase (brk_map_lk P p pr brkp newsize) = brk_map P pr brkp newsize"
  by (simp_all add: procmapany_lk_def procmapany_def procmapat_lk_def procmapat_def procunmap_lk_def procunmap_def brk_map_lk_def brk_map_def erase_simps Let_def erase_mapfile cong: if_cong option.case_cong sum.case_cong)

lemma erase_memory:
  "erase (sys_brk_lk P p addr) = sys_brk P p addr"
  "erase (sys_mmap_lk P p addrup len prot flags fd off) = sys_mmap P p addrup len prot flags fd off"
  "erase (sys_mprotect_lk P p addrup len prot) = sys_mprotect P p addrup len prot"
  "erase (sys_munmap_lk P p addrup len) = sys_munmap P p addrup len"
  by (simp_all add: sys_brk_lk_def sys_brk_def sys_mmap_lk_def sys_mmap_def sys_mprotect_lk_def sys_mprotect_def sys_munmap_lk_def sys_munmap_def erase_simps Let_def erase_mappings cong: if_cong option.case_cong sum.case_cong)

lemma erase_switch: "erase (switch a n cs d) = switch a n (map (\<lambda>(s, c). (s, erase c)) cs) (erase d)"
proof -
  have "find (\<lambda>(s, _). TUX_SYS a s = Some n) (map (\<lambda>(s, c). (s, erase c)) cs) =
      map_option (\<lambda>(s, c). (s, erase c)) (find (\<lambda>(s, _). TUX_SYS a s = Some n) cs)"
    by (induction cs) auto
  then show ?thesis by (simp add: switch_def split: option.split prod.split)
qed

lemma erase_ioC: "erase (ioC c) = io (erase c)"
  by (simp add: ioC_def io_def erase_bindC)

lemma erase_sys_cases:
  "map (\<lambda>(s, c). (s, erase c)) (sys_cases_lk P p q a0 a1 a2 a3 a4 a5) = sys_cases P p q a0 a1 a2 a3 a4 a5"
  by (simp add: sys_cases_lk_def sys_cases_def erase_ioC erase_act erase_file erase_memory)

lemma erase_x64_cases: "map (\<lambda>(s, c). (s, erase c)) (x64_cases_lk P p q r) = x64_cases P p q r"
  by (simp add: x64_cases_lk_def x64_cases_def erase_ioC erase_act erase_file)

lemma erase_syshandle: "erase (syshandle_lk P p n a0 a1 a2 a3 a4 a5) = syshandle P p n a0 a1 a2 a3 a4 a5"
  by (simp add: syshandle_lk_def syshandle_def erase_rules erase_switch erase_sys_cases)

lemma erase_arch: "erase (arch_syshandle_x64_lk P ctx) = arch_syshandle_x64 P ctx"
  "erase (arch_syshandle_arm64_lk P ctx) = arch_syshandle_arm64 P ctx"
  by (simp_all add: arch_syshandle_x64_lk_def arch_syshandle_x64_def arch_syshandle_arm64_lk_def arch_syshandle_arm64_def
      erase_rules erase_switch erase_x64_cases erase_syshandle)

lemma erase_tux_syscall: "erase (lfi_tux_syscall_lk P ctx) = lfi_tux_syscall P ctx"
  by (simp add: lfi_tux_syscall_lk_def arch_syshandle_lk_def lfi_tux_syscall_def arch_syshandle_def erase_arch split: arch.split)

lemma erase_handler_fn: "erase (case y of Lfi_tux_syscall \<Rightarrow> c) = (case y of Lfi_tux_syscall \<Rightarrow> erase c)"
  by (cases y) simp


section \<open>No deadlock\<close>

lemma obeys_sum [obeys_rules]:
  "(\<And>e. obeys rank hs hs' (f e)) \<Longrightarrow> (\<And>y. obeys rank hs hs' (g y)) \<Longrightarrow> obeys rank hs hs' (case x of Inl e \<Rightarrow> f e | Inr y \<Rightarrow> g y)"
  by (cases x) simp_all

lemma obeys_prod [obeys_rules]: "(\<And>a b. obeys rank hs hs' (f a b)) \<Longrightarrow> obeys rank hs hs' (case x of (a, b) \<Rightarrow> f a b)"
  by (cases x) simp

lemma no_exit_more [obeys_rules]:
  "no_exit (assertM b)" "(\<And>a b. no_exit (f a b)) \<Longrightarrow> no_exit (case x of (a, b) \<Rightarrow> f a b)"
  by (auto simp: assertM_def no_exit_def ret_def raise_def split: prod.split)

lemma no_exit_forM [obeys_rules]: "(\<And>x. no_exit (f x)) \<Longrightarrow> no_exit (forM xs f)"
  by (induction xs) (auto intro: obeys_rules)

lemma no_exit_mapping [obeys_rules]:
  "no_exit (host_mmap P b0 n0 pt0 fl0 h0 off0)" "no_exit (host_munmap P b1 n1)" "no_exit (host_mprotect P b2 n2 pt2)"
  unfolding host_mmap_def host_munmap_def host_mprotect_def return_zero_def return_count_def return_tuxerr_def fd_or_cwd_def Let_def
  by (intro obeys_rules)+

lemma no_exit_spaces [obeys_rules]:
  "no_exit (lfi_as_mapany P s0 n0 pt0 fl0 h0 off0)" "no_exit (lfi_as_mapat P s1 b1 n1 pt1 fl1 h1 off1)"
  "no_exit (lfi_as_mprotect P s2 b2 n2 pt2)" "no_exit (lfi_as_munmap P s3 b3 n3)" "no_exit (procaddr q b4)"
  unfolding lfi_as_mapany_def lfi_as_mapat_def lfi_as_mprotect_def lfi_as_munmap_def asmap_def cbunmap_def procaddr_def
    lfi_as_validptr_def Let_def
  by (intro obeys_rules)+

lemma obeys_mappings [obeys_rules]:
  "obeys mutex_rank [] [] (procmapfile_lk p fd)" "obeys mutex_rank [] [] (procunmap_lk P p start sz)"
  "\<forall>h\<in>set hs. mutex_rank h = 0 \<Longrightarrow> obeys mutex_rank hs hs (brk_map_lk P p pr brkp newsize)"
  unfolding procmapfile_lk_def procunmap_lk_def brk_map_lk_def Let_def by (intro obeys_rules; simp)+

lemma obeys_mapping_calls [obeys_rules]:
  "obeys mutex_rank [] [] (procmapany_lk P p sz prot flags fd offset)"
  "obeys mutex_rank [] [] (procmapat_lk P p start sz prot flags fd offset)"
  unfolding procmapany_lk_def procmapat_lk_def by (intro obeys_rules; simp)+

lemma obeys_memory [obeys_rules]:
  "obeys mutex_rank [] [] (sys_brk_lk P p addr)" "obeys mutex_rank [] [] (sys_mmap_lk P p addrup len prot flags fd off)"
  "obeys mutex_rank [] [] (sys_mprotect_lk P p addrup len prot)" "obeys mutex_rank [] [] (sys_munmap_lk P p addrup len)"
  unfolding sys_brk_lk_def sys_mmap_lk_def sys_mprotect_lk_def sys_munmap_lk_def Let_def by (intro obeys_rules; simp)+

lemma obeys_ioC [obeys_rules]: "obeys rank hs hs c \<Longrightarrow> obeys rank hs hs (ioC c)"
  unfolding ioC_def by (intro obeys_rules)

lemma switch_all: "list_all (\<lambda>(s, c). Q c) cs \<Longrightarrow> Q d \<Longrightarrow> Q (switch a n cs d)"
  by (induction cs) (auto simp: switch_def)

lemma obeys_switch [obeys_rules]:
  "list_all (\<lambda>(s, c). obeys rank hs hs' c) cs \<Longrightarrow> obeys rank hs hs' d \<Longrightarrow> obeys rank hs hs' (switch a n cs d)"
  by (rule switch_all)

lemma obeys_handler_fn [obeys_rules]: "obeys rank hs hs' c \<Longrightarrow> obeys rank hs hs' (case y of Lfi_tux_syscall \<Rightarrow> c)"
  by (cases y) simp

lemma obeys_cases:
  "list_all (\<lambda>(s, c). obeys mutex_rank [] [] c) (sys_cases_lk P p q a0 a1 a2 a3 a4 a5)"
  "list_all (\<lambda>(s, c). obeys mutex_rank [] [] c) (x64_cases_lk P p q r)"
  by (simp_all add: sys_cases_lk_def x64_cases_lk_def obeys_ioC obeys_act obeys_DoneI obeys_file obeys_memory)

lemma obeys_syshandle [obeys_rules]: "obeys mutex_rank [] [] (syshandle_lk P p n a0 a1 a2 a3 a4 a5)"
  unfolding syshandle_lk_def by (intro obeys_rules obeys_cases)

lemma obeys_arch [obeys_rules]:
  "obeys mutex_rank [] [] (arch_syshandle_x64_lk P ctx)" "obeys mutex_rank [] [] (arch_syshandle_arm64_lk P ctx)"
  unfolding arch_syshandle_x64_lk_def arch_syshandle_arm64_lk_def by (intro obeys_rules obeys_cases)+

lemma obeys_arch_choice [obeys_rules]: "obeys mutex_rank [] [] (arch_syshandle_lk P ctx)"
  unfolding arch_syshandle_lk_def by (cases "target P") (simp_all add: obeys_arch)

lemma obeys_handler [obeys_rules]: "obeys mutex_rank [] [] (lfi_syscall_handler_lk P ctx)"
  unfolding lfi_syscall_handler_lk_def lfi_tux_syscall_lk_def by (intro obeys_rules)

section \<open>Threads of a sandbox\<close>

text \<open>A thread computes (\<open>g\<close>) and makes a system call, any number of times.\<close>

definition guest_thread :: "('x, 'e) tuxenv_scheme \<Rightarrow> ptr \<times> (('x, 'z) tuxw_scheme, unit) prog list \<Rightarrow> ('x, 'z, unit) tcode" where
  "guest_thread P = (\<lambda>(ctx, gs). forC gs (\<lambda>g. bindC (act g) (\<lambda>_. lfi_syscall_handler_lk P ctx)))"

interpretation guest: lock_client mutex_rank "range (guest_thread P)"
  by unfold_locales (auto simp: guest_thread_def intro!: obeys_rules)

text \<open>C4. The library never deadlocks and every call ends.  Any number of threads, each making any sequence of system calls with any
  computation in between, run step by step with the mutexes of \<^verbatim>\<open>fd.c\<close>, \<^verbatim>\<open>proc.c\<close>, \<^verbatim>\<open>sys_mem.c\<close> and \<^verbatim>\<open>sys_cwd.c\<close>, in any interleaving.  In every
  state that is reached all threads have ended, or a step of some thread is a fault, or some
  thread can go on; no run goes on forever; so from every state that is reached a state is reached in which all threads have ended or one faults.\<close>

theorem calls_complete:
  assumes "(sched acc)\<^sup>*\<^sup>* (spawned w (map (guest_thread P) guests)) c"
  shows "(all_ended acc c \<or> crashed acc c \<or> (\<exists>c'. sched acc c c')) \<and>
     (\<nexists>r. r 0 = c \<and> (\<forall>n. sched acc (r n) (r (Suc n)))) \<and>
     (\<exists>c'. (sched acc)\<^sup>*\<^sup>* c c' \<and> (all_ended acc c' \<or> crashed acc c'))"
proof -
  have "set (map (guest_thread P) guests) \<subseteq> range (guest_thread P)" by auto
  with assms show ?thesis using guest.never_stuck guest.completes no_infinite_run by blast
qed

theorem calls_complete_witness:
  "\<exists>c'. (sched mutex_live)\<^sup>*\<^sup>* (spawned demo_world (map (guest_thread demo_env) [(13, [ret ()]), (13, [ret (), ret ()])])) c' \<and>
     (all_ended mutex_live c' \<or> crashed mutex_live c')"
  using calls_complete [OF rtranclp.rtrancl_refl] by blast

end
