(* ===== verification/Tux_Guards.thy ===== *)
theory Tux_Guards
  imports Tux_SysLocks
begin

text \<open>
  What the mutexes protect.  The locale \<open>guarded_view\<close> is the interface of a part of a process that one mutex guards; in it
  every system call is shown to change that part under its mutex only.  It is interpreted on the descriptor
  table of a process and on its break.
\<close>

section \<open>The interface\<close>

lemma guards_act: "leaves obs p \<Longrightarrow> guards obs m h h (act p)"
  unfolding act_def
proof (rule guards_Act)
  assume l: "leaves obs p"
  show "guards obs m h h k \<and> (h \<or> obs w' = obs w)" if "map_outcome Done id (p w) = Ret k w'" for w k w'
    using that l by (auto simp: map_Ret leaves_def wp_def intro: guards_Done dest!: spec [of _ w])
  show "h \<or> obs w' = obs w" if "map_outcome Done id (p w) = Exit c w'" for w c w'
    using that l by (auto simp: map_Exit leaves_def wp_def dest!: spec [of _ w])
qed

lemma guards_DoneI [guards_rules]: "guards obs m h h (Done a)"
  by (rule guards_Done)

lemma guards_if [guards_rules]: "guards obs m h h' c \<Longrightarrow> guards obs m h h' d \<Longrightarrow> guards obs m h h' (if b then c else d)"
  by simp

lemma guards_option [guards_rules]:
  "guards obs m h h' c \<Longrightarrow> (\<And>y. guards obs m h h' (f y)) \<Longrightarrow> guards obs m h h' (case x of None \<Rightarrow> c | Some y \<Rightarrow> f y)"
  by (cases x) simp_all

lemma guards_sum [guards_rules]:
  "(\<And>e. guards obs m h h' (f e)) \<Longrightarrow> (\<And>y. guards obs m h h' (g y)) \<Longrightarrow> guards obs m h h' (case x of Inl e \<Rightarrow> f e | Inr y \<Rightarrow> g y)"
  by (cases x) simp_all

lemma guards_prod [guards_rules]: "(\<And>a b. guards obs m h h' (f a b)) \<Longrightarrow> guards obs m h h' (case x of (a, b) \<Rightarrow> f a b)"
  by (cases x) simp

lemma guards_switch [guards_rules]:
  "list_all (\<lambda>(s, c). guards obs m h h' c) cs \<Longrightarrow> guards obs m h h' d \<Longrightarrow> guards obs m h h' (switch a n cs d)"
  by (rule switch_all)

lemma guards_handler_fn [guards_rules]: "guards obs m h h' c \<Longrightarrow> guards obs m h h' (case y of Lfi_tux_syscall \<Rightarrow> c)"
  by (cases y) simp

lemma guards_ioC [guards_rules]: "guards obs m False False c \<Longrightarrow> guards obs m False False (ioC c)"
  unfolding ioC_def by (intro guards_rules)

locale guarded_view = object_view +
  fixes m :: mutex
  assumes obs_threads [simp]: "obs (w\<lparr>threads := ths\<rparr>) = obs w" "obs (w\<lparr>ctxs := cs\<rparr>) = obs w" "obs (w\<lparr>next_tid := k'\<rparr>) = obs w"
      "obs (w\<lparr>lfi_myctx := k\<rparr>) = obs w"
    and obs_cwd: "leaves obs (set_proc p (\<lambda>pr. pr\<lparr>cwd := d pr\<rparr>))"
    and obs_slot: "m \<noteq> Lk_fdtable t \<Longrightarrow> leaves obs (slot_store t fd f)"
    and obs_brk: "m \<noteq> Lk_brk p \<Longrightarrow> leaves obs (set_proc p (\<lambda>pr. pr\<lparr>brksize := n\<rparr>))"
    and not_refs: "Lk_refs f \<noteq> m" and not_as: "Lk_as p \<noteq> m"
begin



lemma leaves_threads [frame_rules]:
  "leaves obs (set_thread q f)" "leaves obs (lfi_ctx_regs k)" "leaves obs (store_int a i)" "leaves obs nexttid"
  "leaves obs (lfi_ctx_tpset k1 v)" "leaves obs (set_ctx_regs k2 r)" "leaves obs (lfi_ctx_data k3)"
  unfolding set_thread_def lfi_ctx_regs_def store_int_def nexttid_def lfi_ctx_tpset_def set_ctx_regs_def lfi_ctx_data_def
  by (intro frame_rules; simp)+

lemma leaves_thread_handlers [frame_rules]:
  "leaves obs (sys_set_tid_address p a)" "leaves obs (sys_arch_prctl p' code b)"
  "leaves obs (sys_exit P q e)" "leaves obs (sys_exit_group q' e')"
  unfolding sys_set_tid_address_def sys_arch_prctl_def sys_exit_def sys_exit_group_def clearctid_def leave_ctx_def
    lfi_ctx_pause_def lfi_ctx_exit_def
  by (intro frame_rules; simp)+

lemma leaves_ctx_new [frame_rules]: "leaves obs (lfi_ctx_new P s cp mn)"
  unfolding lfi_ctx_new_def sysalloc_def syssetup_def write_u64_def Let_def by (intro frame_rules; simp)

lemma leaves_clone [frame_rules]: "leaves obs (sys_clone P p fl stk pt ct tls fn)"
  unfolding sys_clone_def spawn_def spawn_start_def procnewthread_def Let_def by (intro frame_rules; simp)

lemma guards_cells [guards_rules]:
  "guards obs m False False (ref_load f)" "guards obs m False False (ref_store f n)" "guards obs m False False (table_load t)"
  unfolding ref_load_def ref_store_def table_load_def by (intro guards_rules guards_act frame_rules not_refs not_as obs_cwd; simp)+

lemma guards_fdrelease [guards_rules]: "guards obs m False False (fdrelease_lk P f p)"
  unfolding fdrelease_lk_def by (intro guards_rules guards_act frame_rules not_refs not_as obs_cwd; simp)

text \<open>A section under the mutex of a table, which is the guarding one or another one.\<close>

lemma guards_table:
  assumes "avoids (Lk_fdtable t) body" "m \<noteq> Lk_fdtable t \<Longrightarrow> guards obs m False False body"
  shows "guards obs m False False (LOCK_WITH_DEFER (Lk_fdtable t) body)"
  by (cases "m = Lk_fdtable t") (auto intro: guards_locked guards_other assms)

lemma guards_fdremove_x: "m \<noteq> Lk_fdtable t \<Longrightarrow> guards obs m False False (fdremove_x_lk P t fd p)"
  unfolding fdremove_x_lk_def by (intro guards_rules guards_act frame_rules not_refs not_as obs_cwd obs_slot; simp)

lemma guards_fdassign [guards_rules]: "guards obs m False False (fdassign_lk t fd ff)"
  unfolding fdassign_lk_def
  by (rule guards_table) ((intro avoids_rules; simp), (intro guards_rules guards_act frame_rules not_refs not_as obs_cwd obs_slot; simp))

lemma guards_table_reads [guards_rules]:
  "guards obs m False False (fdalloc_lk t)" "guards obs m False False (fdget_lk t fd)"
  unfolding fdalloc_lk_def fdget_lk_def Let_def
  by (rule guards_table, intro avoids_rules, intro guards_rules guards_act frame_rules not_refs not_as obs_cwd)+

lemma guards_fdremove [guards_rules]: "guards obs m False False (fdremove_lk P t fd p)"
  unfolding fdremove_lk_def by (intro guards_table avoids_rules guards_fdremove_x)


lemma guards_getfdir [guards_rules]:
  "guards obs m False False (getfdir_lk P p dirfd)"
  unfolding getfdir_lk_def Let_def by (intro guards_rules guards_act frame_rules not_refs not_as obs_cwd; simp)+

lemma guards_io [guards_rules]:
  "guards obs m False False (sys_write_lk P p fd bufp sz)"
  "guards obs m False False (sys_read_lk P p fd bufp sz)"
  unfolding sys_write_lk_def sys_read_lk_def Let_def by (intro guards_rules guards_act frame_rules not_refs not_as obs_cwd; simp)+

lemma guards_iov_loop [guards_rules]:
  "(\<And>b n. guards obs m False False (f b n)) \<Longrightarrow> guards obs m False False (iov_loop_lk f iov k tot)"
  by (induction k arbitrary: iov tot) (auto intro!: guards_rules guards_act frame_rules not_refs not_as obs_cwd)

lemma guards_vectors [guards_rules]:
  "guards obs m False False (sys_writev_lk P p fd iovp iovcnt)"
  "guards obs m False False (sys_readv_lk P p fd iovp iovcnt)"
  unfolding sys_writev_lk_def sys_readv_lk_def Let_def by (intro guards_rules guards_act frame_rules not_refs not_as obs_cwd; simp)+

lemma guards_positions [guards_rules]:
  "guards obs m False False (sys_pread64_lk P p fd bufp sz offset)"
  "guards obs m False False (sys_lseek_lk P p fd offset whence)"
  "guards obs m False False (sys_getdents64_lk P p fd dirp cnt)"
  unfolding sys_pread64_lk_def sys_lseek_lk_def sys_getdents64_lk_def Let_def by (intro guards_rules guards_act frame_rules not_refs not_as obs_cwd; simp)+

lemma guards_open_slot [guards_rules]: "guards obs m False False (open_slot_lk P p f)"
  unfolding open_slot_lk_def by (intro guards_rules guards_act frame_rules not_refs not_as obs_cwd)

lemma guards_openat [guards_rules]:
  "guards obs m False False (sys_openat_lk P p dirfd pathp flags mode)"
  unfolding sys_openat_lk_def Let_def by (intro guards_rules guards_act frame_rules not_refs not_as obs_cwd; simp)+

lemma guards_open [guards_rules]:
  "guards obs m False False (sys_open_lk P p pathp flags mode)"
  "guards obs m False False (sys_close_lk P p fd)"
  unfolding sys_open_lk_def sys_close_lk_def Let_def by (intro guards_rules guards_act frame_rules not_refs not_as obs_cwd; simp)+

lemma guards_newfstatat [guards_rules]:
  "guards obs m False False (sys_newfstatat_lk P p dirfd pathp statbufp flags)"
  unfolding sys_newfstatat_lk_def Let_def by (intro guards_rules guards_act frame_rules not_refs not_as obs_cwd; simp)+

lemma guards_links [guards_rules]:
  "guards obs m False False (sys_readlinkat_lk P p dirfd pathp bufp sz)"
  "guards obs m False False (sys_unlinkat_lk P p dirfd pathp flags)"
  "guards obs m False False (sys_renameat_lk P p olddir oldpathp newdir newpathp)"
  "guards obs m False False (sys_faccessat2_lk P p dirfd pathp mode flags)"
  "guards obs m False False (sys_mkdirat_lk P p dirfd pathp mode)"
  unfolding sys_readlinkat_lk_def sys_unlinkat_lk_def sys_renameat_lk_def sys_faccessat2_lk_def sys_mkdirat_lk_def Let_def by (intro guards_rules guards_act frame_rules not_refs not_as obs_cwd; simp)+

lemma guards_attributes [guards_rules]:
  "guards obs m False False (sys_ftruncate_lk P p fd len)"
  "guards obs m False False (sys_fchown_lk P p fd owner grp)"
  "guards obs m False False (sys_fchmod_lk P p fd mode)"
  "guards obs m False False (sys_fsync_lk P p fd)"
  unfolding sys_ftruncate_lk_def sys_fchown_lk_def sys_fchmod_lk_def sys_fsync_lk_def Let_def by (intro guards_rules guards_act frame_rules not_refs not_as obs_cwd; simp)+

lemma guards_variants [guards_rules]:
  "guards obs m False False (sys_readlink_lk P p pathp bufp sz)"
  "guards obs m False False (sys_stat_lk P p pathp statbufp)"
  "guards obs m False False (sys_unlink_lk P p pathp)"
  "guards obs m False False (sys_rename_lk P p oldpathp newpathp)"
  "guards obs m False False (sys_faccessat_lk P p dirfd pathp mode)"
  "guards obs m False False (sys_access_lk P p pathp mode)"
  "guards obs m False False (sys_mkdir_lk P p pathp mode)"
  unfolding sys_readlink_lk_def sys_stat_lk_def sys_unlink_lk_def sys_rename_lk_def sys_faccessat_lk_def sys_access_lk_def sys_mkdir_lk_def Let_def by (intro guards_rules guards_act frame_rules not_refs not_as obs_cwd; simp)+

lemma guards_lstat [guards_rules]:
  "guards obs m False False (sys_lstat_lk P p pathp statbufp)"
  unfolding sys_lstat_lk_def Let_def by (intro guards_rules guards_act frame_rules not_refs not_as obs_cwd; simp)+

lemma guards_drop_cwd [guards_rules]:
  "guards obs m False False (drop_cwd_lk P p)"
  unfolding drop_cwd_lk_def Let_def by (intro guards_rules guards_act frame_rules not_refs not_as obs_cwd; simp)+

lemma guards_chdir [guards_rules]:
  "guards obs m False False (sys_chdir_lk P p pathp)"
  "guards obs m False False (sys_fchdir_lk P p fd)"
  unfolding sys_chdir_lk_def sys_fchdir_lk_def Let_def by (intro guards_rules guards_act frame_rules not_refs not_as obs_cwd; simp)+

lemma guards_mapfile [guards_rules]:
  "guards obs m False False (procmapfile_lk p fd)"
  unfolding procmapfile_lk_def Let_def by (intro guards_rules guards_act frame_rules not_refs not_as obs_cwd; simp)+

lemma guards_mappings [guards_rules]:
  "guards obs m False False (procmapany_lk P p sz prot flags fd offset)"
  "guards obs m False False (procmapat_lk P p start sz prot flags fd offset)"
  "guards obs m False False (procunmap_lk P p start sz)"
  unfolding procmapany_lk_def procmapat_lk_def procunmap_lk_def Let_def by (intro guards_rules guards_act frame_rules not_refs not_as obs_cwd; simp)+

lemma guards_brk_map [guards_rules]: "guards obs m False False (brk_map_lk P p pr brkp newsize)"
  unfolding brk_map_lk_def Let_def by (intro guards_rules guards_act frame_rules not_refs not_as obs_cwd)

lemma avoids_brk_map [avoids_rules]: "avoids (Lk_brk q) (brk_map_lk P p pr brkp newsize)"
  unfolding brk_map_lk_def Let_def by (intro avoids_rules no_exit_spaces; simp)

lemma guards_brk [guards_rules]: "guards obs m False False (sys_brk_lk P p addr)"
proof (cases "m = Lk_brk p")
  case True
  then show ?thesis unfolding sys_brk_lk_def Let_def
    by (auto intro!: guards_locked avoids_rules no_exit_more no_exit_spaces)
next
  case False
  then show ?thesis unfolding sys_brk_lk_def Let_def
    by (intro guards_other guards_rules guards_act frame_rules not_refs not_as obs_cwd obs_brk) auto
qed

lemma guards_memory [guards_rules]:
  "guards obs m False False (sys_mmap_lk P p addrup len prot flags fd off)"
  "guards obs m False False (sys_mprotect_lk P p addrup len prot)"
  "guards obs m False False (sys_munmap_lk P p addrup len)"
  unfolding sys_mmap_lk_def sys_mprotect_lk_def sys_munmap_lk_def Let_def by (intro guards_rules guards_act frame_rules not_refs not_as obs_cwd; simp)+

lemmas guards_file = guards_io guards_vectors guards_positions guards_openat guards_open guards_newfstatat guards_links
  guards_attributes guards_variants guards_lstat guards_chdir guards_brk guards_memory

lemma guards_clone: "guards obs m False False (act (case a of X64 \<Rightarrow> sys_clone P p a0 a1 a2 a3 a4 a5 | ARM64 \<Rightarrow> sys_clone P p a0 a1 a2 a4 a3 a5))"
  by (cases a) (auto intro!: guards_act leaves_clone)

lemma guards_cases:
  "list_all (\<lambda>(s, c). guards obs m False False c) (sys_cases_lk P p q a0 a1 a2 a3 a4 a5)"
  "list_all (\<lambda>(s, c). guards obs m False False c) (x64_cases_lk P p q r)"
  by (simp_all add: sys_cases_lk_def x64_cases_lk_def guards_ioC guards_act guards_DoneI guards_file guards_clone frame_rules)

lemma guards_syshandle [guards_rules]: "guards obs m False False (syshandle_lk P p n a0 a1 a2 a3 a4 a5)"
  unfolding syshandle_lk_def by (intro guards_rules guards_act frame_rules not_refs not_as obs_cwd guards_cases)

lemma guards_arch [guards_rules]:
  "guards obs m False False (arch_syshandle_x64_lk P ctx)" "guards obs m False False (arch_syshandle_arm64_lk P ctx)"
  unfolding arch_syshandle_x64_lk_def arch_syshandle_arm64_lk_def by (intro guards_rules guards_act frame_rules not_refs not_as obs_cwd guards_cases)+

lemma guards_arch_choice [guards_rules]: "guards obs m False False (arch_syshandle_lk P ctx)"
  unfolding arch_syshandle_lk_def by (cases "target P") (simp_all add: guards_arch)

lemma guards_handler [guards_rules]: "guards obs m False False (lfi_syscall_handler_lk P ctx)"
  unfolding lfi_syscall_handler_lk_def lfi_tux_syscall_lk_def by (intro guards_rules guards_act frame_rules not_refs not_as obs_cwd)

lemma guards_guest:
  "(\<And>g. g \<in> set gs \<Longrightarrow> leaves obs g) \<Longrightarrow> guards obs m False False (guest_thread P (ctx, gs))"
  unfolding guest_thread_def prod.case
  by (induction gs) (auto intro!: guards_rules guards_act)

lemma guest_writes:
  assumes "\<And>ctx gs g. (ctx, gs) \<in> set guests \<Longrightarrow> g \<in> set gs \<Longrightarrow> leaves obs g"
    and "(sched acc)\<^sup>*\<^sup>* (spawned w (map (guest_thread P) guests)) (v, own, ts)"
    and "i < length ts" "thread_step acc i (v, own, ts) = Moved (v', own', ts')"
  shows "obs v' = obs v \<or> own m = Some i"
proof (rule ccontr)
  assume "\<not> (obs v' = obs v \<or> own m = Some i)"
  moreover have "guards obs m False False c" if "c \<in> set (map (guest_thread P) guests)" for c
    using that assms(1) by (auto intro: guards_guest)
  ultimately show False using guarded_writes [OF _ assms(2-4)] by blast
qed

end

section \<open>Tables and breaks\<close>

definition table_of :: "ptr \<Rightarrow> ('x, 'z) tuxw_scheme \<Rightarrow> ptr list option" where
  "table_of t w = map_option (\<lambda>pr. ft_files (fdtable pr)) (procs w t)"

definition break_of :: "ptr \<Rightarrow> ('x, 'z) tuxw_scheme \<Rightarrow> u64 option" where
  "break_of p w = map_option brksize (procs w p)"

interpretation table: guarded_view "table_of t" "Lk_fdtable t" for t
  by unfold_locales
    (auto simp: table_of_def leaves_def slot_store_def set_proc_def wp_rules split: option.split)

interpretation break: guarded_view "break_of p" "Lk_brk p" for p
  by unfold_locales
    (auto simp: break_of_def leaves_def slot_store_def set_proc_def wp_rules split: option.split)

lemma leaves_parts: "leaves procs g \<Longrightarrow> leaves (table_of t) g" "leaves procs g \<Longrightarrow> leaves (break_of t) g"
  by (auto simp: leaves_def table_of_def break_of_def wp_def split: outcome.splits)

text \<open>C5. Descriptor tables and breaks change under their mutex only.  In any interleaving of any number of threads
  that make any system calls, a step that changes the descriptor table of a process is one of the thread that holds
  the mutex of the table, and a step that changes the size of its heap is one of the thread that holds \<^verbatim>\<open>lk_brk\<close>.  What the threads
  compute between calls is outside the processes' records.\<close>

theorem writes_guarded:
  assumes "\<And>ctx gs g. (ctx, gs) \<in> set guests \<Longrightarrow> g \<in> set gs \<Longrightarrow> leaves procs g"
    and "(sched acc)\<^sup>*\<^sup>* (spawned w (map (guest_thread P) guests)) (v, own, ts)"
    and "i < length ts" "thread_step acc i (v, own, ts) = Moved (v', own', ts')"
  shows "(table_of t v' = table_of t v \<or> own (Lk_fdtable t) = Some i) \<and> (break_of t v' = break_of t v \<or> own (Lk_brk t) = Some i)"
  using table.guest_writes [OF _ assms(2-4), of t] break.guest_writes [OF _ assms(2-4), of t] leaves_parts assms(1) by blast

theorem writes_guarded_witness:
  "\<exists>c. thread_step mutex_live 0 (demo_world, Map.empty, [guest_thread demo_env (13, [ret ()])]) = Moved c \<and>
     table_of 14 (fst c) = table_of 14 demo_world \<and> break_of 14 (fst c) = break_of 14 demo_world"
proof -
  let ?g = "[(13, [ret ()])]"
  have run: "(sched mutex_live)\<^sup>*\<^sup>* (spawned demo_world (map (guest_thread demo_env) ?g)) (demo_world, Map.empty, [guest_thread demo_env (13, [ret ()])])"
    by (simp add: spawned_def)
  have st: "thread_step mutex_live 0 (demo_world, Map.empty, [guest_thread demo_env (13, [ret ()])]) =
      Moved (demo_world, Map.empty, [bindC (lfi_syscall_handler_lk demo_env 13) (\<lambda>_. Done ())])"
    by (simp add: guest_thread_def thread_step_def act_def ret_def)
  have "(table_of 14 demo_world = table_of 14 demo_world \<or> Map.empty (Lk_fdtable 14) = Some (0::nat)) \<and>
      (break_of 14 demo_world = break_of 14 demo_world \<or> Map.empty (Lk_brk 14) = Some (0::nat))"
    by (rule writes_guarded [OF _ run _ st]) (auto intro: frame_rules)
  with st show ?thesis by auto
qed

end
