(* ===== verification/Tux_Elf.thy ===== *)
theory Tux_Elf
  imports Tux_SysMem
begin

text \<open>
  Buffers (\<^verbatim>\<open>src/buf.h\<close>, \<^verbatim>\<open>src/buf.c\<close>) and the ELF loader (\<^verbatim>\<open>src/elfload.h\<close>,
  \<^verbatim>\<open>src/elfload.c\<close>): headers decoded from the bytes of the file, the segments
  mapped and copied into the sandbox, the stack, and the interpreter.  Reading outside
  a buffer is the fault \<open>OutOfBounds\<close>, and a page size of 0 the fault \<open>DivByZero\<close>.
\<close>

section \<open>Constants\<close>

abbreviation (input) ELF_MAGIC :: u32 where "ELF_MAGIC \<equiv> 0x464C457F"
abbreviation (input) PT_LOAD :: u32 where "PT_LOAD \<equiv> 1"
abbreviation (input) PT_INTERP :: u32 where "PT_INTERP \<equiv> 3"
abbreviation (input) ET_EXEC :: u16 where "ET_EXEC \<equiv> 2"
abbreviation (input) ET_DYN :: u16 where "ET_DYN \<equiv> 3"
abbreviation (input) PF_X :: u32 where "PF_X \<equiv> 1"
abbreviation (input) PF_W :: u32 where "PF_W \<equiv> 2"
abbreviation (input) PF_R :: u32 where "PF_R \<equiv> 4"
abbreviation (input) ELFCLASS64 :: u8 where "ELFCLASS64 \<equiv> 2"
abbreviation (input) EV_CURRENT :: u32 where "EV_CURRENT \<equiv> 1"
abbreviation (input) INTERP_MAX :: u64 where "INTERP_MAX \<equiv> 1024"
abbreviation (input) PHNUM_MAX :: u16 where "PHNUM_MAX \<equiv> 64"
abbreviation (input) STACKSIZE :: u64 where "STACKSIZE \<equiv> 0x200000"
abbreviation (input) CODEMAX :: u64 where "CODEMAX \<equiv> 0x40000000"
abbreviation (input) MAPANON :: u32 where "MAPANON \<equiv> LFI_MAP_PRIVATE OR LFI_MAP_ANONYMOUS"

section \<open>Buffers\<close>

text \<open>\<open>data\<close> is the object the pointer of the buffer points to, or \<open>None\<close> for \<^verbatim>\<open>NULL\<close>.\<close>

record buf_t =
  data :: "bytes option"
  size_of :: u64

text \<open>
  \<^verbatim>\<open>bufread\<close>, with the bytes it copies as its result; their number is what it
  returns.  The test \<^verbatim>\<open>offset + count > buf.size\<close> and the difference are computed in
  64 bits.
\<close>

definition bufread :: "buf_t \<Rightarrow> u64 \<Rightarrow> u64 \<Rightarrow> ('s, bytes) prog" where
  "bufread buf cnt offset =
     (let cnt = (if offset + cnt > size_of buf then size_of buf - offset else cnt)
      in case data buf of
           None \<Rightarrow> if cnt = 0 then ret [] else raise NullDeref
         | Some d \<Rightarrow>
             if unat offset + unat cnt \<le> length d then ret (take (unat cnt) (drop (unat offset) d))
             else raise OutOfBounds)"

text \<open>\<^verbatim>\<open>bufwrite\<close>: the buffer after the call, or \<open>None\<close> when \<^verbatim>\<open>realloc\<close> fails.\<close>

definition bufwrite :: "bool \<Rightarrow> buf_t \<Rightarrow> bytes \<Rightarrow> buf_t option" where
  "bufwrite full buf bs =
     (if full then None
      else Some \<lparr>data = Some (take (unat (size_of buf)) (case data buf of None \<Rightarrow> [] | Some d \<Rightarrow> d) @ bs),
                 size_of = size_of buf + of_nat (length bs)\<rparr>)"

abbreviation (input) no_buf :: buf_t where "no_buf \<equiv> \<lparr>data = None, size_of = 0\<rparr>"

definition bufreadfile :: "('x, 'e) tuxenv_scheme \<Rightarrow> ptr \<Rightarrow> bytes \<Rightarrow> (('x, 'z) tuxw_scheme, buf_t) prog" where
  "bufreadfile P tux filename =
     bindM (deref tuxes tux) (\<lambda>t.
     bindM (if opt_fs (t_opts t) then opts_fs_open P filename TUX_O_RDONLY 0 else ret NULL) (\<lambda>f0.
     bindM (if f0 = NULL then host_openat P NULL filename TUX_O_RDONLY 0 else ret f0) (\<lambda>f.
     if f = NULL then ret no_buf
     else
       bindM (host_seek P f 0 TUX_SEEK_END) (\<lambda>n.
       if n < 0 then bindM (host_close P f) (\<lambda>_. ret no_buf)
       else
         bindM (host_seek P f 0 TUX_SEEK_SET) (\<lambda>_.
         bindM (host_mmap P 0 (word_of_int n) LFI_PROT_READ LFI_MAP_PRIVATE f 0) (\<lambda>a.
         if a = - 1 then bindM (host_close P f) (\<lambda>_. ret no_buf)
         else
           bindM (host_close P f) (\<lambda>_.
           bindM (gets mem) (\<lambda>m.
           ret \<lparr>data = Some (load_bytes m a (unat (word_of_int n :: u64))), size_of = word_of_int n\<rparr>))))))))"

section \<open>Headers\<close>

record FileHeader =
  magic :: u32
  width :: u8
  e_type :: u16
  machine :: u16
  e_version :: u32
  e_entry :: u64
  phoff :: u64
  shoff :: u64
  e_flags :: u32
  ehsize :: u16
  phentsize :: u16
  phnum :: u16
  shentsize :: u16
  shnum :: u16
  shstrndx :: u16

record ProgHeader =
  p_type :: u32
  p_flags :: u32
  p_offset :: u64
  p_vaddr :: u64
  p_paddr :: u64
  p_filesz :: u64
  p_memsz :: u64
  p_align :: u64

definition field :: "bytes \<Rightarrow> nat \<Rightarrow> nat \<Rightarrow> u64" where
  "field bs off n = le_word (take n (drop off bs))"

text \<open>The structures as they lie in memory: no padding, 64 and 56 bytes.\<close>

definition file_header :: "bytes \<Rightarrow> FileHeader" where
  "file_header bs =
     \<lparr>magic = ucast (field bs 0 4), width = ucast (field bs 4 1), e_type = ucast (field bs 16 2),
      machine = ucast (field bs 18 2), e_version = ucast (field bs 20 4), e_entry = field bs 24 8,
      phoff = field bs 32 8, shoff = field bs 40 8, e_flags = ucast (field bs 48 4), ehsize = ucast (field bs 52 2),
      phentsize = ucast (field bs 54 2), phnum = ucast (field bs 56 2), shentsize = ucast (field bs 58 2),
      shnum = ucast (field bs 60 2), shstrndx = ucast (field bs 62 2)\<rparr>"

definition prog_header :: "bytes \<Rightarrow> ProgHeader" where
  "prog_header bs =
     \<lparr>p_type = ucast (field bs 0 4), p_flags = ucast (field bs 4 4), p_offset = field bs 8 8, p_vaddr = field bs 16 8,
      p_paddr = field bs 24 8, p_filesz = field bs 32 8, p_memsz = field bs 40 8, p_align = field bs 48 8\<rparr>"

abbreviation (input) FILE_HEADER_SIZE :: u64 where "FILE_HEADER_SIZE \<equiv> 64"
abbreviation (input) PROG_HEADER_SIZE :: u64 where "PROG_HEADER_SIZE \<equiv> 56"

text \<open>The array of program headers.\<close>

definition prog_headers :: "bytes \<Rightarrow> u16 \<Rightarrow> ProgHeader list" where
  "prog_headers bs n = map (\<lambda>i. prog_header (drop (56 * i) bs)) [0..<unat n]"

definition elfcheck :: "FileHeader \<Rightarrow> bool" where
  "elfcheck ehdr \<longleftrightarrow> magic ehdr = ELF_MAGIC \<and> width ehdr = ELFCLASS64 \<and> e_version ehdr = EV_CURRENT \<and>
     (e_type ehdr = ET_DYN \<or> e_type ehdr = ET_EXEC)"

definition pflags :: "u32 \<Rightarrow> u32" where
  "pflags prot = (if prot AND PF_R \<noteq> 0 then LFI_PROT_READ else 0) OR
     (if prot AND PF_W \<noteq> 0 then LFI_PROT_WRITE else 0) OR
     (if prot AND PF_X \<noteq> 0 then LFI_PROT_EXEC else 0)"

section \<open>The interpreter\<close>

fun find_interp :: "('x, 'e) tuxenv_scheme \<Rightarrow> buf_t \<Rightarrow> ProgHeader list \<Rightarrow> (('x, 'z) tuxw_scheme, bytes option) prog" where
  "find_interp P prog [] = ret None"
| "find_interp P prog (ph # phs) =
     (if p_type ph = PT_INTERP then
        if p_filesz ph \<ge> INTERP_MAX then ret None
        else
          bindM (malloc P) (\<lambda>a.
          if a = NULL then ret None
          else
            bindM (bufread prog (p_filesz ph) (p_offset ph)) (\<lambda>bs.
            if of_nat (length bs) \<noteq> p_filesz ph then ret None else ret (Some bs)))
      else find_interp P prog phs)"

definition elfinterp :: "('x, 'e) tuxenv_scheme \<Rightarrow> buf_t \<Rightarrow> (('x, 'z) tuxw_scheme, bytes option) prog" where
  "elfinterp P prog =
     bindM (bufread prog FILE_HEADER_SIZE 0) (\<lambda>hb.
     if of_nat (length hb) \<noteq> FILE_HEADER_SIZE then ret None
     else
       let ehdr = file_header hb in
       if phnum ehdr \<ge> PHNUM_MAX then ret None
       else
         bindM (bufread prog (PROG_HEADER_SIZE * ucast (phnum ehdr)) (phoff ehdr)) (\<lambda>pb.
         if of_nat (length pb) \<noteq> PROG_HEADER_SIZE * ucast (phnum ehdr) then ret None
         else find_interp P prog (prog_headers pb (phnum ehdr))))"

section \<open>Segments\<close>

text \<open>No file of the repository defines \<^verbatim>\<open>TUX_SANITIZE_CODE\<close>, so the preprocessor takes it as 0.\<close>

definition TUX_SANITIZE_CODE :: bool where "TUX_SANITIZE_CODE = False"

definition sanitize :: "('x, 'e) tuxenv_scheme \<Rightarrow> u64 \<Rightarrow> u64 \<Rightarrow> u32 \<Rightarrow> (('x, 'z) tuxw_scheme, unit) prog" where
  "sanitize P a sz prot =
     (if prot AND LFI_PROT_EXEC = 0 then ret ()
      else if target P = X64 \<and> TUX_SANITIZE_CODE then write_mem a (replicate (unat sz) 0xcc)
      else ret ())"

definition bufreadelfseg ::
  "('x, 'e) tuxenv_scheme \<Rightarrow> ptr \<Rightarrow> u64 \<Rightarrow> u64 \<Rightarrow> u64 \<Rightarrow> u64 \<Rightarrow> u64 \<Rightarrow> u32 \<Rightarrow> buf_t \<Rightarrow> u64 \<Rightarrow> (('x, 'z) tuxw_scheme, bool) prog" where
  "bufreadelfseg P as start offset end' p_off filesz prot buf pgsz =
     bindM (lfi_as_mapat P as start (end' - start) (LFI_PROT_READ OR LFI_PROT_WRITE) MAPANON NULL 0) (\<lambda>p.
     if p = - 1 then ret False
     else
       bindM (sanitize P p pgsz prot) (\<lambda>_.
       bindM (sanitize P (end' - pgsz) pgsz prot) (\<lambda>_.
       bindM (bufread buf filesz p_off) (\<lambda>bs.
       bindM (write_mem (start + offset) bs) (\<lambda>_.
       if of_nat (length bs) \<noteq> filesz then ret False
       else
         bindM (lfi_as_mprotect P as start (end' - start) prot) (\<lambda>r.
         ret (\<not> r < 0)))))))"

text \<open>The variables of \<^verbatim>\<open>load\<close> that the loop changes.\<close>

record loadvars =
  l_base :: u64
  l_first :: u64
  l_last :: u64

text \<open>The range of a segment before and after the adjustment for fixed executables.\<close>

definition seg_start :: "ProgHeader \<Rightarrow> u64" where
  "seg_start p = truncp (p_vaddr p) (p_align p)"

definition seg_end :: "ProgHeader \<Rightarrow> u64" where
  "seg_end p = ceilp (p_vaddr p + p_memsz p) (p_align p)"

text \<open>One iteration: \<open>None\<close> stands for \<^verbatim>\<open>goto err1\<close>.\<close>

definition load_segment ::
  "('x, 'e) tuxenv_scheme \<Rightarrow> ptr \<Rightarrow> LFIAddrSpaceInfo \<Rightarrow> FileHeader \<Rightarrow> u64 \<Rightarrow> buf_t \<Rightarrow> u64 \<Rightarrow> ProgHeader \<Rightarrow> loadvars \<Rightarrow>
   (('x, 'z) tuxw_scheme, loadvars option) prog" where
  "load_segment P as info ehdr elfbase buf pgsz p st =
     (if p_type p \<noteq> PT_LOAD then ret (Some st)
      else if p_memsz p = 0 then ret (Some st)
      else if pgsz = 0 then raise DivByZero
      else if p_align p mod pgsz \<noteq> 0 then ret None
      else
        let start = seg_start p; end' = seg_end p; offset = p_vaddr p - start;
            first = (if l_first st = 0 \<or> elfbase + start < l_first st then elfbase + start else l_first st);
            delta = l_base st - info_base info
        in if e_type ehdr = ET_EXEC \<and> start < delta then ret None
           else
             let start = (if e_type ehdr = ET_EXEC then start - delta else start);
                 end' = (if e_type ehdr = ET_EXEC then end' - delta else end')
             in if p_memsz p < p_filesz p then ret None
                else if end' \<le> start \<or> start \<ge> CODEMAX \<or> end' \<ge> CODEMAX then ret None
                else
                  bindM (bufreadelfseg P as (l_base st + start) offset (l_base st + end') (p_offset p) (p_filesz p)
                          (pflags (p_flags p)) buf pgsz) (\<lambda>ok.
                  if \<not> ok then ret None
                  else
                    let base = (if l_base st = 0 then l_base st + start else l_base st)
                    in ret (Some \<lparr>l_base = base, l_first = first,
                             l_last = (if base + end' > l_last st then base + end' else l_last st)\<rparr>)))"

fun load_loop ::
  "('x, 'e) tuxenv_scheme \<Rightarrow> ptr \<Rightarrow> LFIAddrSpaceInfo \<Rightarrow> FileHeader \<Rightarrow> u64 \<Rightarrow> buf_t \<Rightarrow> u64 \<Rightarrow> ProgHeader list \<Rightarrow> loadvars \<Rightarrow>
   (('x, 'z) tuxw_scheme, loadvars option) prog" where
  "load_loop P as info ehdr elfbase buf pgsz [] st = ret (Some st)"
| "load_loop P as info ehdr elfbase buf pgsz (p # ps) st =
     bindM (load_segment P as info ehdr elfbase buf pgsz p st) (\<lambda>r.
     case r of None \<Rightarrow> ret None | Some st \<Rightarrow> load_loop P as info ehdr elfbase buf pgsz ps st)"

text \<open>\<^verbatim>\<open>load\<close>: the first and last address and the entry point, or \<open>None\<close> for failure.\<close>

definition load ::
  "('x, 'e) tuxenv_scheme \<Rightarrow> ptr \<Rightarrow> buf_t \<Rightarrow> u64 \<Rightarrow> u64 \<Rightarrow> (('x, 'z) tuxw_scheme, (u64 \<times> u64 \<times> u64) option) prog" where
  "load P as buf base pgsz =
     bindM (lfi_as_info as) (\<lambda>info.
     bindM (bufread buf FILE_HEADER_SIZE 0) (\<lambda>hb.
     if of_nat (length hb) \<noteq> FILE_HEADER_SIZE then ret None
     else
       let ehdr = file_header hb in
       if \<not> elfcheck ehdr then ret None
       else
         bindM (malloc P) (\<lambda>a.
         if a = NULL then ret None
         else
           bindM (bufread buf (PROG_HEADER_SIZE * ucast (phnum ehdr)) (phoff ehdr)) (\<lambda>pb.
           if of_nat (length pb) \<noteq> PROG_HEADER_SIZE * ucast (phnum ehdr) then ret None
           else if e_entry ehdr \<ge> CODEMAX then ret None
           else
             let elfbase = (if e_type ehdr = ET_DYN then base else info_base info) in
             bindM (load_loop P as info ehdr elfbase buf pgsz (prog_headers pb (phnum ehdr))
                     \<lparr>l_base = base, l_first = 0, l_last = 0\<rparr>) (\<lambda>r.
             case r of None \<Rightarrow> ret None
             | Some st \<Rightarrow>
                 ret (Some (l_first st, l_last st,
                   if e_type ehdr = ET_DYN then l_base st + e_entry ehdr else info_base info + e_entry ehdr)))))))"

section \<open>Programs\<close>

record LFILoadInfo =
  li_stack :: u64
  li_stacksize :: u64
  lastva :: u64
  elfentry :: u64
  ldentry :: u64
  elfbase :: u64
  ldbase :: u64
  elfphoff :: u64
  elfphnum :: u16
  elfphentsize :: u16

record LFILoadOpts =
  lo_stacksize :: u64
  lo_pagesize :: u64
  lo_perf :: bool

text \<open>\<^verbatim>\<open>perf_output_jit_interface_file\<close> in a build without libelf.\<close>

definition perf_output_jit_interface_file :: "bytes \<Rightarrow> u64 \<Rightarrow> u64 \<Rightarrow> ('s, int) prog" where
  "perf_output_jit_interface_file buffer file_size offset = ret 0"

definition lfi_proc_loadelf ::
  "('x, 'e) tuxenv_scheme \<Rightarrow> ptr \<Rightarrow> buf_t \<Rightarrow> buf_t \<Rightarrow> LFILoadOpts \<Rightarrow> (('x, 'z) tuxw_scheme, LFILoadInfo option) prog" where
  "lfi_proc_loadelf P as prog interp lopts =
     bindM (lfi_as_info as) (\<lambda>info.
     let stacksize = lo_stacksize lopts in
     bindM (lfi_as_mapat P as (info_maxaddr info - stacksize) stacksize (LFI_PROT_READ OR LFI_PROT_WRITE) MAPANON NULL 0) (\<lambda>stk.
     if stk = - 1 then ret None
     else
       let base = info_minaddr info; hasinterp = (data interp \<noteq> None) in
       bindM (load P as prog base (lo_pagesize lopts)) (\<lambda>r.
       case r of None \<Rightarrow> ret None
       | Some (pfirst, plast, pentry) \<Rightarrow>
           bindM (if hasinterp then load P as interp plast (lo_pagesize lopts) else ret (Some (pfirst, plast, 0))) (\<lambda>ri.
           case ri of None \<Rightarrow> ret None
           | Some (ifirst, ilast, ientry) \<Rightarrow>
               bindM (if lo_perf lopts then perf_output_jit_interface_file (case data prog of None \<Rightarrow> [] | Some d \<Rightarrow> d) (size_of prog) pfirst
                      else ret 0) (\<lambda>e.
               if e \<noteq> 0 then ret None
               else
                 bindM (bufread prog FILE_HEADER_SIZE 0) (\<lambda>hb.
                 bindM (assertM (length hb = unat FILE_HEADER_SIZE)) (\<lambda>_.
                 let ehdr = file_header hb in
                 ret (Some \<lparr>li_stack = stk, li_stacksize = stacksize,
                   lastva = (if hasinterp then ilast else plast), elfentry = pentry,
                   ldentry = (if hasinterp then ientry else 0), elfbase = pfirst,
                   ldbase = (if hasinterp then ifirst else pfirst),
                   elfphoff = phoff ehdr, elfphnum = phnum ehdr, elfphentsize = phentsize ehdr\<rparr>))))))))"

definition elfload ::
  "('x, 'e) tuxenv_scheme \<Rightarrow> ptr \<Rightarrow> buf_t \<Rightarrow> buf_t \<Rightarrow> (('x, 'z) tuxw_scheme, LFILoadInfo option) prog" where
  "elfload P p prog interp =
     bindM (deref threads p) (\<lambda>th.
     bindM (deref procs (proc th)) (\<lambda>pr.
     bindM (deref tuxes (p_tux pr)) (\<lambda>t.
     lfi_proc_loadelf P (p_as pr) prog interp
       \<lparr>lo_stacksize = STACKSIZE, lo_pagesize = opt_pagesize (t_opts t), lo_perf = opt_perf (t_opts t)\<rparr>)))"

end
