(* ===== verification/Tux_Proc.thy ===== *)
theory Tux_Proc
  imports Tux_Elf Tux_SysThread
begin

text \<open>
  The creation of an instance of the library (\<^verbatim>\<open>lfi_tux_new\<close>, \<^verbatim>\<open>src/tux.c\<close>) and of a
  process (\<^verbatim>\<open>src/proc.c\<close>): the objects, the program and its interpreter, the
  stack with arguments and auxiliary vector, the registers and the break region.
\<close>

section \<open>Instances\<close>

definition lfi_tux_new :: "('x, 'e) tuxenv_scheme \<Rightarrow> ptr \<Rightarrow> TuxOptions \<Rightarrow> (('x, 'z) tuxw_scheme, ptr) prog" where
  "lfi_tux_new P plat topts =
     bindM (malloc P) (\<lambda>tux.
     if tux = NULL then ret NULL
     else
       bindM (modifyM (\<lambda>w. w\<lparr>tuxes := (tuxes w)(tux \<mapsto>
          \<lparr>t_plat = plat, t_opts = topts, fstdin = NULL, fstdout = NULL, fstderr = NULL\<rparr>)\<rparr>)) (\<lambda>_.
       bindM (filefnew P host_stdin TUX_O_RDONLY) (\<lambda>fin.
       if fin = NULL then bindM (modifyM (\<lambda>w. w\<lparr>tuxes := (tuxes w)(tux := None)\<rparr>)) (\<lambda>_. ret NULL)
       else
         bindM (set_tux tux (\<lambda>t. t\<lparr>fstdin := fin\<rparr>)) (\<lambda>_.
         bindM (filefnew P host_stdout TUX_O_WRONLY) (\<lambda>fout.
         if fout = NULL then
           bindM (modifyM (\<lambda>w. w\<lparr>fdfiles := (fdfiles w)(fin := None), tuxes := (tuxes w)(tux := None)\<rparr>)) (\<lambda>_. ret NULL)
         else
           bindM (set_tux tux (\<lambda>t. t\<lparr>fstdout := fout\<rparr>)) (\<lambda>_.
           bindM (filefnew P host_stderr TUX_O_WRONLY) (\<lambda>ferr.
           if ferr = NULL then
             bindM (modifyM (\<lambda>w. w\<lparr>fdfiles := (fdfiles w)(fout := None, fin := None), tuxes := (tuxes w)(tux := None)\<rparr>)) (\<lambda>_. ret NULL)
           else
             bindM (set_tux tux (\<lambda>t. t\<lparr>fstderr := ferr\<rparr>)) (\<lambda>_.
             bindM (set_fdfile fin (\<lambda>f. f\<lparr>refs := refs f + 1\<rparr>)) (\<lambda>_.
             bindM (set_fdfile fout (\<lambda>f. f\<lparr>refs := refs f + 1\<rparr>)) (\<lambda>_.
             bindM (set_fdfile ferr (\<lambda>f. f\<lparr>refs := refs f + 1\<rparr>)) (\<lambda>_.
             bindM (lfi_sys_handler plat Lfi_tux_syscall) (\<lambda>_.
             ret tux))))))))))))"

section \<open>Objects of a process\<close>

text \<open>\<^verbatim>\<open>calloc\<close>: all members 0.\<close>

definition zero_proc :: TuxProc where
  "zero_proc = \<lparr>p_as = NULL, brkbase = 0, brksize = 0, fdtable = \<lparr>ft_files = replicate TUX_NOFILE NULL\<rparr>,
     cwd = \<lparr>dir_file = NULL, dir_fd = NULL\<rparr>, p_tux = NULL,
     p_info = \<lparr>info_base = 0, info_size = 0, info_minaddr = 0, info_maxaddr = 0\<rparr>\<rparr>"

definition procnewempty :: "('x, 'e) tuxenv_scheme \<Rightarrow> (('x, 'z) tuxw_scheme, ptr) prog" where
  "procnewempty P =
     bindM (malloc P) (\<lambda>q.
     if q = NULL then ret NULL
     else
       bindM (modifyM (\<lambda>w. w\<lparr>procs := (procs w)(q \<mapsto> zero_proc)\<rparr>)) (\<lambda>_.
       bindM (malloc P) (\<lambda>p.
       if p = NULL then bindM (modifyM (\<lambda>w. w\<lparr>procs := (procs w)(q := None)\<rparr>)) (\<lambda>_. ret NULL)
       else
         bindM (nexttid) (\<lambda>i.
         bindM (modifyM (\<lambda>w. w\<lparr>threads := (threads w)(p \<mapsto>
           \<lparr>p_ctx = NULL, stack = 0, ctid = 0, tid = i, proc = q\<rparr>)\<rparr>)) (\<lambda>_.
         ret p)))))"

definition procfree :: "ptr \<Rightarrow> ('s, unit) prog" where
  "procfree p = ret ()"

section \<open>The initial stack\<close>

abbreviation (input) ARGC_MAX :: nat where "ARGC_MAX \<equiv> 1024"
abbreviation (input) ARGV_MAX :: nat where "ARGV_MAX \<equiv> 1024"
abbreviation (input) ARG_BLOCK :: u64 where "ARG_BLOCK \<equiv> 4096"

abbreviation (input) AT_NULL :: u64 where "AT_NULL \<equiv> 0"
abbreviation (input) AT_PHDR :: u64 where "AT_PHDR \<equiv> 3"
abbreviation (input) AT_PHENT :: u64 where "AT_PHENT \<equiv> 4"
abbreviation (input) AT_PHNUM :: u64 where "AT_PHNUM \<equiv> 5"
abbreviation (input) AT_PAGESZ :: u64 where "AT_PAGESZ \<equiv> 6"
abbreviation (input) AT_BASE :: u64 where "AT_BASE \<equiv> 7"
abbreviation (input) AT_FLAGS :: u64 where "AT_FLAGS \<equiv> 8"
abbreviation (input) AT_ENTRY :: u64 where "AT_ENTRY \<equiv> 9"
abbreviation (input) AT_UID :: u64 where "AT_UID \<equiv> 11"
abbreviation (input) AT_EUID :: u64 where "AT_EUID \<equiv> 12"
abbreviation (input) AT_GID :: u64 where "AT_GID \<equiv> 13"
abbreviation (input) AT_EGID :: u64 where "AT_EGID \<equiv> 14"
abbreviation (input) AT_HWCAP :: u64 where "AT_HWCAP \<equiv> 16"
abbreviation (input) AT_HWCAP2 :: u64 where "AT_HWCAP2 \<equiv> 17"
abbreviation (input) AT_SECURE :: u64 where "AT_SECURE \<equiv> 23"
abbreviation (input) AT_RANDOM :: u64 where "AT_RANDOM \<equiv> 25"
abbreviation (input) AT_EXECFN :: u64 where "AT_EXECFN \<equiv> 31"
abbreviation (input) AT_SYSINFO :: u64 where "AT_SYSINFO \<equiv> 32"
abbreviation (input) AT_SYSINFO_EHDR :: u64 where "AT_SYSINFO_EHDR \<equiv> 33"

text \<open>
  The strings of \<^verbatim>\<open>argv\<close> are given without their terminators.  The bytes copied
  for one are its first \<open>ARGV_MAX\<close> bytes and a terminator.
\<close>

definition arg_bytes :: "bytes \<Rightarrow> bytes" where
  "arg_bytes s = take ARGV_MAX s @ [0]"

text \<open>The first loop, from index \<open>i\<close>: the addresses stored in \<^verbatim>\<open>argv_ptrs\<close>, or \<open>None\<close> for \<^verbatim>\<open>return false\<close>.\<close>

fun argv_strings :: "u64 \<Rightarrow> nat \<Rightarrow> bytes list \<Rightarrow> u64 \<Rightarrow> (('x, 'z) tuxw_scheme, u64 list option) prog" where
  "argv_strings stack_top i [] p_argv = ret (Some [])"
| "argv_strings stack_top i (s # ss) p_argv =
     (let len = of_nat (length (arg_bytes s)) in
      if p_argv + len \<ge> stack_top then ret None
      else
        bindM (write_mem p_argv (arg_bytes s)) (\<lambda>_.
        if i \<ge> ARGC_MAX then raise OutOfBounds
        else
          bindM (argv_strings stack_top (Suc i) ss (p_argv + len)) (\<lambda>r.
          ret (map_option (\<lambda>ps. p_argv # ps) r))))"

text \<open>The second loop: whether it ended without \<^verbatim>\<open>return false\<close>.\<close>

fun argv_pointers :: "ptr \<Rightarrow> u64 \<Rightarrow> u64 \<Rightarrow> nat \<Rightarrow> u64 list \<Rightarrow> (('x, 'z) tuxw_scheme, bool) prog" where
  "argv_pointers as stack_top p_argvp i [] = ret True"
| "argv_pointers as stack_top p_argvp i (a # as') =
     (if p_argvp \<ge> stack_top - ARG_BLOCK then ret False
      else
        bindM (lfi_as_toptr as a) (\<lambda>v.
        bindM (write_u64 (p_argvp + 8 * of_nat i) v) (\<lambda>_.
        argv_pointers as stack_top p_argvp (Suc i) as')))"

text \<open>The auxiliary vector; \<open>arg0\<close> is the first argument's address in the sandbox.\<close>

definition auxv_entries :: "LFILoadInfo \<Rightarrow> u64 \<Rightarrow> u64 \<Rightarrow> (u64 \<times> u64) list" where
  "auxv_entries info pgsz arg0 = [
     (AT_SECURE, 0), (AT_BASE, ldbase info), (AT_PHDR, elfbase info + elfphoff info),
     (AT_PHNUM, ucast (elfphnum info)), (AT_PHENT, ucast (elfphentsize info)), (AT_ENTRY, elfentry info),
     (AT_EXECFN, arg0), (AT_PAGESZ, pgsz), (AT_HWCAP, 0), (AT_HWCAP2, 0), (AT_RANDOM, arg0), (AT_FLAGS, 0),
     (AT_UID, 1000), (AT_EUID, 1000), (AT_GID, 1000), (AT_EGID, 1000), (AT_SYSINFO, 0), (AT_SYSINFO_EHDR, 0),
     (AT_NULL, 0)]"

definition auxv_bytes :: "(u64 \<times> u64) list \<Rightarrow> bytes" where
  "auxv_bytes es = concat (map (\<lambda>(t, v). le_bytes 8 t @ le_bytes 8 v) es)"

text \<open>
  \<^verbatim>\<open>stacksetup\<close>: the new stack pointer, or \<open>None\<close> for failure.  \<^verbatim>\<open>lfi_as_toptr\<close> is
  applied to the first pointer, read back from the stack, for \<^verbatim>\<open>AT_EXECFN\<close>; for
  \<^verbatim>\<open>AT_RANDOM\<close> the same call is repeated.
\<close>

definition stacksetup ::
  "ptr \<Rightarrow> bytes list \<Rightarrow> LFILoadInfo \<Rightarrow> (('x, 'z) tuxw_scheme, u64 option) prog" where
  "stacksetup p argv info =
     (let stack_top = li_stack info + li_stacksize info;
          p_argc = stack_top - 2 * ARG_BLOCK;
          p_argvp = p_argc + 8;
          argc = length argv
      in bindM (argv_strings stack_top 0 argv (stack_top - ARG_BLOCK)) (\<lambda>r.
         case r of None \<Rightarrow> ret None
         | Some argv_ptrs \<Rightarrow>
             bindM (write_u64 p_argc (of_nat argc)) (\<lambda>_.
             bindM (deref procs p) (\<lambda>pr.
             bindM (argv_pointers (p_as pr) stack_top p_argvp 0 argv_ptrs) (\<lambda>ok.
             if \<not> ok then ret None
             else
               bindM (write_u64 (p_argvp + 8 * of_nat argc) 0) (\<lambda>_.
               bindM (write_u64 (p_argvp + 8 * (of_nat argc + 1)) 0) (\<lambda>_.
               bindM (gets (\<lambda>w. le_word (load_bytes (mem w) p_argvp 8))) (\<lambda>a0.
               bindM (lfi_as_toptr (p_as pr) a0) (\<lambda>arg0.
               bindM (deref tuxes (p_tux pr)) (\<lambda>t.
               bindM (write_mem (p_argvp + 8 * (of_nat argc + 2))
                       (auxv_bytes (auxv_entries info (opt_pagesize (t_opts t)) arg0))) (\<lambda>_.
               ret (Some p_argc))))))))))))"

section \<open>Setting up a process\<close>

definition procsetup ::
  "('x, 'e) tuxenv_scheme \<Rightarrow> ptr \<Rightarrow> buf_t \<Rightarrow> buf_t \<Rightarrow> bytes list \<Rightarrow> (('x, 'z) tuxw_scheme, bool) prog" where
  "procsetup P p prog interp argv =
     bindM (elfload P p prog interp) (\<lambda>r.
     case r of None \<Rightarrow> ret False
     | Some info \<Rightarrow>
         bindM (deref threads p) (\<lambda>th.
         bindM (stacksetup (proc th) argv info) (\<lambda>rs.
         case rs of None \<Rightarrow> ret False
         | Some sp \<Rightarrow>
             let entry = (if data interp \<noteq> None then ldentry info else elfentry info) in
             bindM (lfi_ctx_regs (p_ctx th)) (\<lambda>r.
             bindM (set_ctx_regs (p_ctx th) (regs_init (target P) r entry sp)) (\<lambda>_.
             bindM (set_proc (proc th) (\<lambda>pr. pr\<lparr>brkbase := lastva info, brksize := 0\<rparr>)) (\<lambda>_.
             bindM (deref procs (proc th)) (\<lambda>pr.
             bindM (lfi_as_mapat P (p_as pr) (brkbase pr) TUX_BRKMAXSIZE LFI_PROT_NONE
                     (LFI_MAP_PRIVATE OR LFI_MAP_ANONYMOUS) NULL 0) (\<lambda>brkregion.
             ret (brkregion \<noteq> - 1)))))))))"

text \<open>The bytes of \<^verbatim>\<open>interppath\<close> read as a string: past the end of the object when they hold no terminator.\<close>

definition as_cstring :: "bytes \<Rightarrow> ('s, bytes) prog" where
  "as_cstring bs = (if 0 \<in> set bs then ret (takeWhile (\<lambda>b. b \<noteq> 0) bs) else raise OutOfBounds)"

definition procfile ::
  "('x, 'e) tuxenv_scheme \<Rightarrow> ptr \<Rightarrow> buf_t \<Rightarrow> bytes list \<Rightarrow> (('x, 'z) tuxw_scheme, bool) prog" where
  "procfile P p prog argv =
     bindM (elfinterp P prog) (\<lambda>r.
     case r of None \<Rightarrow> procsetup P p prog no_buf argv
     | Some ib \<Rightarrow>
         bindM (as_cstring ib) (\<lambda>interppath.
         if cwk_path_is_absolute P interppath then
           bindM (deref threads p) (\<lambda>th.
           bindM (deref procs (proc th)) (\<lambda>pr.
           bindM (bufreadfile P (p_tux pr) interppath) (\<lambda>interp.
           if data interp = None then ret False
           else procsetup P p prog interp argv)))
         else procsetup P p prog no_buf argv))"

definition procnewfile ::
  "('x, 'e) tuxenv_scheme \<Rightarrow> ptr \<Rightarrow> buf_t \<Rightarrow> bytes list \<Rightarrow> (('x, 'z) tuxw_scheme, ptr) prog" where
  "procnewfile P tux prog argv =
     bindM (procnewempty P) (\<lambda>p.
     if p = NULL then ret NULL
     else
       bindM (deref threads p) (\<lambda>th.
       bindM (set_proc (proc th) (\<lambda>pr. pr\<lparr>p_tux := tux\<rparr>)) (\<lambda>_.
       bindM (deref tuxes tux) (\<lambda>t.
       bindM (lfi_as_new P (t_plat t)) (\<lambda>as.
       if as = NULL then bindM (procfree p) (\<lambda>_. ret NULL)
       else
         bindM (lfi_ctx_new P as p True) (\<lambda>ctx.
         if ctx = NULL then
           bindM (lfi_as_free as) (\<lambda>_. bindM (procfree p) (\<lambda>_. ret NULL))
         else
           bindM (lfi_as_info as) (\<lambda>info.
           bindM (set_proc (proc th) (\<lambda>pr. pr\<lparr>p_as := as, p_info := info\<rparr>)) (\<lambda>_.
           bindM (set_thread p (\<lambda>n. n\<lparr>p_ctx := ctx\<rparr>)) (\<lambda>_.
           bindM (procfile P p prog argv) (\<lambda>ok.
           if \<not> ok then
             bindM (lfi_ctx_free ctx) (\<lambda>_. bindM (lfi_as_free as) (\<lambda>_. bindM (procfree p) (\<lambda>_. ret NULL)))
           else
             bindM (fdinit tux (proc th)) (\<lambda>_. ret p)))))))))))"

definition lfi_tux_proc_new ::
  "('x, 'e) tuxenv_scheme \<Rightarrow> ptr \<Rightarrow> buf_t \<Rightarrow> bytes list \<Rightarrow> (('x, 'z) tuxw_scheme, ptr) prog" where
  "lfi_tux_proc_new P tux prog argv = procnewfile P tux prog argv"

definition lfi_proc_init :: "('x, 'e) tuxenv_scheme \<Rightarrow> ptr \<Rightarrow> LFILoadInfo \<Rightarrow> (('x, 'z) tuxw_scheme, bool) prog" where
  "lfi_proc_init P ctx info =
     bindM (lfi_ctx_regs ctx) (\<lambda>r.
     bindM (set_ctx_regs ctx (regs_init (target P) r (if ldentry info \<noteq> 0 then ldentry info else elfentry info)
             (li_stack info + li_stacksize info - 16))) (\<lambda>_.
     ret True))"

definition lfi_tux_ctx :: "ptr \<Rightarrow> (('x, 'z) tuxw_scheme, ptr) prog" where
  "lfi_tux_ctx p = bindM (deref threads p) (\<lambda>th. ret (p_ctx th))"

end
