(* ===== verification/Tux_ElfProps.thy ===== *)
theory Tux_ElfProps
  imports Tux_Elf
begin

text \<open>
  What the ELF loader does: buffers are read within their bounds, files that are not
  executables are refused before anything is mapped, and loading a file whose segments do
  not wrap changes memory only inside the sandbox and puts the bytes of the file where the
  program headers say.
\<close>

section \<open>Buffers\<close>

text \<open>A buffer that describes the whole of its data.\<close>

definition buf_holds :: "buf_t \<Rightarrow> bytes \<Rightarrow> bool" where
  "buf_holds buf d \<longleftrightarrow> data buf = Some d \<and> length d < 2 ^ 64 \<and> size_of buf = of_nat (length d)"

lemma buf_holds_size: "buf_holds buf d \<Longrightarrow> unat (size_of buf) = length d"
  by (simp add: buf_holds_def unat_of_nat)

lemma bufread_in:
  assumes b: "buf_holds buf d" and r: "unat off + unat cnt < 2 ^ 64" "unat off \<le> length d"
  shows "bufread buf cnt off w = Ret (take (unat cnt) (drop (unat off) d)) w"
proof -
  note s = buf_holds_size [OF b]
  have d: "data buf = Some d" using b by (simp add: buf_holds_def)
  have sum: "unat (off + cnt) = unat off + unat cnt" using r(1) by (rule unat_add_u64)
  show ?thesis
  proof (cases "unat off + unat cnt \<le> length d")
    case True
    then show ?thesis using d s sum by (simp add: bufread_def word_less_nat_alt Let_def run_simps)
  next
    case False
    have "unat (size_of buf - off) = length d - unat off" using r(2) s by (simp add: unat_sub word_le_nat_alt)
    then show ?thesis using False d s sum r(2) by (simp add: bufread_def word_less_nat_alt Let_def run_simps)
  qed
qed

lemma bufread_out:
  assumes b: "buf_holds buf d" and r: "unat off + unat cnt < 2 ^ 64" "length d < unat off"
  shows "bufread buf cnt off w = Fault OutOfBounds"
proof -
  note s = buf_holds_size [OF b]
  have d: "data buf = Some d" using b by (simp add: buf_holds_def)
  have sum: "unat (off + cnt) = unat off + unat cnt" using r(1) by (rule unat_add_u64)
  have "unat off + unat (size_of buf - off) = length d + 2 ^ 64"
    using r(2) s unsigned_less [of off, where 'a = nat] unat_sub_if_size [of "size_of buf" off] by (simp add: word_size)
  then show ?thesis using d s sum r by (simp add: bufread_def word_less_nat_alt Let_def run_simps)
qed

text \<open>\<^verbatim>\<open>bufread\<close> of a range that starts inside the buffer copies exactly the bytes that are
  there, at most the count asked for and never past the end; a range that starts beyond the
  end reads outside the buffer.\<close>

lemma bufread_bounds:
  assumes "buf_holds buf d" "unat off + unat cnt < 2 ^ 64"
  shows "bufread buf cnt off w =
    (if unat off \<le> length d then Ret (take (unat cnt) (drop (unat off) d)) w else Fault OutOfBounds)"
  using bufread_in [OF assms, of w] bufread_out [OF assms, of w] by simp

text \<open>Appending to a buffer and reading back: what \<^verbatim>\<open>bufwrite\<close> appended is read at the old
  size, what was there before is unchanged, and the new buffer again describes all its data.\<close>

lemma bufwrite_roundtrip:
  assumes "buf_holds buf d" "length d + length bs < 2 ^ 64" "bufwrite full buf bs = Some buf'"
  shows "buf_holds buf' (d @ bs) \<and> bufread buf' (of_nat (length bs)) (size_of buf) w = Ret bs w \<and>
    bufread buf' (size_of buf) 0 w = Ret d w"
proof -
  have b': "buf_holds buf' (d @ bs)"
    using assms by (auto simp: buf_holds_def bufwrite_def unat_of_nat split: if_splits)
  have n: "unat (of_nat (length bs) :: u64) = length bs" using assms(2) by (simp add: unat_of_nat)
  show ?thesis
    using b' bufread_in [OF b', of "size_of buf" "of_nat (length bs)" w] bufread_in [OF b', of 0 "size_of buf" w]
      buf_holds_size [OF assms(1)] n assms(2) by simp
qed

section \<open>The range of a segment\<close>

lemma and_not_bounds: "unat (x AND NOT m :: u64) \<le> unat x" "unat x \<le> unat (x AND NOT m) + unat m"
proof -
  have "(x AND NOT m) + (x AND m) = x"
    by (subst disjunctive_add) (auto simp: bit_simps intro: bit_word_eqI)
  then have e: "x AND NOT m = x - (x AND m)" by (simp add: eq_diff_eq)
  have le: "x AND m \<le> x" "x AND m \<le> m" by (simp_all add: word_and_le1 word_and_le2)
  then have "unat (x AND NOT m) = unat x - unat (x AND m)" unfolding e by (simp add: unat_sub)
  then show "unat (x AND NOT m) \<le> unat x" "unat x \<le> unat (x AND NOT m) + unat m"
    using le by (simp_all add: word_le_nat_alt)
qed

text \<open>A header whose range does not wrap.\<close>

definition seg_fits :: "ProgHeader \<Rightarrow> bool" where
  "seg_fits p \<longleftrightarrow> unat (p_vaddr p) + unat (p_memsz p) + unat (p_align p) \<le> 2 ^ 64"

lemma seg_range:
  assumes "seg_fits p" "p_align p \<noteq> 0"
  shows "unat (seg_start p) \<le> unat (p_vaddr p)" "unat (p_vaddr p) + unat (p_memsz p) \<le> unat (seg_end p)"
proof -
  show "unat (seg_start p) \<le> unat (p_vaddr p)"
    by (simp add: seg_start_def truncp_def and_not_bounds(1))
  let ?v = "p_vaddr p" and ?m = "p_memsz p" and ?k = "p_align p - 1"
  have k: "unat ?k = unat (p_align p) - 1" using assms(2) by (simp add: unat_minus_one)
  have pos: "0 < unat (p_align p)" using assms(2) by (simp add: unat_gt_0)
  have "unat ?v + unat ?m < 2 ^ 64" "unat ?v + unat ?m + unat ?k < 2 ^ 64"
    using assms(1) k pos unfolding seg_fits_def by linarith+
  then have "unat (?v + ?m + ?k) = unat ?v + unat ?m + unat ?k"
    by (simp add: unat_add_u64)
  then show "unat ?v + unat ?m \<le> unat (seg_end p)"
    using and_not_bounds(2) [of "?v + ?m + ?k" ?k] by (simp add: seg_end_def ceilp_def Let_def)
qed

lemma seg_align_0: "p_align p = 0 \<Longrightarrow> seg_start p = 0" "p_align p = 0 \<Longrightarrow> seg_end p = 0"
  by (simp_all add: seg_start_def seg_end_def truncp_def ceilp_def)

section \<open>Loading changes memory inside the sandbox only\<close>

definition only_memory :: "u64 \<Rightarrow> u64 \<Rightarrow> ('x, 'z) hostw_scheme \<Rightarrow> ('x, 'z) hostw_scheme \<Rightarrow> bool" where
  "only_memory lo hi w w' \<longleftrightarrow> same_outside lo hi (mem w) (mem w') \<and> nextp w \<le> nextp w' \<and>
     w' = w\<lparr>ext := ext w', mem := mem w', nextp := nextp w'\<rparr>"

lemma only_memory_refl [simp]: "only_memory lo hi w w"
  by (simp add: only_memory_def)

lemma only_memory_trans: "only_memory lo hi w w' \<Longrightarrow> only_memory lo hi w' w'' \<Longrightarrow> only_memory lo hi w w''"
  by (cases w; cases w'; cases w'') (auto simp: only_memory_def intro: same_outside_trans)

lemma only_memory_confined: "confined lo hi w w' \<Longrightarrow> only_memory lo hi w w'"
  by (cases w; cases w') (auto simp: only_memory_def confined_def)

lemma only_memory_sel:
  assumes "only_memory lo hi w w'"
  shows "hostfiles w' = hostfiles w" "same_outside lo hi (mem w) (mem w')" "nextp w \<le> nextp w'"
  using assms by (cases w; cases w'; simp add: only_memory_def)+

lemma only_memory_aspaces: "only_memory lo hi w w' \<Longrightarrow> aspaces w' = aspaces w"
  by (cases w; cases w') (simp add: only_memory_def)

lemma only_memory_write:
  assumes "lo \<le> a" "unat a + length bs \<le> unat hi" "length bs < 2 ^ 64"
  shows "confined lo hi w (w\<lparr>mem := store_bytes (mem w) a bs\<rparr>)"
proof -
  have n: "unat (of_nat (length bs) :: u64) = length bs" using assms(3) by (simp add: unat_of_nat)
  have "same_outside lo hi (mem w) (store_bytes (mem w) a bs)"
    unfolding same_outside_def
    using in_range_interval [of _ a "of_nat (length bs)" lo hi] store_bytes_outside [of bs "of_nat (length bs)"] assms n
    by (metis order_refl)
  then show ?thesis by (simp add: confined_def)
qed

abbreviation load_fault :: "fault \<Rightarrow> bool" where "load_fault \<equiv> \<lambda>e. e = AssertFail \<or> e = OutOfBounds"

lemma mprotect_confined:
  assumes "as \<noteq> NULL" "aspaces w as = Some a" "confined lo hi w0 w"
  shows "wp load_fault (lfi_as_mprotect P as addr n prot) (\<lambda>_ w'. confined lo hi w0 w' \<and> mem w' = mem w) E w"
  using assms by (auto simp: lfi_as_mprotect_def host_mprotect_def return_count_def return_tuxerr_def wp_rules
      intro: confined_ext)

definition space_ok :: "('x, 'e) pal_scheme \<Rightarrow> ptr \<Rightarrow> LFIAddrSpace \<Rightarrow> ('x, 'z) vmw_scheme \<Rightarrow> bool" where
  "space_ok P as a w \<longleftrightarrow> mmap_fixed P \<and> mm_within P as (minaddr a) (maxaddr a) \<and> as \<noteq> NULL \<and> aspaces w as = Some a"

lemma no_sanitize [simp]: "sanitize P x n prot = ret ()"
  by (simp add: sanitize_def TUX_SANITIZE_CODE_def)

lemma segment_spec:
  fixes w :: "('x, 'z) tuxw_scheme"
  assumes sp: "space_ok P as a w" and b: "buf_holds buf d" and rd: "unat p_off + unat filesz < 2 ^ 64"
    and se: "start \<le> end'" and fits: "unat offset + unat filesz \<le> unat end' - unat start"
  shows "wp load_fault (bufreadelfseg P as start offset end' p_off filesz prot buf pg)
    (\<lambda>ok w'. confined (minaddr a) (maxaddr a) w w' \<and> (ok \<longrightarrow>
       unat p_off + unat filesz \<le> length d \<and>
       load_bytes (mem w') (start + offset) (unat filesz) = take (unat filesz) (drop (unat p_off) d))) E w"
    (is "wp _ _ ?Q _ _")
proof (cases "minaddr a \<le> start \<and> end' \<le> maxaddr a")
  case False
  then show ?thesis using sp by (auto simp: bufreadelfseg_def lfi_as_mapat_def wp_rules space_ok_def)
next
  case True
  have sz: "unat (end' - start) = unat end' - unat start" using se by (simp add: unat_sub)
  have wrap: "unat start + unat (end' - start) < 2 ^ 64"
    using se unsigned_less [of end', where 'a = nat] by (simp add: sz word_le_nat_alt)
  have tail: "wp load_fault (bindM (bufread buf filesz p_off) (\<lambda>bs.
       bindM (write_mem (start + offset) bs) (\<lambda>_.
       if of_nat (length bs) \<noteq> filesz then ret False
       else bindM (lfi_as_mprotect P as start (end' - start) prot) (\<lambda>r. ret (\<not> r < 0))))) ?Q E w1"
    if c: "confined (minaddr a) (maxaddr a) w w1" for w1
  proof (cases "unat p_off \<le> length d")
    case False
    then show ?thesis using bufread_out [OF b rd, of w1] by (simp add: wp_def bindM_def)
  next
    case inside: True
    let ?bs = "take (unat filesz) (drop (unat p_off) d)"
    let ?w2 = "w1\<lparr>mem := store_bytes (mem w1) (start + offset) ?bs\<rparr>"
    have len: "length ?bs \<le> unat filesz" "length ?bs < 2 ^ 64"
      using unsigned_less [of filesz, where 'a = nat] by auto
    have st: "unat (start + offset) = unat start + unat offset"
      using fits se unsigned_less [of end', where 'a = nat] by (intro unat_add_u64) (simp add: word_le_nat_alt)
    have "confined (minaddr a) (maxaddr a) w1 ?w2"
      using True fits se len st by (intro only_memory_write) (auto simp: word_le_nat_alt)
    then have c2: "confined (minaddr a) (maxaddr a) w ?w2" using c by (rule confined_trans [rotated])
    have as2: "as \<noteq> NULL" "aspaces ?w2 as = Some a" using sp confined_aspaces [OF c] by (auto simp: space_ok_def)
    have "length ?bs = unat filesz \<Longrightarrow> load_bytes (mem ?w2) (start + offset) (unat filesz) = ?bs"
      using load_store_same [of ?bs "mem w1" "start + offset"] len by simp
    moreover have n: "of_nat (length ?bs) = filesz \<longleftrightarrow> unat p_off + unat filesz \<le> length d"
    proof -
      have "of_nat (length ?bs) = filesz \<longleftrightarrow> length ?bs = unat filesz"
        using len(2) by (auto simp: word_unat_eq_iff unat_of_nat)
      then show ?thesis using inside by auto
    qed
    ultimately have "wp load_fault (if of_nat (length ?bs) \<noteq> filesz then ret False
       else bindM (lfi_as_mprotect P as start (end' - start) prot) (\<lambda>r. ret (\<not> r < 0))) ?Q E ?w2"
      using c2 inside by (auto simp: wp_ret intro!: wp_bindI [OF mprotect_confined [OF as2 c2]])
    then show ?thesis
      using bufread_in [OF b rd inside, of w1] by (simp add: wp_def bindM_def write_mem_def modifyM_def)
  qed
  have "wp load_fault (lfi_as_mapat P as start (end' - start) (LFI_PROT_READ OR LFI_PROT_WRITE) MAPANON NULL 0)
     (\<lambda>_. confined (minaddr a) (maxaddr a) w) E w"
    by (rule wp_mono [OF mapat_confined [of P as a w]]) (use sp wrap in \<open>auto simp: space_ok_def\<close>)
  then show ?thesis
    unfolding bufreadelfseg_def by (rule wp_bindI) (auto simp: wp_ret wp_bind [of _ "ret ()"] intro: tail)
qed

text \<open>The address at which the first byte of a segment goes.\<close>

definition seg_addr :: "FileHeader \<Rightarrow> LFIAddrSpaceInfo \<Rightarrow> u64 \<Rightarrow> ProgHeader \<Rightarrow> u64" where
  "seg_addr ehdr info base p = (if e_type ehdr = ET_EXEC then info_base info else base) + p_vaddr p"

definition seg_ok :: "ProgHeader \<Rightarrow> bool" where
  "seg_ok p \<longleftrightarrow> p_type p = PT_LOAD \<longrightarrow> seg_fits p \<and> unat (p_offset p) + unat (p_filesz p) < 2 ^ 64"

lemma load_segment_spec:
  fixes w :: "('x, 'z) tuxw_scheme"
  assumes sp: "space_ok P as a w" and b: "buf_holds buf d" and pg: "pgsz \<noteq> 0" and p: "seg_ok p"
    and base: "l_base st \<noteq> 0" "unat (l_base st) + 2 ^ 30 \<le> 2 ^ 64"
  shows "wp load_fault (load_segment P as info ehdr ebase buf pgsz p st)
    (\<lambda>r w'. confined (minaddr a) (maxaddr a) w w' \<and> (\<forall>st'. r = Some st' \<longrightarrow> l_base st' = l_base st \<and>
       (p_type p = PT_LOAD \<longrightarrow> p_memsz p \<noteq> 0 \<longrightarrow> unat (p_offset p) + unat (p_filesz p) \<le> length d \<and>
         load_bytes (mem w') (seg_addr ehdr info (l_base st) p) (unat (p_filesz p)) =
           take (unat (p_filesz p)) (drop (unat (p_offset p)) d)))) E w"
    (is "wp _ _ ?Q _ _")
proof -
  let ?s = "seg_start p" and ?e = "seg_end p" and ?delta = "l_base st - info_base info"
  define s where "s = (if e_type ehdr = ET_EXEC then ?s - ?delta else ?s)"
  define e where "e = (if e_type ehdr = ET_EXEC then ?e - ?delta else ?e)"
  have seg: "wp load_fault (bufreadelfseg P as (l_base st + s) (p_vaddr p - ?s) (l_base st + e) (p_offset p) (p_filesz p)
       prot buf pgsz) (\<lambda>ok w'. confined (minaddr a) (maxaddr a) w w' \<and> (ok \<longrightarrow>
         unat (p_offset p) + unat (p_filesz p) \<le> length d \<and>
         load_bytes (mem w') (seg_addr ehdr info (l_base st) p) (unat (p_filesz p)) =
           take (unat (p_filesz p)) (drop (unat (p_offset p)) d))) E w"
    if c: "p_type p = PT_LOAD" "\<not> (e_type ehdr = ET_EXEC \<and> ?s < ?delta)" "\<not> p_memsz p < p_filesz p"
      "\<not> (e \<le> s \<or> s \<ge> CODEMAX \<or> e \<ge> CODEMAX)" for prot
  proof -
    have fit: "seg_fits p" and rd: "unat (p_offset p) + unat (p_filesz p) < 2 ^ 64" using p c(1) by (simp_all add: seg_ok_def)
    have al: "p_align p \<noteq> 0" using c(4) seg_align_0 [of p] by (auto simp: s_def e_def split: if_splits)
    note r = seg_range [OF fit al]
    have v: "unat (p_vaddr p - ?s) = unat (p_vaddr p) - unat ?s" using r(1) by (simp add: unat_sub word_le_nat_alt)
    have es: "unat e - unat s = unat ?e - unat ?s"
    proof (cases "e_type ehdr = ET_EXEC")
      case True
      then have "?delta \<le> ?s" "?delta \<le> ?e" using c(2) r by (auto simp: word_le_nat_alt word_less_nat_alt)
      then show ?thesis using True by (simp add: s_def e_def unat_sub word_le_nat_alt)
    qed (simp add: s_def e_def)
    have cm: "unat s < 2 ^ 30" "unat e < 2 ^ 30" "unat s < unat e"
      using c(4) by (simp_all add: word_less_nat_alt word_le_nat_alt)
    have bs: "unat (l_base st + s) = unat (l_base st) + unat s" "unat (l_base st + e) = unat (l_base st) + unat e"
      using cm base(2) by (simp_all add: unat_add_u64)
    have "p_filesz p \<le> p_memsz p" using c(3) by simp
    then have fz: "unat (p_vaddr p - ?s) + unat (p_filesz p) \<le> unat (l_base st + e) - unat (l_base st + s)"
      using r unfolding v bs word_le_nat_alt using es by linarith
    have "l_base st + s + (p_vaddr p - ?s) = seg_addr ehdr info (l_base st) p"
      by (simp add: s_def seg_addr_def algebra_simps)
    then show ?thesis
      using segment_spec [OF sp b rd _ fz, of prot pgsz E] cm bs by (simp add: word_le_nat_alt)
  qed
  show ?thesis
    unfolding load_segment_def Let_def s_def [symmetric] e_def [symmetric]
    using pg base(1) by (auto simp: wp_ret intro!: wp_bindI [OF seg])
qed

text \<open>C11. Where a segment goes: when a loadable segment is accepted, the bytes of the file are in
  memory at its virtual address, relative to the load base for a position independent file
  and to the start of the sandbox for a fixed one; memory outside the sandbox is as before.\<close>

theorem segment_contents:
  assumes "space_ok P as a w" "buf_holds buf d" "pgsz \<noteq> 0" "seg_ok p"
    and "l_base st \<noteq> 0" "unat (l_base st) + 2 ^ 30 \<le> 2 ^ 64" "p_type p = PT_LOAD" "p_memsz p \<noteq> 0"
    and "load_segment P as info ehdr ebase buf pgsz p st w = Ret (Some st') w'"
  shows "load_bytes (mem w') (seg_addr ehdr info (l_base st) p) (unat (p_filesz p)) =
       take (unat (p_filesz p)) (drop (unat (p_offset p)) d) \<and>
     same_outside (minaddr a) (maxaddr a) (mem w) (mem w')"
  using wp_Ret [OF load_segment_spec [OF assms(1-6)] assms(9)] assms(7,8) by (simp add: confined_def)

lemma wp_run: "m w = Ret x w' \<Longrightarrow> wp F (bindM m f) Q E w = wp F (f x) Q E w'"
  by (simp add: wp_def bindM_def)

lemma load_loop_spec:
  fixes w :: "('x, 'z) tuxw_scheme"
  assumes "space_ok P as a w" "buf_holds buf d" "pgsz \<noteq> 0" "\<forall>p \<in> set ps. seg_ok p"
    and "l_base st \<noteq> 0" "unat (l_base st) + 2 ^ 30 \<le> 2 ^ 64"
  shows "wp load_fault (load_loop P as info ehdr ebase buf pgsz ps st) (\<lambda>_. confined (minaddr a) (maxaddr a) w) E w"
  using assms
proof (induction ps arbitrary: w st)
  case (Cons p ps)
  show ?case
    unfolding load_loop.simps
  proof (rule wp_bindI [OF load_segment_spec [OF Cons.prems(1-3) _ Cons.prems(5,6)]], goal_cases)
    case (2 r w1)
    then have sp: "space_ok P as a w1" using Cons.prems(1) confined_aspaces [of "minaddr a" "maxaddr a" w w1] by (simp add: space_ok_def)
    show ?case
    proof (cases r)
      case (Some st1)
      then have "wp load_fault (load_loop P as info ehdr ebase buf pgsz ps st1) (\<lambda>_. confined (minaddr a) (maxaddr a) w1) E w1"
        using 2 Cons.prems(4-6) by (intro Cons.IH [OF sp Cons.prems(2,3)]) auto
      then have "wp load_fault (load_loop P as info ehdr ebase buf pgsz ps st1) (\<lambda>_. confined (minaddr a) (maxaddr a) w) E w1"
        by (rule wp_mono) (use 2 in \<open>auto intro: confined_trans\<close>)
      then show ?thesis using Some by simp
    qed (use 2 in \<open>simp add: wp_ret\<close>)
  qed (use Cons.prems(4) in simp)
qed (simp add: wp_ret)

text \<open>The headers of a file, as \<^verbatim>\<open>load\<close> reads them.\<close>

abbreviation (input) elf_header :: "bytes \<Rightarrow> FileHeader" where
  "elf_header d \<equiv> file_header (take 64 d)"

definition elf_segments :: "bytes \<Rightarrow> ProgHeader list" where
  "elf_segments d = (let h = elf_header d in
     prog_headers (take (56 * unat (phnum h)) (drop (unat (phoff h)) d)) (phnum h))"

definition elf_fits :: "bytes \<Rightarrow> bool" where
  "elf_fits d \<longleftrightarrow> unat (phoff (elf_header d)) + 56 * unat (phnum (elf_header d)) < 2 ^ 64 \<and>
     (\<forall>p \<in> set (elf_segments d). seg_ok p)"

lemma unat_phsize: "unat (PROG_HEADER_SIZE * ucast (n :: u16) :: u64) = 56 * unat n"
proof -
  have n: "unat n < 2 ^ 16" using unsigned_less [of n, where 'a = nat] by simp
  then have "unat (ucast n :: u64) = unat n" by (simp add: unsigned_ucast_eq take_bit_nat_eq_self)
  then show ?thesis using n by (simp add: unat_word_ariths)
qed


section \<open>Files that are refused\<close>

text \<open>A file that is too short for its header, or whose header is not that of a 64-bit
  executable or shared object of the current version, is refused before anything is mapped
  or allocated.\<close>

lemma load_rejects:
  assumes as: "as \<noteq> NULL" "aspaces w as = Some a" and b: "buf_holds buf d"
    and bad: "length d < 64 \<or> magic (elf_header d) \<noteq> ELF_MAGIC \<or> width (elf_header d) \<noteq> ELFCLASS64 \<or>
      e_version (elf_header d) \<noteq> EV_CURRENT \<or> (e_type (elf_header d) \<noteq> ET_DYN \<and> e_type (elf_header d) \<noteq> ET_EXEC)"
  shows "load P as buf base pgsz w = Ret None w"
proof -
  have hd: "bufread buf FILE_HEADER_SIZE 0 w = Ret (take 64 d) w"
    using bufread_in [OF b, of 0 64 w] by simp
  have "of_nat (length (take 64 d)) = (64 :: u64) \<longleftrightarrow> 64 \<le> length d"
  proof -
    have "length (take 64 d) < 2 ^ 64" by simp
    then have "of_nat (length (take 64 d)) = (64 :: u64) \<longleftrightarrow> length (take 64 d) = 64"
      by (simp only: word_unat_eq_iff unat_of_nat) simp
    then show ?thesis by auto
  qed
  then show ?thesis
    using as bad hd by (auto simp: load_def lfi_as_info_def elfcheck_def run_simps Let_def)
qed

section \<open>The interpreter\<close>

lemma take_own_length: "s = take n xs \<Longrightarrow> s = take (length s) xs"
  by (auto simp: min_def)

lemma bufread_Ret:
  assumes run: "bufread buf c off w = Ret s w'" and b: "buf_holds buf d"
  shows "w' = w \<and> length s \<le> unat c \<and> s = take (length s) (drop (unat off) d)"
proof (cases "unat off + unat c < 2 ^ 64")
  case True
  then have "w' = w \<and> s = take (unat c) (drop (unat off) d)"
    using run bufread_in [OF b True, of w] bufread_out [OF b True, of w] by (cases "unat off \<le> length d") auto
  then have s: "w' = w" "s = take (unat c) (drop (unat off) d)" by blast+
  have "length s \<le> unat c" using s(2) by simp
  with s(1) take_own_length [OF s(2)] show ?thesis by blast
next
  case False
  let ?c = "if off + c > size_of buf then size_of buf - off else c"
  have d: "data buf = Some d" "length d < 2 ^ 64" using b by (simp_all add: buf_holds_def)
  have fit: "unat off + unat ?c \<le> length d" "s = take (unat ?c) (drop (unat off) d)" "w' = w"
    using run d by (auto simp: bufread_def Let_def run_simps split: if_splits)
  then have "unat ?c \<le> unat c" using False d(2) by linarith
  then have "length s \<le> unat c" using fit(2) by simp
  with fit(3) take_own_length [OF fit(2)] show ?thesis by blast
qed

lemma find_interp_spec:
  assumes "find_interp P buf phs w = Ret (Some s) w'" "buf_holds buf d"
  shows "length s < 1024 \<and> (\<exists>off. s = take (length s) (drop off d)) \<and> (\<exists>n. w' = w\<lparr>nextp := n\<rparr>)"
  using assms(1)
proof (induction phs)
  case (Cons ph phs)
  show ?case
  proof (cases "p_type ph = PT_INTERP")
    case True
    with Cons.prems have small: "p_filesz ph < INTERP_MAX"
      and rd: "bufread buf (p_filesz ph) (p_offset ph) (w\<lparr>nextp := Suc (nextp w)\<rparr>) = Ret s w'"
      by (auto simp: run_simps malloc_def Let_def split: if_splits outcome.splits)
    from small have "unat (p_filesz ph) < 1024" by (simp add: word_less_nat_alt)
    with bufread_Ret [OF rd assms(2)] show ?thesis by auto
  next
    case False
    then show ?thesis using Cons by simp
  qed
qed (simp add: ret_def)

text \<open>The interpreter path taken from a file is shorter than \<^verbatim>\<open>INTERP_MAX\<close> bytes and is a part of
  the file; looking it up changes nothing but the allocator.  (Nothing makes it end in a
  terminator.)\<close>

lemma interp_bounded:
  assumes "elfinterp P buf w = Ret (Some s) w'" "buf_holds buf d"
  shows "length s < 1024 \<and> (\<exists>off. s = take (length s) (drop off d)) \<and> (\<exists>n. w' = w\<lparr>nextp := n\<rparr>)"
proof -
  from assms(1) obtain hb v where 1: "bufread buf FILE_HEADER_SIZE 0 w = Ret hb v"
    by (auto simp: elfinterp_def bindM_def split: outcome.splits)
  then have "v = w" using bufread_Ret [OF 1 assms(2)] by simp
  with assms(1) 1 obtain pb v' where 2: "bufread buf (PROG_HEADER_SIZE * ucast (phnum (file_header hb))) (phoff (file_header hb)) w = Ret pb v'"
    "find_interp P buf (prog_headers pb (phnum (file_header hb))) v' = Ret (Some s) w'"
    by (auto simp: elfinterp_def bindM_def ret_def Let_def split: outcome.splits if_splits)
  then have "v' = w" using bufread_Ret [OF 2(1) assms(2)] by simp
  with find_interp_spec [OF 2(2) assms(2)] show ?thesis by simp
qed

section \<open>Witnesses\<close>

text \<open>A file with one program header of the given type, and four bytes after it.\<close>

definition demo_elf :: "u64 \<Rightarrow> u64 \<Rightarrow> u64 \<Rightarrow> bytes" where
  "demo_elf ty off fsz =
     le_bytes 4 0x464C457F @ [2] @ replicate 11 0 @ le_bytes 2 3 @ le_bytes 2 62 @ le_bytes 4 1 @ le_bytes 8 0x1000 @
     le_bytes 8 64 @ le_bytes 8 0 @ le_bytes 4 0 @ le_bytes 2 64 @ le_bytes 2 56 @ le_bytes 2 1 @ le_bytes 2 0 @
     le_bytes 2 0 @ le_bytes 2 0 @
     le_bytes 4 ty @ le_bytes 4 5 @ le_bytes 8 off @ le_bytes 8 0x1000 @ le_bytes 8 0x1000 @ le_bytes 8 fsz @
     le_bytes 8 0x2000 @ le_bytes 8 4096 @ [47, 108, 100, 0]"

definition demo_buf :: "bytes \<Rightarrow> buf_t" where
  "demo_buf d = \<lparr>data = Some d, size_of = of_nat (length d)\<rparr>"

lemma length_demo_elf [simp]: "length (demo_elf ty off fsz) = 124"
  by (simp add: demo_elf_def)

lemma demo_buf_holds: "length d < 2 ^ 64 \<Longrightarrow> buf_holds (demo_buf d) d"
  by (simp add: buf_holds_def demo_buf_def)

lemma demo_elf_load: "elf_segments (demo_elf 1 0 124) = [\<lparr>p_type = 1, p_flags = 5, p_offset = 0, p_vaddr = 0x1000,
    p_paddr = 0x1000, p_filesz = 124, p_memsz = 0x2000, p_align = 4096\<rparr>]"
  "phoff (elf_header (demo_elf 1 0 124)) = 64" "phnum (elf_header (demo_elf 1 0 124)) = 1"
  by code_simp+

lemma demo_space: "space_ok demo_env 12 demo_as demo_world"
  using demo_mem_ready by (simp add: space_ok_def mem_ready_def demo_proc_def)

lemma bufread_bounds_example:
  "bufread (demo_buf [1, 2, 3]) 5 1 demo_world = Ret [2, 3] demo_world \<and>
   bufread (demo_buf [1, 2, 3]) 5 4 demo_world = Fault OutOfBounds"
  using bufread_bounds [OF demo_buf_holds [of "[1, 2, 3]"], of 1 5 demo_world]
    bufread_bounds [OF demo_buf_holds [of "[1, 2, 3]"], of 4 5 demo_world] by simp

lemma bufwrite_roundtrip_example:
  "\<exists>b'. bufwrite False (demo_buf [1, 2]) [3, 4] = Some b' \<and> bufread b' 2 2 demo_world = Ret [3, 4] demo_world"
  using bufwrite_roundtrip [OF demo_buf_holds [of "[1, 2]"], of "[3, 4]" False _ demo_world]
  by (auto simp: bufwrite_def demo_buf_def)

lemma load_rejects_example:
  "load demo_env 12 (demo_buf [1, 2, 3]) 0x100015000 4096 demo_world = Ret None demo_world"
  by (rule load_rejects [OF _ _ demo_buf_holds [of "[1, 2, 3]"]]) simp_all


lemma demo_elf_type: "e_type (elf_header (demo_elf 1 0 124)) = 3"
  by code_simp

lemma demo_elf_interp: "elf_segments (demo_elf 3 120 4) = [\<lparr>p_type = 3, p_flags = 5, p_offset = 120, p_vaddr = 0x1000,
    p_paddr = 0x1000, p_filesz = 4, p_memsz = 0x2000, p_align = 4096\<rparr>]"
  "phoff (elf_header (demo_elf 3 120 4)) = 64" "phnum (elf_header (demo_elf 3 120 4)) = 1"
  by code_simp+

lemma demo_read: "bufread (demo_buf (demo_elf ty off fsz)) 124 0 w = Ret (demo_elf ty off fsz) w"
  using bufread_in [OF demo_buf_holds, of "demo_elf ty off fsz" 0 124 w] by simp

theorem segment_contents_witness:
  "\<exists>st' w'. load_segment demo_env 12 \<lparr>info_base = 0x100000000, info_size = 0x100000000, info_minaddr = 0x100015000,
       info_maxaddr = 0x1FFFEC000\<rparr> (elf_header (demo_elf 1 0 124)) 0x100015000 (demo_buf (demo_elf 1 0 124)) 4096
       (hd (elf_segments (demo_elf 1 0 124))) \<lparr>l_base = 0x100015000, l_first = 0, l_last = 0\<rparr> demo_world = Ret (Some st') w' \<and>
     load_bytes (mem w') 0x100016000 124 = demo_elf 1 0 124"
proof -
  let ?d = "demo_elf 1 0 124" and ?p = "hd (elf_segments (demo_elf 1 0 124))"
  let ?info = "\<lparr>info_base = 0x100000000, info_size = 0x100000000, info_minaddr = 0x100015000, info_maxaddr = 0x1FFFEC000\<rparr>"
  let ?st = "\<lparr>l_base = 0x100015000, l_first = 0, l_last = 0\<rparr>"
  have "\<exists>st' w'. load_segment demo_env 12 ?info (elf_header ?d) 0x100015000 (demo_buf ?d) 4096 ?p ?st demo_world = Ret (Some st') w'"
    by (simp add: demo_elf_load demo_elf_type load_segment_def seg_start_def seg_end_def truncp_def ceilp_def bufreadelfseg_def
        lfi_as_mapat_def lfi_as_mprotect_def asmap_def cbunmap_def host_mmap_def host_mprotect_def return_count_def kcall_def
        write_mem_def demo_read run_simps Let_def demo_env_defs demo_as_def)
  then obtain st' w' where run: "load_segment demo_env 12 ?info (elf_header ?d) 0x100015000 (demo_buf ?d) 4096 ?p ?st demo_world = Ret (Some st') w'"
    by blast
  have "load_bytes (mem w') (seg_addr (elf_header ?d) ?info (l_base ?st) ?p) (unat (p_filesz ?p)) =
      take (unat (p_filesz ?p)) (drop (unat (p_offset ?p)) ?d)"
    by (rule segment_contents [OF demo_space demo_buf_holds _ _ _ _ _ _ run, THEN conjunct1])
      (simp_all add: demo_elf_load seg_ok_def seg_fits_def)
  with run show ?thesis by (simp add: demo_elf_load demo_elf_type seg_addr_def)
qed

lemma interp_bounded_example:
  "\<exists>w'. elfinterp demo_env (demo_buf (demo_elf 3 120 4)) demo_world = Ret (Some [47, 108, 100, 0]) w' \<and>
     length [47, 108, 100, 0 :: u8] < 1024"
proof -
  let ?d = "demo_elf 3 120 4" and ?b = "demo_buf (demo_elf 3 120 4)"
  have b: "buf_holds ?b ?d" by (simp add: demo_buf_holds)
  have "take 4 (drop 120 ?d) = [47, 108, 100, 0]" by (simp add: demo_elf_def)
  then have "\<exists>w'. elfinterp demo_env ?b demo_world = Ret (Some [47, 108, 100, 0]) w'"
    using bufread_in [OF b, of 0 64 demo_world] bufread_in [OF b, of 64 56 demo_world] demo_elf_interp(1)
      bufread_in [OF b, of 120 4 "demo_world\<lparr>nextp := 16\<rparr>"]
    by (simp add: elfinterp_def run_simps demo_elf_interp(2,3) elf_segments_def Let_def malloc_def demo_env_defs
        word_le_nat_alt)
  then obtain w' where run: "elfinterp demo_env ?b demo_world = Ret (Some [47, 108, 100, 0]) w'" by blast
  from interp_bounded [OF run b] run show ?thesis by blast
qed

end
