(* ===== verification/Tux_ProcProps.thy ===== *)
theory Tux_ProcProps
  imports Tux_Proc Tux_ElfProps
begin

text \<open>
  The initial stack of a process as the program in the sandbox finds it.
\<close>

section \<open>The loops of \<^verbatim>\<open>stacksetup\<close>\<close>

fun arg_addrs :: "u64 \<Rightarrow> bytes list \<Rightarrow> u64 list" where
  "arg_addrs a [] = []"
| "arg_addrs a (s # ss) = a # arg_addrs (a + of_nat (length (arg_bytes s))) ss"

abbreviation (input) arg_block :: "bytes list \<Rightarrow> bytes" where
  "arg_block ss \<equiv> concat (map arg_bytes ss)"

lemma length_arg_addrs [simp]: "length (arg_addrs a ss) = length ss"
  by (induction a ss rule: arg_addrs.induct) simp_all

lemma arg_bytes_pos: "0 < length (arg_bytes s)"
  by (simp add: arg_bytes_def)

lemma argv_strings_run:
  fixes w :: "('x, 'z) tuxw_scheme"
  assumes "unat a + length (arg_block ss) < unat tos" "i + length ss \<le> ARGC_MAX"
  shows "argv_strings tos i ss a w = Ret (Some (arg_addrs a ss)) (w\<lparr>mem := store_bytes (mem w) a (arg_block ss)\<rparr>)"
  using assms
proof (induction ss arbitrary: i a w)
  case Nil
  then show ?case by (simp add: ret_def)
next
  case (Cons s ss)
  let ?l = "length (arg_bytes s)"
  have tos: "unat tos < 2 ^ 64" using unsigned_less [of tos, where 'a = nat] by simp
  have l: "unat (of_nat ?l :: u64) = ?l" using Cons.prems(1) tos by (simp add: unat_of_nat)
  have al: "unat (a + of_nat ?l) = unat a + ?l" using Cons.prems(1) tos l by (subst unat_add_u64) simp_all
  have "\<not> tos \<le> a + of_nat ?l" using Cons.prems(1) by (simp add: word_le_nat_alt al)
  moreover have "argv_strings tos (Suc i) ss (a + of_nat ?l) v =
      Ret (Some (arg_addrs (a + of_nat ?l) ss)) (v\<lparr>mem := store_bytes (mem v) (a + of_nat ?l) (arg_block ss)\<rparr>)" for v :: "('x, 'z) tuxw_scheme"
    by (rule Cons.IH) (use Cons.prems al in simp_all)
  ultimately show ?case
    using Cons.prems tos store_bytes_append [of "arg_bytes s" "arg_block ss" "mem w" a]
    by (simp add: bindM_def write_mem_def modifyM_def ret_def Let_def)
qed

lemma argv_pointers_run:
  fixes w :: "('x, 'z) tuxw_scheme"
  assumes "as \<noteq> NULL" "aspaces w as = Some a" "\<forall>x \<in> set xs. minaddr a \<le> x \<and> x < maxaddr a"
    and "pp < tos - ARG_BLOCK" "8 * (i + length xs) < 2 ^ 64"
  shows "argv_pointers as tos pp i xs w = Ret True (w\<lparr>mem := store_bytes (mem w) (pp + 8 * of_nat i) (concat (map (le_bytes 8) xs))\<rparr>)"
  using assms
proof (induction xs arbitrary: i w)
  case Nil
  then show ?case by (simp add: ret_def)
next
  case (Cons x xs)
  have "lfi_as_toptr as x w = Ret x w" using Cons.prems by (simp add: lfi_as_toptr_def run_simps)
  moreover have "argv_pointers as tos pp (Suc i) xs v =
      Ret True (v\<lparr>mem := store_bytes (mem v) (pp + 8 * of_nat (Suc i)) (concat (map (le_bytes 8) xs))\<rparr>)"
    if "aspaces v as = Some a" for v :: "('x, 'z) tuxw_scheme"
    by (rule Cons.IH) (use Cons.prems that in auto)
  ultimately show ?case
    using Cons.prems store_bytes_append [of "le_bytes 8 x" "concat (map (le_bytes 8) xs)" "mem w" "pp + 8 * of_nat i"]
    by (simp add: bindM_def write_u64_def write_mem_def modifyM_def ret_def sum_list_triv length_concat o_def algebra_simps)
qed

section \<open>The stack a program starts with\<close>

definition stack_block :: "LFILoadInfo \<Rightarrow> u64 \<Rightarrow> u64 list \<Rightarrow> bytes" where
  "stack_block info pgsz addrs = le_bytes 8 (of_nat (length addrs)) @ concat (map (le_bytes 8) addrs) @ le_bytes 8 0 @
     le_bytes 8 0 @ auxv_bytes (auxv_entries info pgsz (hd addrs))"

lemma length_ptrs: "length (concat (map (le_bytes 8) xs)) = 8 * length xs"
  by (induction xs) simp_all

lemma length_auxv_entries: "length (auxv_entries info pgsz x) = 19"
  by (simp add: auxv_entries_def)

lemma length_auxv: "length (auxv_bytes (auxv_entries info pgsz x)) = 304"
  by (simp add: auxv_bytes_def auxv_entries_def)

lemma length_stack_block: "length (stack_block info pgsz addrs) = 328 + 8 * length addrs"
  by (simp add: stack_block_def length_ptrs length_auxv)

lemma arg_addrs_range:
  assumes "unat a + length (arg_block ss) < 2 ^ 64" "x \<in> set (arg_addrs a ss)"
  shows "unat a \<le> unat x \<and> unat x < unat a + length (arg_block ss)"
  using assms
proof (induction a ss rule: arg_addrs.induct)
  case (2 a s ss)
  let ?l = "length (arg_bytes s)"
  have "unat (of_nat ?l :: u64) = ?l" using "2.prems"(1) by (simp add: unat_of_nat)
  then have "unat (a + of_nat ?l) = unat a + ?l" using "2.prems"(1) by (subst unat_add_u64) simp_all
  then show ?case using 2 arg_bytes_pos [of s] by auto
qed simp

definition stack_ready :: "LFILoadInfo \<Rightarrow> LFIAddrSpace \<Rightarrow> bytes list \<Rightarrow> bool" where
  "stack_ready info a argv \<longleftrightarrow>
     unat (li_stack info) + unat (li_stacksize info) < 2 ^ 64 \<and>
     unat (minaddr a) + 2 * 4096 \<le> unat (li_stack info) + unat (li_stacksize info) \<and>
     li_stack info + li_stacksize info \<le> maxaddr a \<and>
     argv \<noteq> [] \<and> length argv \<le> 471 \<and> length (arg_block argv) < 4096"

lemma stacksetup_run:
  fixes w :: "('x, 'z) tuxw_scheme"
  assumes p: "p \<noteq> NULL" "procs w p = Some pr" "p_as pr \<noteq> NULL" "aspaces w (p_as pr) = Some a"
    "p_tux pr \<noteq> NULL" "tuxes w (p_tux pr) = Some t"
    and r: "stack_ready info a argv"
  defines "tos \<equiv> li_stack info + li_stacksize info"
  defines "addrs \<equiv> arg_addrs (tos - ARG_BLOCK) argv"
  shows "stacksetup p argv info w = Ret (Some (tos - 2 * ARG_BLOCK)) (w\<lparr>mem :=
    store_bytes (store_bytes (mem w) (tos - ARG_BLOCK) (arg_block argv)) (tos - 2 * ARG_BLOCK)
      (stack_block info (opt_pagesize (t_opts t)) addrs)\<rparr>)"
proof -
  let ?m = "store_bytes (mem w) (tos - ARG_BLOCK) (arg_block argv)" and ?n = "length argv"
  define sp where "sp = tos - 2 * ARG_BLOCK"
  have tos: "unat tos = unat (li_stack info) + unat (li_stacksize info)" "unat tos < 2 ^ 64" "2 * 4096 \<le> unat tos"
    using r by (simp_all add: stack_ready_def tos_def unat_add_u64)
  have tb: "unat (tos - ARG_BLOCK) = unat tos - 4096" "unat sp = unat tos - 8192"
    using tos(3) by (simp_all add: unat_sub word_le_nat_alt sp_def)
  have len: "length (arg_block argv) < 4096" "?n \<le> 471" "argv \<noteq> []" using r by (simp_all add: stack_ready_def)
  have strs: "argv_strings tos 0 argv (tos - ARG_BLOCK) w = Ret (Some addrs) (w\<lparr>mem := ?m\<rparr>)"
    unfolding addrs_def using len tb tos(3) by (intro argv_strings_run) simp_all
  have range: "\<forall>x \<in> set addrs. minaddr a \<le> x \<and> x < maxaddr a"
  proof
    fix x assume "x \<in> set addrs"
    then have "unat tos - 4096 \<le> unat x" "unat x < unat tos"
      using arg_addrs_range [of "tos - ARG_BLOCK" argv x] len tb(1) tos(2,3) unfolding addrs_def by linarith+
    then show "minaddr a \<le> x \<and> x < maxaddr a"
      using r tos by (auto simp: stack_ready_def word_le_nat_alt word_less_nat_alt tos_def)
  qed
  have la: "length addrs = ?n" by (simp add: addrs_def)
  have hd: "hd addrs = tos - ARG_BLOCK" "addrs \<noteq> []" using len(3) by (cases argv; simp add: addrs_def)+
  let ?pp = "sp + 8"
  have pp: "?pp < tos - ARG_BLOCK"
  proof -
    have "unat ?pp = unat tos - 8184" using tb tos by (subst unat_add_u64) simp_all
    then show ?thesis using tb tos(3) by (simp add: word_less_nat_alt)
  qed
  have ptrs: "argv_pointers (p_as pr) tos ?pp 0 addrs v = Ret True (v\<lparr>mem := store_bytes (mem v) ?pp (concat (map (le_bytes 8) addrs))\<rparr>)"
    if "aspaces v = aspaces w" for v :: "('x, 'z) tuxw_scheme"
    using argv_pointers_run [OF p(3) _ range pp, of v 0] that p(4) la len(2) by simp
  let ?b1 = "le_bytes 8 (of_nat ?n)" and ?b2 = "concat (map (le_bytes 8) addrs)"
  have st: "store_bytes (store_bytes m sp xs) (sp + k) ys = store_bytes m sp (xs @ ys)"
    if "k = of_nat (length xs)" "length xs + length ys < 5000" for m k xs ys
    using store_bytes_append [of xs ys m sp] that by simp
  let ?blk = "?b1 @ ?b2 @ le_bytes 8 0 @ le_bytes 8 0"
  have a0: "le_word (load_bytes (store_bytes ?m sp ?blk) ?pp 8) = tos - ARG_BLOCK"
  proof -
    have "load_bytes (store_bytes ?m sp ?blk) (sp + of_nat 8) 8 = take 8 (drop 8 ?blk)"
      using la len(2) hd(2) by (intro load_store_slice) (auto simp: length_ptrs Suc_le_eq)
    also have "\<dots> = le_bytes 8 (hd addrs)" using hd(2) by (cases addrs) simp_all
    finally show ?thesis by (simp add: le_word_le_bytes hd take_bit_word_eq_self)
  qed
  define q0 where "q0 = ?pp + 8 * of_nat ?n"
  define q1 where "q1 = ?pp + 8 * (of_nat ?n + 1)"
  define q2 where "q2 = ?pp + 8 * (of_nat ?n + 2)"
  let ?aux = "auxv_bytes (auxv_entries info (opt_pagesize (t_opts t)) (tos - ARG_BLOCK))"
  have s1: "store_bytes (store_bytes ?m sp ?b1) ?pp ?b2 = store_bytes ?m sp (?b1 @ ?b2)"
    using la len(2) by (intro st) (simp_all add: length_ptrs)
  have s2: "store_bytes (store_bytes ?m sp (?b1 @ ?b2)) q0 (le_bytes 8 0) = store_bytes ?m sp (?b1 @ ?b2 @ le_bytes 8 0)"
    using st [of "8 + 8 * of_nat ?n" "?b1 @ ?b2" "le_bytes 8 0" ?m] la len(2) by (simp add: q0_def length_ptrs add.assoc)
  have s3: "store_bytes (store_bytes ?m sp (?b1 @ ?b2 @ le_bytes 8 0)) q1 (le_bytes 8 0) = store_bytes ?m sp ?blk"
    using st [of "8 + 8 * (of_nat ?n + 1)" "?b1 @ ?b2 @ le_bytes 8 0" "le_bytes 8 0" ?m] la len(2)
    by (simp add: q1_def length_ptrs add.assoc distrib_left)
  have s4: "store_bytes (store_bytes ?m sp ?blk) q2 ?aux =
      store_bytes ?m sp (stack_block info (opt_pagesize (t_opts t)) addrs)"
    using st [of "8 + 8 * (of_nat ?n + 2)" ?blk ?aux ?m] la len(2)
    by (simp add: q2_def length_ptrs length_auxv add.assoc distrib_left stack_block_def hd)
  have toptr: "lfi_as_toptr (p_as pr) (tos - ARG_BLOCK) v = Ret (tos - ARG_BLOCK) v" if "aspaces v = aspaces w" for v :: "('x, 'z) tuxw_scheme"
    using range hd that p(3,4) by (cases addrs) (simp_all add: lfi_as_toptr_def run_simps)
  show ?thesis
    unfolding stacksetup_def Let_def tos_def [symmetric] sp_def [symmetric] q0_def [symmetric] q1_def [symmetric] q2_def [symmetric]
    using p strs by (simp add: bindM_def deref_def write_u64_def write_mem_def modifyM_def gets_def ret_def ptrs s1 s2 s3 s4 a0 toptr
        split del: if_split)
qed

section \<open>Reading the stack back\<close>

text \<open>What the start-up code of a program reads: words, strings, the argument vector, the auxiliary vector.\<close>

definition guest_word :: "memory \<Rightarrow> u64 \<Rightarrow> u64" where
  "guest_word m x = le_word (load_bytes m x 8)"

definition guest_string :: "memory \<Rightarrow> u64 \<Rightarrow> bytes" where
  "guest_string m x = load_bytes m x (strnlen m x 4096)"

definition guest_argv :: "memory \<Rightarrow> u64 \<Rightarrow> bytes list" where
  "guest_argv m sp = map (\<lambda>i. guest_string m (guest_word m (sp + 8 * of_nat (Suc i)))) [0..<unat (guest_word m sp)]"

definition guest_auxv :: "memory \<Rightarrow> u64 \<Rightarrow> nat \<Rightarrow> (u64 \<times> u64) list" where
  "guest_auxv m av n = map (\<lambda>i. (guest_word m (av + 8 * of_nat (2 * i)), guest_word m (av + 8 * of_nat (2 * i + 1)))) [0..<n]"

lemma slice_words:
  "i < length ws \<Longrightarrow> take 8 (drop (8 * i) (concat (map (le_bytes 8) ws))) = le_bytes 8 (ws ! i)"
proof (induction ws arbitrary: i)
  case (Cons v ws)
  then show ?case by (cases i) simp_all
qed simp

lemma guest_word_store:
  assumes "i < length ws" "8 * length ws \<le> 2 ^ 64"
  shows "guest_word (store_bytes m sp (concat (map (le_bytes 8) ws))) (sp + 8 * of_nat i) = ws ! i"
proof -
  have "load_bytes (store_bytes m sp (concat (map (le_bytes 8) ws))) (sp + of_nat (8 * i)) 8 = le_bytes 8 (ws ! i)"
    using assms by (subst load_store_slice) (simp_all add: length_ptrs slice_words)
  then show ?thesis by (simp add: guest_word_def le_word_le_bytes take_bit_word_eq_self)
qed

lemma strnlen_string:
  assumes "load_bytes m a (Suc (length s)) = s @ [0]" "0 \<notin> set s" "length s < n"
  shows "strnlen m a n = length s"
  using assms
proof (induction s arbitrary: a n)
  case Nil
  then show ?case by (cases n) (simp_all add: load_bytes_def)
next
  case (Cons b s)
  have "m a = b" "load_bytes m (a + 1) (Suc (length s)) = s @ [0]"
    using Cons.prems(1) load_bytes_add [of m a 1 "Suc (length s)"] by (simp_all add: load_bytes_def)
  with Cons show ?case by (cases n) simp_all
qed

lemma guest_string_arg:
  assumes "load_bytes m a (length (arg_bytes s)) = arg_bytes s" "0 \<notin> set s"
  shows "guest_string m a = take ARGV_MAX s"
proof -
  have b: "load_bytes m a (Suc (length (take 1024 s))) = take 1024 s @ [0]"
    using assms(1) by (simp add: arg_bytes_def)
  moreover have "strnlen m a 4096 = length (take 1024 s)"
    using b assms(2) by (intro strnlen_string) (auto dest: in_set_takeD)
  ultimately show ?thesis
    using load_bytes_add [of m a "length (take 1024 s)" 1] by (simp add: guest_string_def load_bytes_def)
qed

lemma guest_strings:
  assumes "load_bytes m a (length (arg_block ss)) = arg_block ss" "\<forall>s \<in> set ss. 0 \<notin> set s"
  shows "map (guest_string m) (arg_addrs a ss) = map (take ARGV_MAX) ss"
  using assms
proof (induction a ss rule: arg_addrs.induct)
  case (2 a s ss)
  have "load_bytes m a (length (arg_bytes s)) = arg_bytes s"
    "load_bytes m (a + of_nat (length (arg_bytes s))) (length (arg_block ss)) = arg_block ss"
    using "2.prems"(1) by (simp_all add: load_bytes_add append_eq_append_conv)
  with 2 show ?case by (simp add: guest_string_arg)
qed simp

definition stack_words :: "LFILoadInfo \<Rightarrow> u64 \<Rightarrow> u64 list \<Rightarrow> u64 list" where
  "stack_words info pgsz addrs =
     of_nat (length addrs) # addrs @ [0, 0] @ concat (map (\<lambda>(t, v). [t, v]) (auxv_entries info pgsz (hd addrs)))"

lemma stack_block_words: "stack_block info pgsz addrs = concat (map (le_bytes 8) (stack_words info pgsz addrs))"
proof -
  have "auxv_bytes es = concat (map (le_bytes 8) (concat (map (\<lambda>(t, v). [t, v]) es)))" for es
    by (induction es) (auto simp: auxv_bytes_def)
  then show ?thesis by (simp add: stack_block_def stack_words_def)
qed

lemma nth_pairs:
  "i < length es \<Longrightarrow> concat (map (\<lambda>(t, v). [t, v]) es) ! (2 * i) = fst (es ! i) \<and>
     concat (map (\<lambda>(t, v). [t, v]) es) ! (2 * i + 1) = snd (es ! i)"
proof (induction es arbitrary: i)
  case (Cons e es)
  then show ?case by (cases i; cases e) simp_all
qed simp

lemma length_stack_words: "length (stack_words info pgsz addrs) = 41 + length addrs"
  by (simp add: stack_words_def auxv_entries_def)

lemma guest_stack:
  fixes m sp info pgsz
  assumes "addrs \<noteq> []" "length addrs \<le> 471"
  defines "es \<equiv> auxv_entries info pgsz (hd addrs)"
  defines "m' \<equiv> store_bytes m sp (stack_block info pgsz addrs)"
  shows "guest_word m' sp = of_nat (length addrs)"
    and "i < length addrs \<Longrightarrow> guest_word m' (sp + 8 * of_nat (Suc i)) = addrs ! i"
    and "guest_word m' (sp + 8 * of_nat (length addrs + 1)) = 0"
    and "guest_word m' (sp + 8 * of_nat (length addrs + 2)) = 0"
    and "guest_auxv m' (sp + 8 * of_nat (length addrs + 3)) (length es) = es"
proof -
  let ?n = "length addrs"
  have le: "length es = 19" by (simp add: es_def auxv_entries_def)
  have wd: "guest_word m' (sp + 8 * of_nat i) = stack_words info pgsz addrs ! i" if "i < 41 + ?n" for i
    unfolding m'_def stack_block_words
    using that assms(2) by (intro guest_word_store) (simp_all add: length_stack_words)
  have ws: "stack_words info pgsz addrs ! Suc j = (addrs @ [0, 0] @ concat (map (\<lambda>(t, v). [t, v]) es)) ! j" for j
    by (simp add: stack_words_def es_def)
  show "guest_word m' sp = of_nat ?n" using wd [of 0] by (simp add: stack_words_def)
  show "guest_word m' (sp + 8 * of_nat (Suc i)) = addrs ! i" if "i < ?n" for i
    using that by (subst wd) (simp_all add: ws nth_append del: of_nat_Suc)
  show "guest_word m' (sp + 8 * of_nat (?n + 1)) = 0" by (subst wd) (simp_all add: ws nth_append)
  show "guest_word m' (sp + 8 * of_nat (?n + 2)) = 0"
    by (subst wd) (simp_all add: ws nth_append)
  have at: "guest_word m' (sp + 8 * of_nat (?n + 3) + 8 * of_nat j) = concat (map (\<lambda>(t, v). [t, v]) es) ! j"
    if "j < 38" for j
  proof -
    have "sp + 8 * of_nat (?n + 3) + 8 * of_nat j = sp + 8 * of_nat (Suc (?n + 2 + j))" by (simp add: algebra_simps)
    also have "guest_word m' \<dots> = concat (map (\<lambda>(t, v). [t, v]) es) ! j"
      using that by (subst wd) (simp_all add: ws nth_append)
    finally show ?thesis .
  qed
  show "guest_auxv m' (sp + 8 * of_nat (?n + 3)) (length es) = es"
  proof (rule nth_equalityI)
    fix i assume "i < length (guest_auxv m' (sp + 8 * of_nat (?n + 3)) (length es))"
    then have i: "i < length es" by (simp add: guest_auxv_def)
    then have "guest_auxv m' (sp + 8 * of_nat (?n + 3)) (length es) ! i =
        (concat (map (\<lambda>(t, v). [t, v]) es) ! (2 * i), concat (map (\<lambda>(t, v). [t, v]) es) ! (2 * i + 1))"
      using at [of "2 * i"] at [of "2 * i + 1"] le by (simp add: guest_auxv_def)
    then show "guest_auxv m' (sp + 8 * of_nat (?n + 3)) (length es) ! i = es ! i" using nth_pairs [OF i] by simp
  qed (simp add: guest_auxv_def)
qed

lemma store_same_outside:
  assumes "lo \<le> a" "unat a + length bs \<le> unat hi"
  shows "same_outside lo hi m (store_bytes m a bs)"
proof -
  have n: "unat (of_nat (length bs) :: u64) = length bs"
    using assms(2) unsigned_less [of hi, where 'a = nat] by (simp add: unat_of_nat)
  have "store_bytes m a bs x = m x" if "\<not> (lo \<le> x \<and> x < hi)" for x
    using that in_range_interval [of x a "of_nat (length bs)" lo hi] assms n
    by (intro store_bytes_outside [of _ "of_nat (length bs)"]) auto
  then show ?thesis by (simp add: same_outside_def)
qed

text \<open>C12. The initial stack.  For at most 471 arguments (so that the pointers and the auxiliary
  vector fit in the block below the strings) whose text fits in one block, a
  program that starts reads back from its stack pointer exactly the arguments it
  was given (each cut to 1024 bytes), an argument vector ended by NULL, an empty
  environment and the auxiliary vector; the call changes nothing but the two
  blocks at the top of the stack.\<close>

theorem stack_roundtrip:
  fixes w :: "('x, 'z) tuxw_scheme"
  assumes p: "p \<noteq> NULL" "procs w p = Some pr" "p_as pr \<noteq> NULL" "aspaces w (p_as pr) = Some a"
    "p_tux pr \<noteq> NULL" "tuxes w (p_tux pr) = Some t"
    and r: "stack_ready info a argv" and z: "\<forall>s \<in> set argv. 0 \<notin> set s"
  defines "tos \<equiv> li_stack info + li_stacksize info"
  defines "sp \<equiv> tos - 2 * ARG_BLOCK"
  shows "\<exists>m'. stacksetup p argv info w = Ret (Some sp) (w\<lparr>mem := m'\<rparr>) \<and> same_outside sp tos (mem w) m' \<and>
    guest_argv m' sp = map (take ARGV_MAX) argv \<and>
    guest_word m' (sp + 8 * of_nat (length argv + 1)) = 0 \<and>
    guest_word m' (sp + 8 * of_nat (length argv + 2)) = 0 \<and>
    guest_auxv m' (sp + 8 * of_nat (length argv + 3)) 19 = auxv_entries info (opt_pagesize (t_opts t)) (tos - ARG_BLOCK)"
proof -
  define addrs where "addrs = arg_addrs (tos - ARG_BLOCK) argv"
  define m1 where "m1 = store_bytes (mem w) (tos - ARG_BLOCK) (arg_block argv)"
  define m' where "m' = store_bytes m1 sp (stack_block info (opt_pagesize (t_opts t)) addrs)"
  have n: "argv \<noteq> []" "length argv \<le> 471" "length addrs = length argv" "length (arg_block argv) < 4096"
    using r by (simp_all add: stack_ready_def addrs_def)
  then have hd: "addrs \<noteq> []" "hd addrs = tos - ARG_BLOCK" by (cases argv; simp add: addrs_def)+
  have tos: "unat (tos - ARG_BLOCK) = unat tos - 4096" "unat sp = unat tos - 8192" "2 * 4096 \<le> unat tos"
    using r by (simp_all add: stack_ready_def tos_def sp_def unat_sub word_le_nat_alt unat_add_u64)
  have "sp \<le> tos - ARG_BLOCK" using tos by (simp add: word_le_nat_alt)
  then have "same_outside sp tos (mem w) m1" "same_outside sp tos m1 m'"
    unfolding m1_def m'_def using tos n by (auto intro!: store_same_outside simp: length_stack_block)
  then have frame: "same_outside sp tos (mem w) m'" by (rule same_outside_trans)
  have "load_bytes m' (tos - ARG_BLOCK) (length (arg_block argv)) = load_bytes m1 (tos - ARG_BLOCK) (length (arg_block argv))"
    unfolding m'_def
  proof (rule load_store_other)
    fix i assume i: "i < length (arg_block argv)"
    have "tos - ARG_BLOCK + of_nat i - sp = 4096 + of_nat i" by (simp add: sp_def)
    also have "unat \<dots> = 4096 + i" using i n(4) by (subst unat_add_u64) (simp_all add: unat_of_nat)
    finally show "\<not> unat (tos - ARG_BLOCK + of_nat i - sp) < length (stack_block info (opt_pagesize (t_opts t)) addrs)"
      using n by (simp add: length_stack_block)
  qed
  also have "\<dots> = arg_block argv" unfolding m1_def using n(4) by (intro load_store_same) simp
  finally have strs: "map (guest_string m') addrs = map (take ARGV_MAX) argv"
    unfolding addrs_def using z by (rule guest_strings)
  note g = guest_stack [OF hd(1), where info = info and pgsz = "opt_pagesize (t_opts t)" and m = m1 and sp = sp, folded m'_def, unfolded n(3), OF n(2)]
  have "guest_argv m' sp = map (\<lambda>i. guest_string m' (addrs ! i)) [0..<length addrs]"
    unfolding guest_argv_def g(1) using n by (intro map_cong) (simp_all add: unat_of_nat g(2) del: of_nat_Suc)
  also have "\<dots> = map (guest_string m') addrs"
    by (simp add: map_equality_iff)
  finally have args: "guest_argv m' sp = map (take ARGV_MAX) argv" by (simp only: strs)
  have aux: "guest_auxv m' (sp + 8 * of_nat (length argv + 3)) 19 = auxv_entries info (opt_pagesize (t_opts t)) (tos - ARG_BLOCK)"
    using g(5) by (simp add: hd(2) length_auxv_entries)
  have "stacksetup p argv info w = Ret (Some sp) (w\<lparr>mem := m'\<rparr>)"
    unfolding m'_def m1_def addrs_def sp_def tos_def by (rule stacksetup_run [OF p r])
  then show ?thesis using frame args g(3,4) aux by blast
qed

text \<open>A program needs an argument.  With an empty argument vector the first pointer on the
  stack is the terminating NULL, which is below every sandbox address: translating
  it for \<^verbatim>\<open>AT_EXECFN\<close> fails an assertion, so starting a program with no
  arguments ends the host process.\<close>

lemma stack_needs_argument:
  fixes w :: "('x, 'z) tuxw_scheme"
  assumes "p \<noteq> NULL" "procs w p = Some pr" "p_as pr \<noteq> NULL" "aspaces w (p_as pr) = Some a" "minaddr a \<noteq> 0"
  shows "stacksetup p [] info w = Fault AssertFail"
proof -
  define sp where "sp = li_stack info + li_stacksize info - 2 * ARG_BLOCK"
  have "load_bytes (store_bytes (store_bytes m x (le_bytes 8 0)) (x + 8) bs) x 8 = le_bytes 8 0" if "length bs = 8" for m x bs
    using that load_store_slice [of 0 8 "le_bytes 8 0 @ bs" m x] store_bytes_append [of "le_bytes 8 0" bs m x] by simp
  from this [of "le_bytes 8 0" _ "sp + 8"]
  have "le_word (load_bytes (store_bytes (store_bytes m (sp + 8) (le_bytes 8 0)) (sp + 16) (le_bytes 8 0)) (sp + 8) 8) = 0" for m
    by (simp add: le_word_le_bytes add.commute)
  then show ?thesis
    unfolding stacksetup_def Let_def sp_def [symmetric]
    using assms by (simp add: run_simps write_u64_def write_mem_def lfi_as_toptr_def add.assoc)
qed

definition demo_info :: LFILoadInfo where
  "demo_info = \<lparr>li_stack = 0x100100000, li_stacksize = 0x4000, lastva = 0x100200000, elfentry = 0x100015000, ldentry = 0,
     elfbase = 0x100015000, ldbase = 0x100015000, elfphoff = 64, elfphnum = 1, elfphentsize = 56\<rparr>"

theorem stack_roundtrip_witness:
  "\<exists>m'. stacksetup 14 [[97], [98, 99]] demo_info demo_world = Ret (Some 0x100102000) (demo_world\<lparr>mem := m'\<rparr>) \<and>
     guest_argv m' 0x100102000 = [[97], [98, 99]]"
proof -
  have "stack_ready demo_info demo_as [[97], [98, 99]]"
    by (simp add: stack_ready_def demo_info_def demo_as_def arg_bytes_def)
  then show ?thesis
    using stack_roundtrip [of 14 demo_world demo_proc demo_as demo_tux demo_info "[[97], [98, 99]]"]
    by (auto simp: demo_proc_def demo_info_def)
qed

lemma stack_needs_argument_example: "stacksetup 14 [] demo_info demo_world = Fault AssertFail"
  using stack_needs_argument [of 14 demo_world demo_proc demo_as demo_info] by (simp add: demo_proc_def demo_as_def)

end
