(* ===== verification/Tux_UserMem.thy ===== *)
theory Tux_UserMem
  imports Tux_State
begin

text \<open>
  The bounds of a sandbox (\<^verbatim>\<open>lfi_as_new\<close>, \<^verbatim>\<open>src/pal/vm.c\<close>) and what the accessors of user
  memory (\<^verbatim>\<open>src/syscalls/syscalls.h\<close>) accept of them.
\<close>

section \<open>The layout of an address space\<close>

text \<open>C30. The layout of a sandbox.  When a new address space fits (the box does not
  wrap and is larger than the two guards and a page), its bounds leave a guard region
  and the page of runtime calls below, a guard region above, and are ordered.\<close>

theorem sandbox_layout:
  assumes "lfi_as_new P plat w = Ret as w'" "as \<noteq> NULL" "plat \<noteq> NULL" "plats w plat = Some pl"
    and "unat base + unat (vmsize (opts pl)) < 2 ^ 64"
    and "2 * unat guardsize + unat (pagesize (opts pl)) < unat (vmsize (opts pl))"
    and "aspaces w' as = Some a" "base = as_base a"
  shows "as_size a = vmsize (opts pl) \<and> as_plat a = plat \<and> base \<noteq> 0 \<and>
     unat (minaddr a) = unat base + unat guardsize + unat (pagesize (opts pl)) \<and>
     unat (maxaddr a) + unat guardsize = unat base + unat (as_size a) \<and>
     minaddr a < maxaddr a \<and>
     lfi_as_info as w' = Ret \<lparr>info_base = base, info_size = as_size a, info_minaddr = minaddr a, info_maxaddr = maxaddr a\<rparr> w'"
proof -
  let ?s = "vmsize (opts pl)"
  have a: "a = \<lparr>as_base = base, as_size = ?s, minaddr = base + guardsize + pagesize (opts pl),
      maxaddr = base + ?s - guardsize, as_plat = plat\<rparr>" "base \<noteq> 0"
    using assms(1-4,7,8) by (auto simp: lfi_as_new_def malloc_def kcall_def run_simps Let_def split: if_splits prod.splits)
  have u: "unat (base + ?s) = unat base + unat ?s" "unat (base + guardsize) = unat base + unat guardsize"
    "unat (base + guardsize + pagesize (opts pl)) = unat base + unat guardsize + unat (pagesize (opts pl))"
    using assms(5,6) by (auto simp: unat_word_ariths)
  have "guardsize \<le> base + ?s" unfolding word_le_nat_alt u using assms(6) by linarith
  then have m: "unat (base + ?s - guardsize) = unat base + unat ?s - unat guardsize" by (simp add: unat_sub u)
  show ?thesis
    using a u m assms(2,6,7) by (auto simp: word_less_nat_alt lfi_as_info_def run_simps)
qed
theorem sandbox_layout_witness:
  "\<exists>w'. lfi_as_new demo_env 11 demo_world = Ret 16 w' \<and> aspaces w' 16 = Some demo_as \<and> minaddr demo_as < maxaddr demo_as"
proof -
  let ?pl = "\<lparr>bm = 90, opts = \<lparr>pagesize = 4096, vmsize = 0x100000000, sysexternal = False\<rparr>, syshandler = Some Lfi_tux_syscall\<rparr>"
  let ?w = "demo_world\<lparr>nextp := 16, aspaces := (aspaces demo_world)(16 \<mapsto> demo_as)\<rparr>"
  have run: "lfi_as_new demo_env 11 demo_world = Ret 16 ?w"
    by (simp add: lfi_as_new_def malloc_def kcall_def run_simps demo_env_defs Let_def demo_as_def guardsize_def)
  have "minaddr demo_as < maxaddr demo_as"
    by (rule sandbox_layout [OF run, of ?pl "0x100000000" demo_as, THEN conjunct2, THEN conjunct2, THEN conjunct2,
          THEN conjunct2, THEN conjunct2, THEN conjunct1]) (simp_all add: demo_as_def guardsize_def)
  then show ?thesis using run by simp
qed
section \<open>Pointers and strings of the guest\<close>

lemma strnlen_le: "strnlen m s n \<le> n"
  by (induction m s n rule: strnlen.induct) auto

lemma strnlen_step: "0 < n \<Longrightarrow> strnlen m s n = (if m s = 0 then 0 else Suc (strnlen m (s + 1) (n - 1)))"
  by (cases n) auto

lemma strnlen_nonzero: "i < strnlen m s n \<Longrightarrow> m (s + of_nat i) \<noteq> 0"
proof (induction m s n arbitrary: i rule: strnlen.induct)
  case (2 m s n)
  show ?case
  proof (cases i)
    case 0
    then show ?thesis using "2.prems" by (auto split: if_splits)
  next
    case (Suc j)
    then show ?thesis using "2.prems" "2.IH" [of j] by (auto simp: algebra_simps split: if_splits)
  qed
qed simp

text \<open>User pointers.  A buffer the kernel side accepts starts inside the sandbox and is
  the address the guest passed (aligned, where the call asks for it); every other
  address gives 0, which the handlers answer with an error.\<close>

lemma user_buffers:
  assumes "p \<noteq> NULL" "procs w p = Some pr" "p_as pr \<noteq> NULL" "aspaces w (p_as pr) = Some a" "minaddr a \<noteq> 0"
  shows "procbuf p buf n w = Ret (if minaddr a \<le> buf \<and> buf < maxaddr a then buf else 0) w \<and>
    procbufalign p buf n al w =
      Ret (if minaddr a \<le> buf \<and> buf < maxaddr a \<and> buf mod al = 0 then buf else 0) w"
  using assms by (auto simp: procbuf_def procbufalign_def lfi_as_fmptr_def run_simps)

lemma user_buffers_example:
  "procbuf 14 0x100020000 8 demo_world = Ret 0x100020000 demo_world \<and>
   procbufalign 14 0x100020001 8 8 demo_world = Ret 0 demo_world \<and>
   procbuf 14 0x99 8 demo_world = Ret 0 demo_world"
  using user_buffers [of 14 demo_world demo_proc demo_as "0x100020000" 8 8]
    user_buffers [of 14 demo_world demo_proc demo_as "0x100020001" 8 8]
    user_buffers [of 14 demo_world demo_proc demo_as "0x99" 8 8]
  by (simp add: demo_proc_def demo_as_def)

text \<open>C29. Paths.  A path that is accepted starts inside the sandbox, holds at most
  \<^verbatim>\<open>TUX_PATH_MAX\<close> bytes, none of them a terminator, is what memory holds there, and
  is ended by a terminator that lies below the end of the sandbox.\<close>

theorem path_bounded:
  assumes "procpath p s w = Ret (Some path) w'" "p \<noteq> NULL" "procs w p = Some pr"
    and "p_as pr \<noteq> NULL" "aspaces w (p_as pr) = Some a"
  shows "w' = w \<and> minaddr a \<le> s \<and> s < maxaddr a \<and> length path \<le> TUX_PATH_MAX \<and> 0 \<notin> set path \<and>
    (\<forall>i < length path. mem w (s + of_nat i) = path ! i) \<and>
    mem w (s + of_nat (length path)) = 0 \<and> s + of_nat (length path) < info_maxaddr (p_info pr)"
proof -
  let ?n = "strnlen (mem w) s TUX_PATH_MAX"
  have s: "minaddr a \<le> s" "s < maxaddr a" and path: "path = load_bytes (mem w) s ?n" "w' = w"
    and e: "\<not> info_maxaddr (p_info pr) \<le> s + of_nat ?n" "mem w (s + of_nat ?n) = 0"
    using assms by (auto simp: procpath_def lfi_as_fmptr_def run_simps Let_def split: if_splits)
  have "0 \<notin> set path" unfolding path load_bytes_def by (auto dest: strnlen_nonzero)
  then show ?thesis using s path e by (auto simp: strnlen_le load_bytes_def)
qed

lemma demo_path: "procpath 14 0x100020000 demo_world = Ret (Some [97]) demo_world"
proof -
  have "strnlen ((\<lambda>_. 0)(0x100020000 := 97)) 0x100020000 4096 = 1"
    by (simp add: strnlen_step)
  then show ?thesis
    by (simp add: procpath_def lfi_as_fmptr_def run_simps demo_proc_def demo_as_def Let_def load_bytes_def)
qed

theorem path_bounded_witness:
  "procpath 14 0x100020000 demo_world = Ret (Some [97]) demo_world \<and> length [97 :: u8] \<le> TUX_PATH_MAX"
  using path_bounded [OF demo_path, of demo_proc demo_as] demo_path by (simp add: demo_proc_def)

end
