(* ===== verification/Tux_FDSpec.thy ===== *)
theory Tux_FDSpec
  imports Tux_Frame Tux_UserMem
begin

text \<open>
  What the descriptor calls promise: an abstract table, a finite map from numbers to
  open files, with opening at the lowest free number and closing, and the refinement
  of it by \<^verbatim>\<open>src/fd.c\<close> and the calls that use it.
\<close>

section \<open>The abstract table\<close>

type_synonym fdmap = "int \<rightharpoonup> ptr"

definition abs_close :: "int \<Rightarrow> fdmap \<Rightarrow> int \<times> fdmap" where
  "abs_close fd m = (if m fd = None then (- TUX_EBADF, m) else (0, m(fd := None)))"

definition lowest_free :: "int \<Rightarrow> fdmap \<Rightarrow> bool" where
  "lowest_free fd m \<longleftrightarrow> 0 \<le> fd \<and> fd < int TUX_NOFILE \<and> m fd = None \<and> (\<forall>i. 0 \<le> i \<longrightarrow> i < fd \<longrightarrow> m i \<noteq> None)"

definition fd_full :: "fdmap \<Rightarrow> bool" where
  "fd_full m \<longleftrightarrow> (\<forall>i. 0 \<le> i \<longrightarrow> i < int TUX_NOFILE \<longrightarrow> m i \<noteq> None)"

text \<open>The table of a process as such a map.\<close>

definition fd_entry :: "ptr list \<Rightarrow> fdmap" where
  "fd_entry fs fd = (if fdhas_x fs fd then Some (fs ! nat fd) else None)"

definition fds :: "('x, 'z) tuxw_scheme \<Rightarrow> ptr \<Rightarrow> fdmap" where
  "fds w p = (case procs w p of None \<Rightarrow> Map.empty | Some pr \<Rightarrow> fd_entry (ft_files (fdtable pr)))"

lemma fd_entry_update:
  assumes "length fs = TUX_NOFILE" "0 \<le> fd" "fd < int TUX_NOFILE"
  shows "fd_entry (fs[nat fd := f]) = (fd_entry fs)(fd := if f = NULL then None else Some f)"
proof
  fix i
  have "nat fd < length fs" unfolding assms(1) using assms(2,3) by linarith
  then have "fs[nat fd := f] ! nat i = fs ! nat i" if "0 \<le> i" "i \<noteq> fd"
    using that assms(2) by (simp add: eq_nat_nat_iff)
  moreover have "fs[nat fd := f] ! nat fd = f" using \<open>nat fd < length fs\<close> by simp
  ultimately show "fd_entry (fs[nat fd := f]) i = ((fd_entry fs)(fd := if f = NULL then None else Some f)) i"
    using assms(2,3) by (cases "i = fd"; cases "0 \<le> i") (simp_all add: fd_entry_def fdhas_x_def)
qed

lemma fd_entry_alloc:
  assumes "length fs = TUX_NOFILE"
  shows "if fdalloc_loop fs 0 \<ge> int TUX_NOFILE then fd_full (fd_entry fs)
    else lowest_free (fdalloc_loop fs 0) (fd_entry fs)"
proof -
  let ?n = "length (takeWhile (\<lambda>f. f \<noteq> NULL) fs)"
  have used: "fs ! i \<noteq> NULL" if "i < ?n" for i
    using set_takeWhileD [OF nth_mem [OF that]] unfolding takeWhile_nth [OF that] by simp
  then have used': "fs ! nat i \<noteq> NULL" if "0 \<le> i" "i < int ?n" for i
    using that by (simp add: nat_less_iff)
  have "fs ! ?n = NULL" if "?n < TUX_NOFILE"
    using that nth_length_takeWhile [of "\<lambda>f. f \<noteq> NULL" fs] unfolding assms by blast
  then have "\<not> int TUX_NOFILE \<le> int ?n \<Longrightarrow> fs ! nat (int ?n) = NULL" by simp
  then show ?thesis
    using used' by (simp add: fdalloc_loop_spec fd_full_def lowest_free_def fd_entry_def fdhas_x_def)
qed

section \<open>Refinement\<close>

lemma inv_table:
  assumes "tux_inv R w" "procs w p = Some pr"
  shows "length (ft_files (fdtable pr)) = TUX_NOFILE"
  using assms by (auto simp: tux_inv_def fd_inv_def procs_ok_def)

text \<open>Releasing the file of a slot succeeds and leaves the processes alone.\<close>

lemma release_slot:
  assumes inv: "tux_inv R w" and pr: "procs w p = Some pr" and has: "fdhas_x (ft_files (fdtable pr)) fd"
  shows "wp no_fault (fdrelease P (ft_files (fdtable pr) ! nat fd) q) (\<lambda>_ w'. procs w' = procs w) (\<lambda>_. False) w"
proof -
  let ?f = "ft_files (fdtable pr) ! nat fd"
  have fi: "fd_inv w" and po: "procs_ok w" using inv by (simp_all add: tux_inv_def fd_inv_def)
  have f: "?f \<noteq> NULL" using has by (simp add: fdhas_x_def)
  have "proc_refs pr ?f + (if ?f \<in> pinned w then 1 else 0) \<le> refcount w ?f" "0 < proc_refs pr ?f"
    using refcount_ge [of w p pr] po pr fd_inv_slot [OF fi pr has] by (auto simp: procs_ok_def)
  then have "wp no_fault (fdrelease P ?f q)
      (\<lambda>_ w'. objs_ok ((refcount w)(?f := refcount w ?f - 1)) (pinned w) (cwd_hosts w) w' \<and> released ?f w w') (\<lambda>_. False) w"
    using fi f by (intro fdrelease_spec) (auto simp: fd_inv_def)
  then show ?thesis by (rule wp_mono) (auto dest: released_same(1))
qed

lemma close_spec:
  assumes inv: "tux_inv R w" and p: "p \<in> R"
  shows "wp no_fault (sys_close P p fd) (\<lambda>r w'. (r, fds w' p) = abs_close fd (fds w p) \<and>
     (\<forall>q. q \<noteq> p \<longrightarrow> fds w' q = fds w q)) (\<lambda>_. False) w"
proof -
  obtain pr where pr: "p \<noteq> NULL" "procs w p = Some pr" using tux_inv_proc [OF inv p] by blast
  show ?thesis
  proof (cases "fdhas_x (ft_files (fdtable pr)) fd")
    case True
    then have fd: "0 \<le> fd" "fd < int TUX_NOFILE" by (auto simp: fdhas_x_def)
    note upd = fd_entry_update [OF inv_table [OF inv pr(2)] fd]
    have "wp no_fault (fdrelease P (ft_files (fdtable pr) ! nat fd) p)
       (\<lambda>_. wp no_fault (bindM (set_proc p (\<lambda>pr. pr\<lparr>fdtable := \<lparr>ft_files = (ft_files (fdtable pr))[nat fd := NULL]\<rparr>\<rparr>)) (\<lambda>_. ret 0))
          (\<lambda>r w'. (r, fds w' p) = abs_close fd (fds w p) \<and> (\<forall>q. q \<noteq> p \<longrightarrow> fds w' q = fds w q)) (\<lambda>_. False)) (\<lambda>_. False) w"
      by (rule wp_mono [OF release_slot [OF inv pr(2) True]])
        (use pr True upd in \<open>auto simp: set_proc_def wp_rules fds_def abs_close_def fd_entry_def\<close>)
    then show ?thesis
      using pr True by (simp add: sys_close_def fdremove_def fdremove_x_def wp_rules)
  next
    case False
    then show ?thesis
      using pr by (simp add: sys_close_def fdremove_def fdremove_x_def wp_rules fds_def abs_close_def fd_entry_def)
  qed
qed


text \<open>An object in a table is referenced.\<close>

lemma fds_refcount:
  assumes "tux_inv R w" "fds w q i = Some f"
  shows "0 < refcount w f"
proof -
  obtain qr where qr: "procs w q = Some qr" "fd_entry (ft_files (fdtable qr)) i = Some f"
    using assms(2) by (auto simp: fds_def split: option.splits)
  then have has: "fdhas_x (ft_files (fdtable qr)) i" "f = ft_files (fdtable qr) ! nat i"
    by (auto simp: fd_entry_def split: if_splits)
  have inv: "fd_inv w" "procs_ok w" using assms(1) by (simp_all add: tux_inv_def fd_inv_def)
  show ?thesis
    using fd_inv_slot [OF inv(1) qr(1) has(1)] refcount_ge [of w q qr f] inv(2) qr(1) has(2)
    by (auto simp: procs_ok_def)
qed

definition abs_open :: "fdmap \<Rightarrow> int \<Rightarrow> ptr \<Rightarrow> fdmap \<Rightarrow> bool" where
  "abs_open m r f m' \<longleftrightarrow> lowest_free r m \<and> m' = m(r \<mapsto> f)"

text \<open>The end of \<^verbatim>\<open>sys_openat\<close>, where a new file object gets its number.\<close>

lemma install_refines:
  assumes inv: "tux_inv R w" and p: "p \<in> R" and f: "fresh_obj w f"
  shows "wp no_fault (bindM (fdalloc p) (\<lambda>fd.
      if fd < 0 then bindM (fdrelease P f p) (\<lambda>_. ret (- TUX_EMFILE))
      else bindM (fdassign p fd f) (\<lambda>_. ret fd)))
    (\<lambda>r w'. r = - TUX_EMFILE \<and> fd_full (fds w p) \<and> fds w' = fds w \<or>
       abs_open (fds w p) r f (fds w' p) \<and> (\<forall>q. q \<noteq> p \<longrightarrow> fds w' q = fds w q) \<and>
       map_option refs (fdfiles w' f) = Some 1) (\<lambda>_. False) w"
proof -
  obtain pr where pr: "p \<noteq> NULL" "procs w p = Some pr" using tux_inv_proc [OF inv p] by blast
  obtain v where v: "f \<noteq> NULL" "fdfiles w f = Some v" "refs v = 0" using f by (auto simp: fresh_obj_def)
  let ?fs = "ft_files (fdtable pr)" and ?i = "fdalloc_loop (ft_files (fdtable pr)) 0"
  have len: "length ?fs = TUX_NOFILE" by (rule inv_table [OF inv pr(2)])
  note al = fd_entry_alloc [OF len]
  show ?thesis
  proof (cases "int TUX_NOFILE \<le> ?i")
    case True
    have "fdrelease P f p w = Ret () (w\<lparr>fdfiles := (fdfiles w)(f \<mapsto> v\<lparr>refs := - 1\<rparr>)\<rparr>)"
      using fdrelease_shared [OF v(1,2), of P p] v(3) by simp
    then show ?thesis
      using True al pr by (simp add: fdalloc_def wp_def run_simps Let_def fds_def fun_eq_iff)
  next
    case False
    then have i: "0 \<le> ?i" "?i < int TUX_NOFILE" "lowest_free ?i (fd_entry ?fs)"
      using al by (auto simp: lowest_free_def)
    then show ?thesis
      using False pr v fd_entry_update [OF len i(1,2), of f]
      by (simp add: fdalloc_def fdassign_def set_fdfile_def set_proc_def wp_def run_simps Let_def fds_def abs_open_def)
  qed
qed

text \<open>
  The shape of \<^verbatim>\<open>openat\<close>: an error before anything is installed, or the installation of a
  new object, in both cases with the processes as they were.
\<close>

lemma openat_rule:
  fixes w :: "('x, 'z) tuxw_scheme"
  assumes fs: "fs_open_safe P" and inv: "tux_inv R w" and p: "p \<in> R"
    and err: "\<And>r w'. r \<in> {- TUX_EBADF, - TUX_EFAULT, - TUX_ENOENT} \<Longrightarrow> procs w' = procs w \<Longrightarrow> Q r w'"
    and inst: "\<And>f w'. tux_inv R w' \<Longrightarrow> fresh_obj w' f \<Longrightarrow> procs w' = procs w \<Longrightarrow>
      wp no_fault (bindM (fdalloc p) (\<lambda>fd.
         if fd < 0 then bindM (fdrelease P f p) (\<lambda>_. ret (- TUX_EMFILE))
         else bindM (fdassign p fd f) (\<lambda>_. ret fd))) Q (\<lambda>_. False) w'"
  shows "wp no_fault (sys_openat P p dirfd pathp flags mode) Q (\<lambda>_. False) w"
  unfolding sys_openat_def
proof (rule wp_bindI [OF wp_leaves [OF procs.leaves_open(2) getfdir_spec [OF inv p]]], elim conjE)
  fix d and w1 :: "('x, 'z) tuxw_scheme" assume d: "tux_inv_host R d w1" and s1: "procs w1 = procs w"
  have inv1: "tux_inv R w1" and dl: "d \<noteq> NULL \<Longrightarrow> d \<in> dom (hostfiles w1)"
    using d by (simp_all add: tux_inv_host_def)
  obtain pr where pr: "p \<noteq> NULL" "procs w1 p = Some pr" using tux_inv_proc [OF inv1 p] by blast
  have t: "p_tux pr \<noteq> NULL" "p_tux pr \<in> dom (tuxes w1)" using tux_inv_tux [OF inv1 p pr(2)] by auto
  have tail: "wp no_fault (if f = NULL then ret (- TUX_ENOENT)
       else bindM (fdalloc p) (\<lambda>fd.
         if fd < 0 then bindM (fdrelease P f p) (\<lambda>_. ret (- TUX_EMFILE))
         else bindM (fdassign p fd f) (\<lambda>_. ret fd))) Q (\<lambda>_. False) w2"
    if w2: "(tux_inv R w2 \<and> (f \<noteq> NULL \<longrightarrow> fresh_obj w2 f)) \<and> procs w2 = procs w1" for f w2
    using w2 s1 inst [of w2 f] err [of "- TUX_ENOENT" w2] by (simp add: wp_ret)
  have "wp no_fault (bindM (filenew P (p_tux pr) d path flags mode) (\<lambda>f.
      if f = NULL then ret (- TUX_ENOENT)
       else bindM (fdalloc p) (\<lambda>fd.
         if fd < 0 then bindM (fdrelease P f p) (\<lambda>_. ret (- TUX_EMFILE))
         else bindM (fdassign p fd f) (\<lambda>_. ret fd)))) Q (\<lambda>_. False) w1" for path
    by (rule wp_bindI [OF wp_leaves [OF procs.leaves_open(1) filenew_spec [OF fs inv1 t dl]]]) (simp, rule tail)
  then show "wp no_fault (if dirfd \<noteq> TUX_AT_FDCWD \<and> d = NULL then ret (- TUX_EBADF)
     else bindM (procpath p pathp) (\<lambda>path. case path of None \<Rightarrow> ret (- TUX_EFAULT)
       | Some path \<Rightarrow> bindM (deref procs p) (\<lambda>pr.
           bindM (filenew P (p_tux pr) d path flags mode) (\<lambda>f.
           if f = NULL then ret (- TUX_ENOENT)
           else bindM (fdalloc p) (\<lambda>fd.
             if fd < 0 then bindM (fdrelease P f p) (\<lambda>_. ret (- TUX_EMFILE))
             else bindM (fdassign p fd f) (\<lambda>_. ret fd)))))) Q (\<lambda>_. False) w1"
    using pr s1 err
    by (auto simp: wp_ret wp_bind [of _ "deref procs p"] wp_deref split: option.split
        intro!: wp_readonly user_memory(3) [OF inv1 p])
qed

lemma open_spec:
  assumes fs: "fs_open_safe P" and inv: "tux_inv R w" and p: "p \<in> R"
  shows "wp no_fault (sys_openat P p dirfd pathp flags mode)
    (\<lambda>r w'. r < 0 \<and> fds w' = fds w \<and> (r = - TUX_EMFILE \<longrightarrow> fd_full (fds w p)) \<or>
       (\<exists>f. abs_open (fds w p) r f (fds w' p) \<and> (\<forall>q i. fds w q i \<noteq> Some f) \<and>
          map_option refs (fdfiles w' f) = Some 1) \<and>
       (\<forall>q. q \<noteq> p \<longrightarrow> fds w' q = fds w q)) (\<lambda>_. False) w"
proof (rule openat_rule [OF fs inv p], goal_cases)
  case (1 r w')
  then show ?case by (auto simp: fds_def fun_eq_iff)
next
  case (2 f w')
  have same: "fds w' = fds w" using 2(3) by (simp add: fds_def fun_eq_iff)
  have "fds w q i \<noteq> Some f" for q i
    using fds_refcount [of R w' q i f] 2 by (auto simp: fresh_obj_def same)
  then show ?case
    by (intro wp_mono [OF install_refines [OF 2(1) p 2(2), of P]]) (auto simp: same)
qed

text \<open>C8. \<^verbatim>\<open>openat\<close> refines opening at the lowest free number: it returns an error number
  and no table changes (\<^verbatim>\<open>-EMFILE\<close> only when the table is full), or the lowest free
  descriptor, which from then on denotes a file that no table held before, with exactly
  one reference; no other entry of any process changes.\<close>

theorem open_refines:
  assumes fs: "fs_open_safe P" and inv: "tux_inv R w" and p: "p \<in> R"
  shows "wp no_fault (sys_openat P p dirfd pathp flags mode)
    (\<lambda>r w'. r < 0 \<and> fds w' = fds w \<and> (r = - TUX_EMFILE \<longrightarrow> fd_full (fds w p)) \<or>
       (\<exists>f. abs_open (fds w p) r f (fds w' p) \<and> (\<forall>q i. fds w q i \<noteq> Some f) \<and>
          map_option refs (fdfiles w' f) = Some 1) \<and>
       (\<forall>q. q \<noteq> p \<longrightarrow> fds w' q = fds w q)) (\<lambda>_. False) w"
  by (rule open_spec [OF assms])


section \<open>Witnesses\<close>


theorem open_refines_witness:
  "wp no_fault (sys_openat demo_env 14 TUX_AT_FDCWD 0x100020000 0 0)
    (\<lambda>r w'. r < 0 \<and> fds w' = fds demo_world \<and> (r = - TUX_EMFILE \<longrightarrow> fd_full (fds demo_world 14)) \<or>
       (\<exists>f. abs_open (fds demo_world 14) r f (fds w' 14) \<and> (\<forall>q i. fds demo_world q i \<noteq> Some f) \<and>
          map_option refs (fdfiles w' f) = Some 1) \<and>
       (\<forall>q. q \<noteq> 14 \<longrightarrow> fds w' q = fds demo_world q)) (\<lambda>_. False) demo_world"
  by (rule open_refines [OF demo_fs_safe demo_inv]) simp

lemma fdalloc_loop_NULLs: "0 < n \<Longrightarrow> fdalloc_loop (replicate n NULL) i = i"
  by (cases n) simp_all

lemma demo_open: "\<exists>w1. sys_openat demo_env 14 TUX_AT_FDCWD 0x100020000 0 0 demo_world = Ret 3 w1"
  by (simp add: sys_openat_def getfdir_def demo_path run_simps demo_proc_def demo_tux_def filenew_def validflags_def
      host_openat_def malloc_def kcall_def fd_or_cwd_def set_hostfile_def filefnew_def fdalloc_def fdassign_def
      set_fdfile_def set_proc_def Let_def demo_env_defs fdalloc_loop_NULLs)


section \<open>Last references\<close>

text \<open>C25. Releasing a file closes the host descriptor exactly when the last reference goes: with
  other references left only the count changes, and the last one calls \<^verbatim>\<open>close\<close> once on the
  host descriptor and frees the object.\<close>

theorem release_closes_last:
  assumes "f \<noteq> NULL" "fdfiles w f = Some v" "ff_close v = Some Fileclose"
    and "dev v \<noteq> NULL" "files w (dev v) = Some fl" "f_file fl \<noteq> NULL" "hostfiles w (f_file fl) = Some hf"
    and "f_file fl \<notin> {host_stdin, host_stdout, host_stderr}"
  shows "fdrelease P f p w =
    (if refs v = 1 then
       Ret () (w\<lparr>ext := snd (k_close P (hf_fd hf) (ext w)),
         hostfiles := (if fst (k_close P (hf_fd hf) (ext w)) < 0 then hostfiles w else (hostfiles w)(f_file fl := None)),
         fdfiles := (fdfiles w)(f := None)\<rparr>)
     else Ret () (w\<lparr>fdfiles := (fdfiles w)(f \<mapsto> v\<lparr>refs := refs v - 1\<rparr>)\<rparr>))"
proof (cases "refs v = 1")
  case True
  from fdrelease_last [OF assms(1,2) True assms(3-8) surjective_pairing]
  show ?thesis unfolding if_P [OF True] .
next
  case False
  from fdrelease_shared [OF assms(1,2) False] show ?thesis unfolding if_not_P [OF False] .
qed

text \<open>The state after one file was opened next to the standard streams.\<close>

definition demo_opened :: "int tuxw" where
  "demo_opened = demo_world\<lparr>nextp := 18, hostfiles := (hostfiles demo_world)(16 \<mapsto> \<lparr>hf_fd = 7\<rparr>),
     files := (files demo_world)(17 \<mapsto> \<lparr>f_file = 16, f_flags = 0\<rparr>),
     fdfiles := (fdfiles demo_world)(18 \<mapsto> demo_file 17 1),
     procs := [14 \<mapsto> demo_proc\<lparr>fdtable := \<lparr>ft_files = [5, 7, 9, 18] @ replicate 124 NULL\<rparr>\<rparr>]\<rparr>"

theorem release_closes_last_witness:
  "fdrelease demo_env 18 14 demo_opened =
     Ret () (demo_opened\<lparr>hostfiles := (hostfiles demo_opened)(16 := None), fdfiles := (fdfiles demo_opened)(18 := None)\<rparr>)"
  using release_closes_last [of 18 demo_opened "demo_file 17 1" "\<lparr>f_file = 16, f_flags = 0\<rparr>" "\<lparr>hf_fd = 7\<rparr>" demo_env 14]
  by (simp add: demo_opened_def demo_file_def host_stdin_def host_stdout_def host_stderr_def demo_env_defs demo_status_def)

section \<open>Bad descriptors\<close>


end
