(* ===== verification/Tux_SysThreadInv.thy ===== *)
theory Tux_SysThreadInv
  imports Tux_Frame
begin

text \<open>
  The thread, exit and remaining system calls keep the invariant of the
  runtime.  Creating a thread adds one context and one thread object, which
  refer to each other; \<open>starting\<close> is the state of a thread that \<^verbatim>\<open>spawn\<close> is still
  setting up.  \<^verbatim>\<open>exit\<close> and \<^verbatim>\<open>exit_group\<close> never return to their caller.
\<close>

section \<open>The invariant\<close>

definition thread_of :: "ptr set \<Rightarrow> ('x, 'z) tuxw_scheme \<Rightarrow> ptr \<Rightarrow> bool" where
  "thread_of R w p \<longleftrightarrow> (\<exists>th. threads w p = Some th \<and> proc th \<in> R)"

lemma thread_of_upd [simp]: "thread_of R (w\<lparr>mem := m\<rparr>) p = thread_of R w p" "thread_of R (w\<lparr>ext := e\<rparr>) p = thread_of R w p"
  by (simp_all add: thread_of_def)

lemma thread_live:
  assumes "tux_inv R w" "threads w p = Some th" "proc th \<in> R"
  shows "p \<noteq> NULL" "p_ctx th \<noteq> NULL"
    "\<exists>c. ctxs w (p_ctx th) = Some c \<and> ctxp c = p \<and> as_ready w (ctx_as c)"
  using assms by (auto simp: tux_inv_def threads_ok_def)

lemma wp_thread:
  assumes "tux_inv R w" "thread_of R w p"
    and "\<And>th. threads w p = Some th \<Longrightarrow> proc th \<in> R \<Longrightarrow> wp F (f th) Q E w"
  shows "wp F (bindM (deref threads p) f) Q E w"
  using assms thread_live(1) [OF assms(1)] by (auto simp: thread_of_def wp_bind wp_deref)

text \<open>A futex call changes the world outside only.\<close>

definition only_ext :: "('x, 'z) tuxw_scheme \<Rightarrow> ('x, 'z) tuxw_scheme \<Rightarrow> bool" where
  "only_ext w v \<longleftrightarrow> (\<exists>e. v = w\<lparr>ext := e\<rparr>)"

lemma only_ext_refl [simp]: "only_ext w w"
proof -
  have "w = w\<lparr>ext := ext w\<rparr>" by simp
  then show ?thesis unfolding only_ext_def ..
qed

lemma futex_spec:
  assumes "tux_inv R w" "thread_of R w p"
  shows "wp only_assert (sys_futex P p ua op v tmo ua2 v3) (\<lambda>_. only_ext w) E w"
proof -
  have h: "wp only_assert (host_futexwait P a op v b) (\<lambda>_. only_ext w) E w"
    "wp only_assert (host_futexwake P a op v) (\<lambda>_. only_ext w) E w"
    "wp only_assert (host_futexrequeue P a op v) (\<lambda>_. only_ext w) E w" for a b
    by (auto simp: host_futexwait_def host_futexwake_def host_futexrequeue_def ret_defs wp_rules only_ext_def)
  have "wp only_assert (futexwait P p a op v tmo) (\<lambda>_. only_ext w) E w" for a
    using h by (auto simp: futexwait_def wp_ret intro!: wp_thread [OF assms] wp_user(2) [OF assms(1)])
  then show ?thesis
    using h
    by (auto simp: sys_futex_def wp_ret futexwake_def futexrequeue_def Let_def
        intro!: wp_thread [OF assms] wp_user(2) [OF assms(1)])
qed

lemma futex_keeps:
  assumes "tux_inv R w" "thread_of R w p"
  shows "wp only_assert (sys_futex P p ua op v tmo ua2 v3) (\<lambda>_. tux_inv R) (tux_inv R) w"
  by (rule wp_mono [OF futex_spec [OF assms]]) (auto simp: only_ext_def assms)

lemma getaffinity_keeps:
  assumes "tux_inv R w" "p \<in> R"
  shows "wp only_assert (sys_sched_getaffinity P p pid n a) (\<lambda>_. tux_inv R) (tux_inv R) w"
proof -
  obtain pr where "p \<noteq> NULL" "procs w p = Some pr" using tux_inv_proc [OF assms] by blast
  moreover have "tux_inv R (w\<lparr>ext := x, nextp := Suc (nextp w)\<rparr>)" for x
    using tux_inv_nextp [of R "w\<lparr>ext := x\<rparr>"] assms(1) by simp
  ultimately show ?thesis
    using assms(1)
    by (auto simp: sys_sched_getaffinity_def host_cpucount_def malloc_def procaddr_def lfi_as_validptr_def write_mem_def wp_rules Let_def)
qed

lemma yield_keeps: "tux_inv R w \<Longrightarrow> wp only_assert (sys_sched_yield P p) (\<lambda>_. tux_inv R) (tux_inv R) w"
  by (simp add: sys_sched_yield_def host_sched_yield_def ret_defs wp_rules)

lemma gettid_keeps: "tux_inv R w \<Longrightarrow> thread_of R w p \<Longrightarrow> wp only_assert (sys_gettid p) (\<lambda>_. tux_inv R) (tux_inv R) w"
  by (auto simp: sys_gettid_def wp_ret intro!: wp_thread)

lemma tux_inv_thr:
  assumes "tux_inv R w" "threads_ok R (w\<lparr>threads := ts, ctxs := cs\<rparr>)"
  shows "tux_inv R (w\<lparr>threads := ts, ctxs := cs\<rparr>)" (is "tux_inv R ?w")
proof -
  have f: "fd_inv ?w = fd_inv w"
    unfolding fd_inv_def procs_ok_def refcount_frame [of ?w w, simplified] pinned_frame [of ?w w, simplified]
      cwd_hosts_frame [of ?w w, simplified] cwds_frame [of ?w w, simplified]
      objs_ok_frame [of ?w w, simplified] host_of_frame [of ?w w, simplified] by simp
  show ?thesis
    using assms proc_ready_frame [of ?w w] unfolding tux_inv_def f by simp
qed

lemma as_ready_upd [simp]: "as_ready (w\<lparr>threads := ts\<rparr>) = as_ready w" "as_ready (w\<lparr>ctxs := cs\<rparr>) = as_ready w"
  by (intro ext; simp add: as_ready_def)+

lemma tux_inv_thread:
  assumes "tux_inv R w" "threads w p = Some th" "proc th' = proc th" "p_ctx th' = p_ctx th"
  shows "tux_inv R (w\<lparr>threads := (threads w)(p \<mapsto> th')\<rparr>)"
proof -
  have "threads_ok R (w\<lparr>threads := (threads w)(p \<mapsto> th')\<rparr>)"
    using assms by (auto simp: tux_inv_def threads_ok_def)
  then show ?thesis using tux_inv_thr [of R w "ctxs w" "(threads w)(p \<mapsto> th')"] assms(1) by simp
qed

lemma tux_inv_ctxs:
  assumes "tux_inv R w" "c \<le> nextp w" "\<And>u. ctxs w c = Some u \<Longrightarrow> ctxp v = ctxp u \<and> ctx_as v = ctx_as u"
  shows "tux_inv R (w\<lparr>ctxs := (ctxs w)(c \<mapsto> v)\<rparr>)"
proof -
  have "threads_ok R (w\<lparr>ctxs := (ctxs w)(c \<mapsto> v)\<rparr>)"
  proof -
    have t: "dom (threads w) \<subseteq> {..nextp w}" "dom (ctxs w) \<subseteq> {..nextp w}"
      "\<And>t th. threads w t = Some th \<Longrightarrow> proc th \<in> R \<Longrightarrow> t \<noteq> NULL \<and> p_ctx th \<noteq> NULL \<and>
         (\<exists>c. ctxs w (p_ctx th) = Some c \<and> ctxp c = t \<and> as_ready w (ctx_as c))"
      using assms(1) by (simp_all add: tux_inv_def threads_ok_def)
    have "\<exists>d. (if p_ctx th = c then Some v else ctxs w (p_ctx th)) = Some d \<and> ctxp d = t \<and> as_ready w (ctx_as d)"
      if "threads w t = Some th" "proc th \<in> R" for t th
      using t(3) [OF that] assms(3) by auto
    then show ?thesis using t assms(2) by (simp add: threads_ok_def as_ready_upd)
  qed
  then show ?thesis using tux_inv_thr [of R w "(ctxs w)(c \<mapsto> v)" "threads w"] assms(1) by simp
qed

lemma tux_inv_ctx_upd:
  assumes "tux_inv R w" "ctxs w c = Some u" "ctxp v = ctxp u" "ctx_as v = ctx_as u"
  shows "tux_inv R (w\<lparr>ctxs := (ctxs w)(c \<mapsto> v)\<rparr>)"
proof (rule tux_inv_ctxs [OF assms(1)])
  show "c \<le> nextp w" using assms(1,2) by (auto simp: tux_inv_def threads_ok_def)
qed (use assms in simp)

lemma fresh_ctx: "tux_inv R w \<Longrightarrow> n > nextp w \<Longrightarrow> n \<notin> dom (ctxs w)"
  by (auto simp: tux_inv_def threads_ok_def dest!: subsetD)

lemma fresh_thread: "tux_inv R w \<Longrightarrow> n > nextp w \<Longrightarrow> n \<notin> dom (threads w)"
  by (auto simp: tux_inv_def threads_ok_def dest!: subsetD)

text \<open>What creating a context changes.\<close>

definition ctx_made :: "('x, 'z) tuxw_scheme \<Rightarrow> ptr \<Rightarrow> ptr \<Rightarrow> ptr \<Rightarrow> ('x, 'z) tuxw_scheme \<Rightarrow> bool" where
  "ctx_made w as cp ctx w' \<longleftrightarrow> threads w' = threads w \<and> procs w' = procs w \<and>
     (ctx \<noteq> NULL \<longrightarrow> ctx \<notin> dom (ctxs w) \<and> (\<exists>c. ctxs w' = (ctxs w)(ctx \<mapsto> c) \<and> ctxp c = cp \<and> ctx_as c = as))"

lemma lfi_ctx_new_spec:
  fixes w :: "('x, 'z) tuxw_scheme"
  assumes inv: "tux_inv R w" and as: "as_ready w as"
  shows "wp only_assert (lfi_ctx_new P as cp main) (\<lambda>ctx w'. tux_inv R w' \<and> ctx_made w as cp ctx w') E w"
    (is "wp _ _ ?Q _ _")
proof -
  obtain a pl where a: "as \<noteq> NULL" "aspaces w as = Some a" "as_plat a \<noteq> NULL" "plats w (as_plat a) = Some pl"
    using as by (auto simp: as_ready_def)
  let ?n = "Suc (nextp w)"
  let ?same = "\<lambda>v. tux_inv R v \<and> threads v = threads w \<and> procs v = procs w \<and> ctxs v = ctxs w \<and> ?n \<le> nextp v"
  have i1: "?same (w\<lparr>nextp := ?n\<rparr>)" using tux_inv_nextp [OF inv] by simp
  have f: "?n \<notin> dom (ctxs w)" using fresh_ctx [OF inv] by simp
  have s: "wp only_assert (if main \<or> sysexternal (opts pl) then
                bindM (sysalloc P pl (as_base a)) (\<lambda>s.
                if s = 0 then ret 0
                else bindM (syssetup P pl s ctx (as_base a)) (\<lambda>_. ret s))
              else ret (as_base a)) (\<lambda>_. ?same) E v" if "?same v" for v ctx
    using that tux_inv_nextp [of R v]
    by (auto simp: sysalloc_def syssetup_def host_mmap_def host_mprotect_def write_u64_def ret_defs wp_rules)
  have n: "wp only_assert (if (main \<or> sysexternal (opts pl)) \<and> s = 0 then ret NULL
       else bindM (modifyM (\<lambda>w. w\<lparr>ctxs := (ctxs w)(?n \<mapsto>
                \<lparr>tp = 0, regs = lfi_regs_init (target P) (\<lambda>_. 0) a s,
                 ctxp = cp, sys = s, ctx_as = as\<rparr>)\<rparr>)) (\<lambda>_.
            ret ?n)) ?Q E v" if "?same v" for s and v :: "('x, 'z) tuxw_scheme"
    using that f tux_inv_ctxs [of R v ?n] by (auto simp: wp_rules ctx_made_def)
  have "wp only_assert (bindM (if main \<or> sysexternal (opts pl) then
                bindM (sysalloc P pl (as_base a)) (\<lambda>s.
                if s = 0 then ret 0
                else bindM (syssetup P pl s ?n (as_base a)) (\<lambda>_. ret s))
              else ret (as_base a)) (\<lambda>s. if (main \<or> sysexternal (opts pl)) \<and> s = 0 then ret NULL
       else bindM (modifyM (\<lambda>w. w\<lparr>ctxs := (ctxs w)(?n \<mapsto>
                \<lparr>tp = 0, regs = lfi_regs_init (target P) (\<lambda>_. 0) a s,
                 ctxp = cp, sys = s, ctx_as = as\<rparr>)\<rparr>)) (\<lambda>_.
            ret ?n))) ?Q E (w\<lparr>nextp := ?n\<rparr>)"
    by (rule wp_bindI [OF s [OF i1] n])
  then show ?thesis
    using a inv i1 by (auto simp: lfi_ctx_new_def ctx_made_def wp_bind [of _ "malloc _"] wp_bind [of _ "deref _ _"] wp_malloc wp_deref wp_ret Let_def)
qed

lemma tux_inv_new_thread:
  assumes "tux_inv R w" "t \<le> nextp w"
    and "proc th \<in> R \<Longrightarrow> t \<noteq> NULL \<and> p_ctx th \<noteq> NULL \<and> (\<exists>c. ctxs w (p_ctx th) = Some c \<and> ctxp c = t \<and> as_ready w (ctx_as c))"
  shows "tux_inv R (w\<lparr>threads := (threads w)(t \<mapsto> th)\<rparr>)"
proof -
  have "threads_ok R (w\<lparr>threads := (threads w)(t \<mapsto> th)\<rparr>)"
    using assms by (auto simp: tux_inv_def threads_ok_def)
  then show ?thesis using tux_inv_thr [of R w "ctxs w" "(threads w)(t \<mapsto> th)"] assms(1) by simp
qed

lemma tux_inv_del_thread:
  assumes "tux_inv R w"
  shows "tux_inv R (w\<lparr>threads := (threads w)(t := None)\<rparr>)"
proof -
  have "threads_ok R (w\<lparr>threads := (threads w)(t := None)\<rparr>)"
    using assms by (auto simp: tux_inv_def threads_ok_def)
  then show ?thesis using tux_inv_thr [of R w "ctxs w" "(threads w)(t := None)"] assms(1) by simp
qed

lemma tux_inv_no_null: "tux_inv R w \<Longrightarrow> NULL \<notin> R"
  by (auto simp: tux_inv_def proc_ready_def)

text \<open>The new thread belongs to the process of its creator; no other thread changes.\<close>

definition thread_made :: "('x, 'z) tuxw_scheme \<Rightarrow> ptr \<Rightarrow> ptr \<Rightarrow> ('x, 'z) tuxw_scheme \<Rightarrow> bool" where
  "thread_made w q t w' \<longleftrightarrow> (\<forall>u\<in>dom (threads w). threads w' u = threads w u) \<and>
     (t \<noteq> NULL \<longrightarrow> t \<notin> dom (threads w) \<and> (\<exists>th. threads w' t = Some th \<and> proc th = q))"

lemma procnewthread_spec:
  assumes inv: "tux_inv R w" and th: "threads w p = Some th" "proc th \<in> R"
  shows "wp only_assert (procnewthread P p) (\<lambda>t w'. tux_inv R w' \<and> thread_made w (proc th) t w') E w"
    (is "wp _ _ ?Q _ _")
proof -
  let ?n = "Suc (nextp w)" and ?blank = "\<lparr>p_ctx = NULL, stack = 0, ctid = 0, tid = 0, proc = NULL\<rparr>"
  let ?w1 = "w\<lparr>nextp := ?n, threads := (threads w)(?n \<mapsto> ?blank)\<rparr>"
  obtain pr where pr: "proc th \<noteq> NULL" "procs w (proc th) = Some pr" using tux_inv_proc [OF inv th(2)] by blast
  have a: "as_ready w (p_as pr)" using inv th(2) pr by (fastforce simp: tux_inv_def proc_ready_def)
  note live = thread_live [OF inv th]
  have fr: "?n \<notin> dom (threads w)" using fresh_thread [OF inv] by simp
  then have ne: "p \<noteq> ?n" using th(1) by auto
  have i0: "tux_inv R (w\<lparr>nextp := ?n\<rparr>)" by (rule tux_inv_nextp [OF inv])
  have i1: "tux_inv R ?w1"
    using tux_inv_new_thread [OF i0, of ?n ?blank] tux_inv_no_null [OF inv] by simp
  have tail: "wp only_assert (if ctx = NULL then
         bindM (modifyM (\<lambda>w. w\<lparr>threads := (threads w)(?n := None)\<rparr>)) (\<lambda>_. ret NULL)
       else
         bindM (set_thread ?n (\<lambda>n. n\<lparr>p_ctx := ctx, proc := proc th\<rparr>)) (\<lambda>_.
         bindM nexttid (\<lambda>i.
         bindM (set_thread ?n (\<lambda>n. n\<lparr>tid := i\<rparr>)) (\<lambda>_.
         bindM (lfi_ctx_regs (p_ctx th)) (\<lambda>r.
         bindM (set_ctx_regs ctx r) (\<lambda>_. ret ?n)))))) ?Q E v"
    if v: "tux_inv R v \<and> ctx_made ?w1 (p_as pr) ?n ctx v" for v ctx
  proof (cases "ctx = NULL")
    case True
    then show ?thesis
      using v tux_inv_del_thread [of R v ?n] fr by (auto simp: wp_rules thread_made_def ctx_made_def)
  next
    case False
    obtain c where c: "ctxs v = (ctxs w)(ctx \<mapsto> c)" "ctxp c = ?n" "ctx \<notin> dom (ctxs w)" "ctx_as c = p_as pr"
      using v False by (auto simp: ctx_made_def)
    have ts: "threads v = (threads w)(?n \<mapsto> ?blank)" using v by (simp add: ctx_made_def)
    have "procs v (proc th) = Some pr" using v pr by (simp add: ctx_made_def)
    then have av: "as_ready (v\<lparr>next_tid := j\<rparr>) (p_as pr)" for j
      using v th(2) by (fastforce simp: tux_inv_def proc_ready_def as_ready_def)
    have nv: "?n \<le> nextp v" using v ts by (auto simp: tux_inv_def threads_ok_def)
    let ?t = "\<lambda>i. \<lparr>p_ctx = ctx, stack = 0, ctid = 0, tid = i, proc = proc th\<rparr>"
    have i2: "tux_inv R (v\<lparr>next_tid := j, threads := (threads v)(?n \<mapsto> ?t i)\<rparr>)" for i j
      using v c False nv av tux_inv_new_thread [of R "v\<lparr>next_tid := j\<rparr>" ?n "?t i"] by simp
    have i3: "tux_inv R (v\<lparr>next_tid := j, threads := (threads v)(?n \<mapsto> ?t i), ctxs := (ctxs v)(ctx \<mapsto> c\<lparr>regs := r\<rparr>)\<rparr>)" for i j r
      using tux_inv_ctx_upd [of R "v\<lparr>next_tid := j, threads := (threads v)(?n \<mapsto> ?t i)\<rparr>" ctx c "c\<lparr>regs := r\<rparr>"] i2 [of _ j] c by simp
    obtain cp where "ctxs w (p_ctx th) = Some cp" using live by blast
    then show ?thesis
      using False ts c live i3 fr unfolding thread_made_def
      by (auto simp: set_thread_def nexttid_def lfi_ctx_regs_def set_ctx_regs_def wp_rules)
  qed
  have "wp only_assert (lfi_ctx_new P (p_as pr) ?n False) (\<lambda>ctx w'. tux_inv R w' \<and> ctx_made ?w1 (p_as pr) ?n ctx w') E ?w1"
    using a by (intro lfi_ctx_new_spec [OF i1]) (simp add: as_ready_def)
  note made = wp_bindI [OF this tail]
  show ?thesis
    using i0 th ne live pr made
    by (simp add: procnewthread_def thread_made_def [of _ _ NULL] wp_bind [of _ "malloc _"] wp_bind [of _ "deref _ _"] wp_bind [of _ "modifyM _"]
        wp_malloc wp_deref wp_ret wp_modify Let_def)
qed


lemma set_tid_address_keeps:
  assumes "tux_inv R w" "thread_of R w p"
  shows "wp only_assert (sys_set_tid_address p a) (\<lambda>_. tux_inv R) (tux_inv R) w"
  unfolding sys_set_tid_address_def
  by (rule wp_thread [OF assms], rule wp_user(3) [OF assms(1)])
    (use assms(1) in \<open>auto simp: set_thread_def wp_rules thread_live(1) intro!: tux_inv_thread\<close>)

text \<open>The state while a thread is set up.\<close>

definition starting :: "ptr set \<Rightarrow> ptr \<Rightarrow> ptr \<Rightarrow> ('x, 'z) tuxw_scheme \<Rightarrow> bool" where
  "starting R p2 x w \<longleftrightarrow> tux_inv R w \<and> (\<exists>u. threads w p2 = Some u \<and> proc u \<in> R \<and> p_ctx u = x)"

lemma starting_live:
  assumes "starting R p2 x w"
  shows "p2 \<noteq> NULL" "x \<noteq> NULL" "\<exists>c. ctxs w x = Some c"
  using assms thread_live [of R w p2] by (auto simp: starting_def)

lemma starting_tpset:
  assumes "starting R p2 x w"
  shows "wp only_assert (lfi_ctx_tpset x v) (\<lambda>_. starting R p2 x) E w"
  using starting_live [OF assms] assms tux_inv_ctx_upd [of R w x]
  by (auto simp: lfi_ctx_tpset_def wp_rules starting_def)

lemma starting_regs:
  assumes "starting R p2 x w"
  shows "wp only_assert (set_ctx_regs x r) (\<lambda>_. starting R p2 x) E w"
  using starting_live [OF assms] assms tux_inv_ctx_upd [of R w x]
  by (auto simp: set_ctx_regs_def wp_rules starting_def)

lemma starting_ctid:
  assumes "starting R p2 x w"
  shows "wp only_assert (set_thread p2 (\<lambda>n. n\<lparr>ctid := v\<rparr>)) (\<lambda>_. starting R p2 x) E w"
  using starting_live [OF assms] assms tux_inv_thread [of R w p2]
  by (auto simp: set_thread_def wp_rules starting_def)

lemma starting_store:
  assumes "starting R p2 x w"
  shows "wp only_assert (store_int a v) (\<lambda>_. starting R p2 x) E w"
  using assms by (auto simp: store_int_def write_mem_def wp_rules starting_def)

lemma starting_read:
  assumes "starting R p2 x w" "\<And>r. wp F (f r) Q E w"
  shows "wp F (bindM (lfi_ctx_regs x) f) Q E w"
  using starting_live [OF assms(1)] assms(2) by (auto simp: lfi_ctx_regs_def wp_rules)

lemma wp_when:
  assumes "J w" "b \<Longrightarrow> wp F m (\<lambda>_. J) E w" "\<And>v. J v \<Longrightarrow> wp F n Q E v"
  shows "wp F (bindM (if b then m else ret ()) (\<lambda>_. n)) Q E w"
  using assms by (auto intro!: wp_bindI [where R = "\<lambda>_. J"] simp: wp_ret)

lemma spawn_start_keeps:
  assumes inv: "tux_inv R w" and p2: "threads w p2 = Some th2" "proc th2 \<in> R" and q: "q \<in> R"
  shows "wp only_assert (spawn_start P q p2 flags stk ctidp ctidu ptidu tls) (\<lambda>_. tux_inv R) (tux_inv R) w"
proof -
  let ?J = "starting R p2 (p_ctx th2)"
  have J: "?J w" using assms by (auto simp: starting_def)
  have tux: "?J v \<Longrightarrow> tux_inv R v" for v by (simp add: starting_def)
  have end': "wp only_assert (bindM (kcall (k_pthread_create P p2)) (\<lambda>err. if err \<noteq> 0 then raise AssertFail
     else bindM (if b then store_int ptidu (tid th2) else ret ()) (\<lambda>_. ret (tid th2)))) (\<lambda>_. tux_inv R) (tux_inv R) v"
    if "?J v" for v b
    using that by (simp add: store_int_def write_mem_def wp_rules starting_def)
  show ?thesis
    unfolding spawn_start_def
    using J p2(1) starting_live(1) [OF J] q
    by (auto simp: wp_bind [of _ "deref threads p2"] wp_deref tux
        intro!: wp_when [where J = ?J] starting_tpset starting_ctid starting_store starting_read
          wp_user(3) [of R _ q] wp_bindI [OF starting_regs] end' split del: if_split)
qed

lemma clone_keeps:
  assumes inv: "tux_inv R w" and th: "thread_of R w p"
  shows "wp only_assert (sys_clone P p flags stk ptidp ctidp tls func) (\<lambda>_. tux_inv R) (tux_inv R) w"
proof -
  have "wp only_assert (if p2 = NULL then ret (- TUX_EAGAIN)
          else spawn_start P (proc t) p2 fl stk ctidp ctidu ptidu tls) (\<lambda>_. tux_inv R) (tux_inv R) v"
    if "tux_inv R v \<and> thread_made w (proc t) p2 v" "proc t \<in> R" for t p2 fl ctidu ptidu v
    using that by (auto simp: wp_ret thread_made_def intro!: spawn_start_keeps)
  note tail = wp_bindI [OF procnewthread_spec [OF inv] this]
  show ?thesis
    by (auto simp: sys_clone_def spawn_def wp_raise wp_ret inv split: sum.split
        intro!: wp_thread [OF inv th] wp_user(3) [OF inv] tail)
qed

lemma leave_ctx_never_returns:
  assumes "tux_inv R w" "thread_of R w p"
  shows "wp F (leave_ctx p code) (\<lambda>_ _. False) (tux_inv R) w"
proof -
  obtain th where th: "threads w p = Some th" "proc th \<in> R" using assms(2) by (auto simp: thread_of_def)
  obtain pr where pr: "proc th \<noteq> NULL" "procs w (proc th) = Some pr" using tux_inv_proc [OF assms(1) th(2)] by blast
  show ?thesis
    using th pr thread_live [OF assms(1) th] tux_inv_tux [OF assms(1) th(2) pr(2)] assms(1)
    by (auto simp: leave_ctx_def lfi_ctx_pause_def lfi_ctx_exit_def wp_rules)
qed

lemma clearctid_keeps:
  assumes "tux_inv R w" "thread_of R w p"
  shows "wp only_assert (clearctid P p) (\<lambda>_ v. tux_inv R v \<and> thread_of R v p) (tux_inv R) w"
proof -
  have f: "wp only_assert (bindM (sys_futex P p ua op v 0 ua2 v3) (\<lambda>_. ret ())) (\<lambda>_ v. tux_inv R v \<and> thread_of R v p) (tux_inv R) u"
    if "tux_inv R u" "thread_of R u p" for u ua op v ua2 v3
    by (rule wp_bindI [OF futex_spec [OF that]]) (use that in \<open>auto simp: wp_ret only_ext_def\<close>)
  show ?thesis
    unfolding clearctid_def
    by (rule wp_thread [OF assms], rule wp_when [where J = "\<lambda>v. tux_inv R v \<and> thread_of R v p"])
      (use assms in \<open>auto intro!: wp_user(3) [OF assms(1)] f simp: store_int_def write_mem_def wp_modify\<close>)
qed

text \<open>\<^verbatim>\<open>exit\<close> never comes back to the caller.\<close>

lemma exit_keeps:
  assumes "tux_inv R w" "thread_of R w p"
  shows "wp only_assert (sys_exit P p code) (\<lambda>_ _. False) (tux_inv R) w"
  unfolding sys_exit_def
  by (rule wp_bindI [OF clearctid_keeps [OF assms]]) (auto intro: leave_ctx_never_returns)

section \<open>The remaining calls\<close>

lemma wp_buf:
  assumes "tux_inv R w" "p \<in> R" "\<And>b. Q b w"
  shows "wp F (procbuf p bufp n) Q E w" and "wp F (procbufalign p bufp n al) Q E w"
  using user_memory(1,2) [OF assms(1,2)] assms(3) by (metis wp_def outcome.case(1))+

lemma clock_gettime_keeps:
  assumes "tux_inv R w" "p \<in> R"
  shows "wp only_assert (sys_clock_gettime P p c a) (\<lambda>_. tux_inv R) (tux_inv R) w"
  using assms by (auto simp: sys_clock_gettime_def write_u64_def write_mem_def wp_rules intro!: wp_buf)

lemma time_keeps: "tux_inv R w \<Longrightarrow> wp only_assert (sys_time P p a) (\<lambda>_. tux_inv R) (tux_inv R) w"
  by (simp add: sys_time_def host_time_def ret_defs wp_rules)

lemma uname_keeps:
  assumes "tux_inv R w" "p \<in> R"
  shows "wp only_assert (sys_uname P p a) (\<lambda>_. tux_inv R) (tux_inv R) w"
  using assms by (auto simp: sys_uname_def write_mem_def wp_rules intro!: wp_buf)

lemma sysinfo_keeps:
  assumes "tux_inv R w" "p \<in> R"
  shows "wp only_assert (sys_sysinfo P p a) (\<lambda>_. tux_inv R) (tux_inv R) w"
  using assms by (auto simp: sys_sysinfo_def host_sysinfo_def ret_defs wp_rules intro!: wp_buf)

lemma ioctl_keeps:
  assumes "tux_inv R w" "p \<in> R"
  shows "wp only_assert (sys_ioctl P p fd rq a) (\<lambda>_. tux_inv R) (tux_inv R) w"
  using assms by (auto simp: sys_ioctl_def write_u16_def write_mem_def wp_rules Let_def intro!: wp_buf)

lemma prctl_keeps:
  assumes "tux_inv R w" "p \<in> R"
  shows "wp only_assert (sys_prctl P p op a) (\<lambda>_. tux_inv R) (tux_inv R) w"
  using assms by (auto simp: sys_prctl_def pr_set_name_def host_prctl_set_name_def ret_defs wp_rules intro!: wp_buf)

lemma getrandom_keeps:
  assumes "tux_inv R w" "p \<in> R"
  shows "wp only_assert (sys_getrandom P p a n fl) (\<lambda>_. tux_inv R) (tux_inv R) w"
  using assms by (auto simp: sys_getrandom_def host_getrandom_def ret_defs wp_rules intro!: wp_buf)

end
