(* ===== verification/Tux_ProcInv.thy ===== *)
theory Tux_ProcInv
  imports Tux_ProcProps Tux_FDSpec Tux_SysThreadInv
begin

text \<open>
  Creating an instance of the library and a process establishes the invariant of
  the runtime.
\<close>

section \<open>Programs that keep a property\<close>

text \<open>Loading a program may fail an assertion, read past its image or divide by a page size of 0; nothing else.\<close>

abbreviation boot_fault :: "fault \<Rightarrow> bool" where
  "boot_fault \<equiv> \<lambda>e. e = AssertFail \<or> e = OutOfBounds \<or> e = DivByZero"

definition keepsI :: "('s \<Rightarrow> bool) \<Rightarrow> ('s, 'a) prog \<Rightarrow> bool" where
  "keepsI I m \<longleftrightarrow> (\<forall>w. I w \<longrightarrow> wp boot_fault m (\<lambda>_. I) (\<lambda>_. False) w)"

lemma keepsD: "keepsI I m \<Longrightarrow> I w \<Longrightarrow> wp boot_fault m (\<lambda>_. I) (\<lambda>_. False) w"
  by (simp add: keepsI_def)

lemma keeps_ret [keep_rules]: "keepsI I (ret x)"
  and keeps_gets [keep_rules]: "keepsI I (gets f)"
  and keeps_assert [keep_rules]: "keepsI I (assertM b)"
  and keeps_raise_assert [keep_rules]: "keepsI I (raise AssertFail)"
  and keeps_raise_bounds [keep_rules]: "keepsI I (raise OutOfBounds)"
  and keeps_raise_div [keep_rules]: "keepsI I (raise DivByZero)"
  by (simp_all add: keepsI_def wp_rules)

lemma keeps_bind [keep_rules]:
  assumes "keepsI I m" "\<And>x. keepsI I (f x)"
  shows "keepsI I (bindM m f)"
  unfolding keepsI_def using assms by (blast intro: wp_bindI keepsD)

lemma keeps_if [keep_rules]: "(b \<Longrightarrow> keepsI I m) \<Longrightarrow> (\<not> b \<Longrightarrow> keepsI I n) \<Longrightarrow> keepsI I (if b then m else n)"
  by simp

lemma keeps_option [keep_rules]:
  "keepsI I m \<Longrightarrow> (\<And>y. keepsI I (f y)) \<Longrightarrow> keepsI I (case x of None \<Rightarrow> m | Some y \<Rightarrow> f y)"
  by (cases x) simp_all

lemma keeps_prod [keep_rules]: "(\<And>a b. keepsI I (f a b)) \<Longrightarrow> keepsI I (case x of (a, b) \<Rightarrow> f a b)"
  by (cases x) simp

lemma keeps_forM [keep_rules]: "(\<And>x. keepsI I (f x)) \<Longrightarrow> keepsI I (forM xs f)"
  by (induction xs) (auto intro: keep_rules)

lemma keeps_deref:
  "(\<And>w. I w \<Longrightarrow> a \<noteq> NULL \<and> (\<exists>v. sel w a = Some v \<and> G v)) \<Longrightarrow> (\<And>v. G v \<Longrightarrow> keepsI I (f v)) \<Longrightarrow>
   keepsI I (bindM (deref sel a) f)"
  by (fastforce simp: keepsI_def wp_bind wp_deref)

lemma keeps_deref_any:
  "(\<And>w. I w \<Longrightarrow> a \<noteq> NULL \<and> a \<in> dom (sel w)) \<Longrightarrow> keepsI I (deref sel a)"
  by (fastforce simp: keepsI_def wp_deref)

lemma keeps_bufread [keep_rules]: "data buf \<noteq> None \<Longrightarrow> keepsI I (bufread buf n off)"
  by (auto simp: bufread_def Let_def keeps_ret keeps_raise_bounds)

lemma keeps_cstring [keep_rules]: "keepsI I (as_cstring bs)"
  by (auto simp: as_cstring_def intro!: keep_rules)

text \<open>
  A property of the state that does not depend on memory or the world outside and is
  kept by allocation: host calls keep it.
\<close>

locale calm_view =
  fixes I :: "('x, 'z) tuxw_scheme \<Rightarrow> bool"
  assumes I_upd [simp]: "I (w\<lparr>ext := x\<rparr>) = I w" "I (w\<lparr>mem := m\<rparr>) = I w"
    and I_nextp: "I w \<Longrightarrow> I (w\<lparr>nextp := Suc (nextp w)\<rparr>)"
begin

lemma keeps_kcall [keep_rules]: "keepsI I (kcall f)"
  and keeps_malloc [keep_rules]: "keepsI I (malloc K)"
  and keeps_write_mem [keep_rules]: "keepsI I (write_mem b bs)"
  and keeps_write_u64 [keep_rules]: "keepsI I (write_u64 b v)"
  and keeps_fill [keep_rules]: "keepsI I (modifyM (\<lambda>w. w\<lparr>mem := fill_range (mem w) p len c\<rparr>))"
  by (simp_all add: keepsI_def wp_kcall wp_malloc write_mem_def write_u64_def wp_modify Let_def I_nextp)

lemma keeps_host [keep_rules]:
  "keepsI I (return_tuxerr K)" "keepsI I (return_count K r)" "keepsI I (seekwhence c)"
  "keepsI I (host_mmap K b n pt fl NULL off)" "keepsI I (host_mprotect K b n pt)"
  by (auto simp: return_tuxerr_def return_count_def seekwhence_def host_mmap_def host_mprotect_def intro!: keep_rules)

end

text \<open>When the address space \<open>as\<close> is live too, loading a program into it keeps the property.\<close>

locale boot_view = calm_view I for I :: "('x, 'z) tuxw_scheme \<Rightarrow> bool" +
  fixes as :: ptr
  assumes I_as: "I w \<Longrightarrow> as \<noteq> NULL \<and> as \<in> dom (aspaces w)"
begin

lemma keeps_aspace [keep_rules]: "keepsI I (deref aspaces as)"
  by (rule keeps_deref_any) (rule I_as)

lemma keeps_mapping [keep_rules]:
  "keepsI I (cbunmap P rng)" "keepsI I (asmap P a n pt fl NULL off)" "keepsI I (lfi_as_info as)" "keepsI I (lfi_as_toptr as a)"
  by (auto simp: cbunmap_def asmap_def lfi_as_info_def lfi_as_toptr_def intro!: keep_rules)

lemma keeps_mapat [keep_rules]: "keepsI I (lfi_as_mapat P as a n pt fl NULL off)"
  by (auto simp: lfi_as_mapat_def intro!: keep_rules)

lemma keeps_mprotect [keep_rules]: "keepsI I (lfi_as_mprotect P as a n pt)"
  by (auto simp: lfi_as_mprotect_def intro!: keep_rules)

lemma keeps_segment [keep_rules]: "data buf \<noteq> None \<Longrightarrow> keepsI I (load_segment P as info ehdr eb buf pgsz p st)"
  unfolding load_segment_def Let_def bufreadelfseg_def no_sanitize
  by (intro keep_rules; simp)

lemma keeps_load_loop [keep_rules]: "data buf \<noteq> None \<Longrightarrow> keepsI I (load_loop P as info ehdr eb buf pgsz ps st)"
  by (induction ps arbitrary: st) (auto intro!: keep_rules)

lemma keeps_load [keep_rules]: "data buf \<noteq> None \<Longrightarrow> keepsI I (load P as buf base pgsz)"
  unfolding load_def Let_def by (intro keep_rules; simp)

lemma keeps_loadelf [keep_rules]: "data prog \<noteq> None \<Longrightarrow> keepsI I (lfi_proc_loadelf P as prog interp lo)"
  unfolding lfi_proc_loadelf_def Let_def perf_output_jit_interface_file_def by (intro keep_rules; simp)

lemma keeps_interp [keep_rules]: "data prog \<noteq> None \<Longrightarrow> keepsI I (elfinterp P prog)"
proof -
  assume d: "data prog \<noteq> None"
  then have "keepsI I (find_interp P prog phs)" for phs
    by (induction phs) (auto intro!: keep_rules)
  then show ?thesis unfolding elfinterp_def Let_def using d by (intro keep_rules)
qed

lemma keeps_argv [keep_rules]:
  "keepsI I (argv_strings tos i ss a)" "keepsI I (argv_pointers as tos pp i xs)"
proof -
  show "keepsI I (argv_strings tos i ss a)"
  proof (induction ss arbitrary: i a)
    case Nil
    show ?case by (auto intro!: keep_rules)
  next
    case (Cons s ss)
    then show ?case by (auto simp: Let_def intro!: keep_rules)
  qed
  show "keepsI I (argv_pointers as tos pp i xs)"
  proof (induction xs arbitrary: i)
    case Nil
    show ?case by (auto intro!: keep_rules)
  next
    case (Cons x xs)
    then show ?case by (auto intro!: keep_rules)
  qed
qed

end


section \<open>Reading a file\<close>

text \<open>
  \<^verbatim>\<open>bufreadfile\<close> opens a file, maps it and closes it again.  It keeps the invariant and
  every property \<open>J\<close> that is not about memory, host files or the world outside, as
  long as the instance \<open>tux\<close> is live.
\<close>

lemma unowned_upd [simp]:
  "unowned (w\<lparr>ext := x\<rparr>) h = unowned w h" "unowned (w\<lparr>mem := m\<rparr>) h = unowned w h" "unowned (w\<lparr>nextp := k\<rparr>) h = unowned w h"
proof -
  have "host_of (w\<lparr>ext := x\<rparr>) = host_of w" "host_of (w\<lparr>mem := m\<rparr>) = host_of w" "host_of (w\<lparr>nextp := k\<rparr>) = host_of w"
    by (rule host_of_frame; simp)+
  moreover have "cwd_hosts (w\<lparr>ext := x\<rparr>) = cwd_hosts w" "cwd_hosts (w\<lparr>mem := m\<rparr>) = cwd_hosts w" "cwd_hosts (w\<lparr>nextp := k\<rparr>) = cwd_hosts w"
    by (rule cwd_hosts_frame; simp)+
  ultimately show "unowned (w\<lparr>ext := x\<rparr>) h = unowned w h" "unowned (w\<lparr>mem := m\<rparr>) h = unowned w h"
    "unowned (w\<lparr>nextp := k\<rparr>) h = unowned w h" by (simp_all add: unowned_def)
qed

definition with_inv :: "ptr set \<Rightarrow> (('x, 'z) tuxw_scheme \<Rightarrow> bool) \<Rightarrow> ('x, 'z) tuxw_scheme \<Rightarrow> bool" where
  "with_inv S J w \<longleftrightarrow> tux_inv S w \<and> J w"

lemma tux_inv_close:
  assumes inv: "tux_inv R w" and h: "unowned w h"
  shows "tux_inv R (w\<lparr>hostfiles := (hostfiles w)(h := None)\<rparr>)" (is "tux_inv R ?w")
proof (rule tux_inv_objs [OF inv])
  have e: "host_of ?w = host_of w" by (rule host_of_frame) simp_all
  then show "host_of ?w f = host_of w f" for f by simp
  have "host_of w f \<noteq> h" if "fdfiles w f = Some v" for f v using h that by (auto simp: unowned_def)
  then show "objs_ok (refcount w) (pinned w) (cwd_hosts w) ?w"
    using tux_inv_objsD [OF inv] h unfolding objs_ok_def e unowned_def by (elim conjE) (intro conjI; auto)
qed simp_all

locale file_reader =
  fixes S :: "ptr set" and J :: "('x, 'z) tuxw_scheme \<Rightarrow> bool" and tux :: ptr and t :: Tux
  assumes J_upd [simp]: "J (w\<lparr>ext := x\<rparr>) = J w" "J (w\<lparr>mem := m\<rparr>) = J w" "J (w\<lparr>hostfiles := hs\<rparr>) = J w"
    and J_nextp: "J w \<Longrightarrow> J (w\<lparr>nextp := Suc (nextp w)\<rparr>)"
    and J_tux: "tux_inv S w \<Longrightarrow> J w \<Longrightarrow> tux \<noteq> NULL \<and> tuxes w tux = Some t"
begin

lemma calm_held: "calm_view (\<lambda>w. with_inv S J w \<and> unowned w h)"
  by unfold_locales (auto simp: with_inv_def J_nextp tux_inv_nextp)

lemma held_close:
  assumes "with_inv S J w" "unowned w h"
  shows "wp boot_fault (host_close P h) (\<lambda>_. with_inv S J) (\<lambda>_. False) w"
proof -
  obtain hf where "h \<noteq> NULL" "hostfiles w h = Some hf" "h \<notin> {host_stdin, host_stdout, host_stderr}"
    using assms(2) by (auto simp: unowned_def std_hosts_def)
  moreover have "tux_inv S (w\<lparr>ext := x, hostfiles := (hostfiles w)(h := None)\<rparr>)" for x
    using tux_inv_close [of S "w\<lparr>ext := x\<rparr>" h] assms by (simp add: with_inv_def)
  ultimately show ?thesis
    using assms(1) by (auto simp: host_close_def set_hostfile_def free_hostfile_def return_tuxerr_def wp_rules with_inv_def)
qed

lemma held_file:
  "keepsI (\<lambda>w. with_inv S J w \<and> unowned w h) (host_seek P h n c)"
  "keepsI (\<lambda>w. with_inv S J w \<and> unowned w h) (host_mmap P a n' pt fl h off)"
proof -
  let ?I = "\<lambda>w. with_inv S J w \<and> unowned w h"
  have d: "keepsI ?I (deref hostfiles h)" by (rule keeps_deref_any) (simp add: unowned_def)
  note calm = calm_view.keeps_kcall [OF calm_held] calm_view.keeps_fill [OF calm_held] calm_view.keeps_host [OF calm_held]
  show "keepsI ?I (host_seek P h n c)" "keepsI ?I (host_mmap P a n' pt fl h off)"
    by (auto simp: host_seek_def host_mmap_def intro!: keep_rules calm d)
qed

lemma openat_held:
  assumes "with_inv S J w"
  shows "wp F (host_openat P NULL fname fl md) (\<lambda>h w'. with_inv S J w' \<and> (h \<noteq> NULL \<longrightarrow> unowned w' h)) (\<lambda>_. False) w"
proof -
  have j: "wp any_fault (host_openat P NULL fname fl md) (\<lambda>_. J) (\<lambda>_. True) w"
    using assms by (auto simp: host_openat_def fd_or_cwd_def set_hostfile_def wp_rules with_inv_def Let_def J_nextp split: option.splits)
  show ?thesis
    by (rule wp_mono [OF wp_with [OF host_openat_spec [of S w NULL] j]]) (use assms in \<open>auto simp: with_inv_def\<close>)
qed

lemma fs_open_held:
  assumes fs: "fs_open_safe P" and w: "with_inv S J w"
  shows "wp F (opts_fs_open P fname fl md) (\<lambda>h w'. with_inv S J w' \<and> (h \<noteq> NULL \<longrightarrow> unowned w' h)) (\<lambda>_. False) w"
proof -
  have "J (w\<lparr>ext := x, nextp := Suc (nextp w)\<rparr>)" for x using w J_nextp [of "w\<lparr>ext := x\<rparr>"] by (simp add: with_inv_def)
  then have j: "wp any_fault (opts_fs_open P fname fl md) (\<lambda>_. J) (\<lambda>_. True) w"
    using w by (auto simp: opts_fs_open_def lfi_host_fdopen_def host_fdopen_def set_hostfile_def wp_rules with_inv_def Let_def
        split: option.splits)
  show ?thesis
    by (rule wp_mono [OF wp_with [OF opts_fs_open_spec [OF fs, of S w] j]]) (use w in \<open>auto simp: with_inv_def\<close>)
qed

lemma keeps_bufreadfile:
  assumes fs: "fs_open_safe P"
  shows "keepsI (with_inv S J) (bufreadfile P tux fname)"
proof -
  let ?B = "with_inv S J" and ?O = "\<lambda>h w. with_inv S J w \<and> (h \<noteq> NULL \<longrightarrow> unowned w h)"
  let ?tail = "\<lambda>f. bindM (host_seek P f 0 TUX_SEEK_END) (\<lambda>n.
       if n < 0 then bindM (host_close P f) (\<lambda>_. ret no_buf)
       else
         bindM (host_seek P f 0 TUX_SEEK_SET) (\<lambda>_.
         bindM (host_mmap P 0 (word_of_int n) LFI_PROT_READ LFI_MAP_PRIVATE f 0) (\<lambda>a.
         if a = - 1 then bindM (host_close P f) (\<lambda>_. ret no_buf)
         else
           bindM (host_close P f) (\<lambda>_.
           bindM (gets mem) (\<lambda>m.
           ret \<lparr>data = Some (load_bytes m a (unat (word_of_int n :: u64))), size_of = word_of_int n\<rparr>)))))"
  have close: "wp boot_fault (bindM (host_close P f) (\<lambda>_. m)) (\<lambda>_. ?B) (\<lambda>_. False) w"
    if "?B w \<and> unowned w f" "keepsI ?B m" for f w and m :: "(_, buf_t) prog"
    by (rule wp_bindI [OF held_close]) (use that in \<open>auto intro: keepsD\<close>)
  have tail: "wp boot_fault (?tail f) (\<lambda>_. ?B) (\<lambda>_. False) w" if "?B w \<and> unowned w f" for f w
    using that by (auto intro!: wp_bindI [OF keepsD [OF held_file(1)]] wp_bindI [OF keepsD [OF held_file(2)]] close keep_rules)
  have again: "wp boot_fault (if f0 = NULL then host_openat P NULL fname TUX_O_RDONLY 0 else ret f0) ?O (\<lambda>_. False) w" if "?O f0 w" for f0 w
    using that openat_held by (auto simp: wp_ret)
  have rest: "wp boot_fault (if f = NULL then ret no_buf else ?tail f) (\<lambda>_. ?B) (\<lambda>_. False) w" if "?O f w" for f w
    using that tail by (cases "f = NULL") (auto simp: wp_ret)
  have first: "wp boot_fault (if opt_fs (t_opts t) then opts_fs_open P fname TUX_O_RDONLY 0 else ret NULL) ?O (\<lambda>_. False) w" if "?B w" for w
    using that fs_open_held [OF fs] by (auto simp: wp_ret)
  have all: "keepsI ?B (bindM (if opt_fs (t_opts t) then opts_fs_open P fname TUX_O_RDONLY 0 else ret NULL) (\<lambda>f0.
     bindM (if f0 = NULL then host_openat P NULL fname TUX_O_RDONLY 0 else ret f0) (\<lambda>f.
     if f = NULL then ret no_buf else ?tail f)))"
    unfolding keepsI_def by (intro allI impI wp_bindI [OF first wp_bindI [OF again rest]])
  show ?thesis
    unfolding bufreadfile_def
  proof (rule keeps_deref [where G = "\<lambda>v. v = t"])
    show "\<And>w. ?B w \<Longrightarrow> tux \<noteq> NULL \<and> (\<exists>v. tuxes w tux = Some v \<and> v = t)" using J_tux by (auto simp: with_inv_def)
  qed (use all in simp)
qed

end

section \<open>A process that is being set up\<close>

definition no_files :: FDTable where
  "no_files = \<lparr>ft_files = replicate TUX_NOFILE NULL\<rparr>"

text \<open>
  Process \<open>q\<close> with its first thread \<open>p\<close>, context \<open>ctx\<close> and address space \<open>as\<close>, on the
  instance \<open>tux\<close>, before its descriptors are opened.
\<close>

definition booting :: "ptr set \<Rightarrow> ptr \<Rightarrow> ptr \<Rightarrow> ptr \<Rightarrow> ptr \<Rightarrow> ptr \<Rightarrow> Tux \<Rightarrow> ('x, 'z) tuxw_scheme \<Rightarrow> bool" where
  "booting R p q ctx as tux t w \<longleftrightarrow> tux_inv (insert q R) w \<and>
     map_option (\<lambda>th. (proc th, p_ctx th)) (threads w p) = Some (q, ctx) \<and>
     map_option (\<lambda>pr. (p_as pr, p_tux pr, fdtable pr, cwd pr)) (procs w q) = Some (as, tux, no_files, no_dir) \<and>
     tuxes w tux = Some t"

lemma booting_inv: "booting R p q ctx as tux t w \<Longrightarrow> tux_inv (insert q R) w"
  by (simp add: booting_def)

lemma booting_thread:
  "booting R p q ctx as tux t w \<Longrightarrow> p \<noteq> NULL \<and> (\<exists>th. threads w p = Some th \<and> proc th = q \<and> p_ctx th = ctx)"
  using thread_live(1) [of "insert q R" w p] by (auto simp: booting_def)

lemma booting_proc:
  "booting R p q ctx as tux t w \<Longrightarrow> q \<noteq> NULL \<and> (\<exists>pr. procs w q = Some pr \<and> p_as pr = as \<and> p_tux pr = tux)"
  using tux_inv_proc [of "insert q R" w q] by (auto simp: booting_def)

lemma booting_tux: "booting R p q ctx as tux t w \<Longrightarrow> tux \<noteq> NULL \<and> tuxes w tux = Some t"
  using tux_inv_tux [of "insert q R" w q] by (auto simp: booting_def)

lemma booting_as: "booting R p q ctx as tux t w \<Longrightarrow> as \<noteq> NULL \<and> as \<in> dom (aspaces w)"
  using tux_inv_as [of "insert q R" w q] by (auto simp: booting_def)

lemma booting_ctx: "booting R p q ctx as tux t w \<Longrightarrow> ctx \<noteq> NULL \<and> (\<exists>c. ctxs w ctx = Some c)"
  using thread_live [of "insert q R" w p] by (auto simp: booting_def)

lemma booting_upd [simp]:
  "booting R p q ctx as tux t (w\<lparr>ext := x\<rparr>) = booting R p q ctx as tux t w"
  "booting R p q ctx as tux t (w\<lparr>mem := m\<rparr>) = booting R p q ctx as tux t w"
  by (simp_all add: booting_def)

lemma booting_nextp: "booting R p q ctx as tux t w \<Longrightarrow> booting R p q ctx as tux t (w\<lparr>nextp := Suc (nextp w)\<rparr>)"
  by (simp add: booting_def tux_inv_nextp)

interpretation boot: boot_view "booting R p q ctx as tux t" as for R p q ctx as tux t
  by unfold_locales (simp, simp, erule booting_nextp, erule booting_as)

text \<open>The interpreter is read while the process is set up.\<close>

lemma booting_with: "booting R p q ctx as tux t = with_inv (insert q R) (\<lambda>w.
     map_option (\<lambda>th. (proc th, p_ctx th)) (threads w p) = Some (q, ctx) \<and>
     map_option (\<lambda>pr. (p_as pr, p_tux pr, fdtable pr, cwd pr)) (procs w q) = Some (as, tux, no_files, no_dir) \<and>
     tuxes w tux = Some t)"
  by (intro ext) (simp add: booting_def with_inv_def)

interpretation bootread: file_reader "insert q R" "\<lambda>w.
     map_option (\<lambda>th. (proc th, p_ctx th)) (threads w p) = Some (q, ctx) \<and>
     map_option (\<lambda>pr. (p_as pr, p_tux pr, fdtable pr, cwd pr)) (procs w q) = Some (as, tux, no_files, no_dir) \<and>
     tuxes w tux = Some t" tux t for R p q ctx as tux t
  by unfold_locales (simp_all, use tux_inv_tux [of "insert q R" for q R] in fastforce)

lemmas booting_bufreadfile [keep_rules] = bootread.keeps_bufreadfile [folded booting_with]

lemma booting_regs [keep_rules]: "keepsI (booting R p q ctx as tux t) (set_ctx_regs ctx r)"
  unfolding keepsI_def
  using booting_ctx tux_inv_ctx_upd [of "insert q R"]
  by (fastforce simp: set_ctx_regs_def wp_rules booting_def)

lemma booting_brk [keep_rules]: "keepsI (booting R p q ctx as tux t) (set_proc q (\<lambda>pr. pr\<lparr>brkbase := b, brksize := n\<rparr>))"
  unfolding keepsI_def
proof (intro allI impI)
  fix w :: "('x, 'z) tuxw_scheme" assume B: "booting R p q ctx as tux t w"
  then obtain pr where pr: "q \<noteq> NULL" "procs w q = Some pr" using booting_proc by blast
  have "tux_inv (insert q R) (w\<lparr>procs := (procs w)(q \<mapsto> pr\<lparr>brkbase := b, brksize := n\<rparr>)\<rparr>)"
    by (rule tux_inv_proc_upd [OF booting_inv [OF B] pr(2)]) simp_all
  then show "wp boot_fault (set_proc q (\<lambda>pr. pr\<lparr>brkbase := b, brksize := n\<rparr>)) (\<lambda>_. booting R p q ctx as tux t) (\<lambda>_. False) w"
    using B pr by (auto simp: set_proc_def wp_rules booting_def)
qed

lemma booting_derefs:
  fixes f :: "_ \<Rightarrow> (('x, 'z) tuxw_scheme, 'a) prog" and R p q ctx as tux t
  defines "B \<equiv> booting R p q ctx as tux t :: ('x, 'z) tuxw_scheme \<Rightarrow> bool"
  shows "(\<And>th. proc th = q \<Longrightarrow> p_ctx th = ctx \<Longrightarrow> keepsI B (f th)) \<Longrightarrow> keepsI B (bindM (deref threads p) f)"
    and "(\<And>pr. p_as pr = as \<Longrightarrow> p_tux pr = tux \<Longrightarrow> keepsI B (g pr)) \<Longrightarrow> keepsI B (bindM (deref procs q) g)"
    and "keepsI B (deref tuxes tux)" "keepsI B (lfi_ctx_regs ctx)"
proof -
  show "(\<And>th. proc th = q \<Longrightarrow> p_ctx th = ctx \<Longrightarrow> keepsI B (f th)) \<Longrightarrow> keepsI B (bindM (deref threads p) f)"
    by (rule keeps_deref [where G = "\<lambda>th. proc th = q \<and> p_ctx th = ctx"]) (use booting_thread B_def in \<open>blast+\<close>)
  show "(\<And>pr. p_as pr = as \<Longrightarrow> p_tux pr = tux \<Longrightarrow> keepsI B (g pr)) \<Longrightarrow> keepsI B (bindM (deref procs q) g)"
    by (rule keeps_deref [where G = "\<lambda>pr. p_as pr = as \<and> p_tux pr = tux"]) (use booting_proc B_def in \<open>blast+\<close>)
  show "keepsI B (deref tuxes tux)" by (rule keeps_deref_any) (use booting_tux B_def in \<open>blast+\<close>)
  show "keepsI B (lfi_ctx_regs ctx)"
    unfolding lfi_ctx_regs_def by (intro keeps_bind keeps_ret keeps_deref_any) (use booting_ctx B_def in \<open>blast+\<close>)
qed

lemma keeps_elfload [keep_rules]:
  "data prog \<noteq> None \<Longrightarrow> keepsI (booting R p q ctx as tux t) (elfload P p prog interp)"
  unfolding elfload_def by ((rule booting_derefs(1,2), simp only:) | rule keep_rules booting_derefs(3,4) | assumption)+

lemma keeps_stacksetup [keep_rules]:
  "keepsI (booting R p q ctx as tux t) (stacksetup q argv info)"
  unfolding stacksetup_def Let_def by ((rule booting_derefs(1,2), simp only:) | rule keep_rules booting_derefs(3,4) | assumption)+

lemma keeps_procsetup [keep_rules]:
  "data prog \<noteq> None \<Longrightarrow> keepsI (booting R p q ctx as tux t) (procsetup P p prog interp argv)"
  unfolding procsetup_def Let_def by ((rule booting_derefs(1,2), simp only:) | rule keep_rules booting_derefs(3,4) | assumption)+

lemma keeps_procfile:
  "data prog \<noteq> None \<Longrightarrow> fs_open_safe P \<Longrightarrow> keepsI (booting R p q ctx as tux t) (procfile P p prog argv)"
  unfolding procfile_def by ((rule booting_derefs(1,2), simp only:) | rule keep_rules booting_derefs(3,4) | assumption)+


section \<open>New objects\<close>

lemma refcount_new_proc:
  assumes "finite (dom (procs w))" "q \<notin> dom (procs w)"
  shows "refcount (w\<lparr>procs := (procs w)(q \<mapsto> pr)\<rparr>) f = refcount w f + proc_refs pr f"
proof -
  have "(\<Sum>x\<in>dom (procs w). proc_refs (the (((procs w)(q \<mapsto> pr)) x)) f) = (\<Sum>x\<in>dom (procs w). proc_refs (the (procs w x)) f)"
    using assms(2) by (intro sum.cong) auto
  then show ?thesis using assms by (simp add: refcount_def)
qed

lemma tux_inv_new_proc:
  assumes inv: "tux_inv R w" and q: "q \<notin> dom (procs w)" and room: "card (dom (procs w)) < 2 ^ 32"
    and pr: "fdtable pr = no_files" "cwd pr = no_dir"
  shows "tux_inv R (w\<lparr>procs := (procs w)(q \<mapsto> pr)\<rparr>)" (is "tux_inv R ?w")
proof -
  have po: "procs_ok w" and ok: "objs_ok (refcount w) (pinned w) (cwd_hosts w) w" using inv by (simp_all add: tux_inv_def fd_inv_def)
  have e: "host_of ?w = host_of w" by (rule host_of_frame) simp_all
  have c: "cwds ?w = (cwds w)(q \<mapsto> no_dir)" using pr by (intro ext) (simp add: cwds_def)
  have cq: "cwds w q = None" using q by (auto simp: cwds_def)
  have H: "cwd_hosts ?w = cwd_hosts w" using cq by (auto simp: cwd_hosts_owned c owned_def split: if_splits)
  have rc: "refcount ?w f = refcount w f" if "f \<noteq> NULL" for f
    using refcount_new_proc [of w q pr f] po q that pr by (simp add: procs_ok_def proc_refs_def no_files_def count_list_0_iff)
  have "objs_ok (refcount ?w) (pinned ?w) (cwd_hosts ?w) ?w"
    unfolding H pinned_frame [of ?w w, simplified] using ok by (subst objs_ok_cong [OF rc]) (simp_all add: objs_ok_frame [of ?w w])
  moreover have "procs_ok ?w"
  proof -
    have len: "length (ft_files (fdtable r)) = TUX_NOFILE" if "procs ?w x = Some r" for x r
      using that po pr by (cases "x = q") (simp_all add: procs_ok_def no_files_def)
    have cw: "dir_file d = host_of w (dir_fd d)" if "cwds ?w x = Some d" "dir_fd d \<noteq> NULL" for x d
      using that po unfolding c procs_ok_def by (cases "x = q") auto
    have one: "dir_file d = NULL \<or> x = y" if "cwds ?w x = Some d" "cwds ?w y = Some d'" "dir_fd d = NULL" "dir_fd d' = NULL"
      "dir_file d = dir_file d'" for x y d d'
      using that po unfolding c procs_ok_def by (cases "x = q"; cases "y = q") auto
    have fin: "finite (dom (procs ?w))" "card (dom (procs ?w)) \<le> 2 ^ 32"
      using po room q by (simp_all add: procs_ok_def)
    have tx: "tuxes ?w = tuxes w" by simp
    have "finite (dom (tuxes w))" "card (dom (tuxes w)) \<le> 2 ^ 32" using po by (simp_all add: procs_ok_def)
    then show ?thesis
      unfolding procs_ok_def e tx
      by (intro conjI allI impI) (assumption | rule fin | erule len | erule (1) cw | erule (4) one)+
  qed
  moreover have "proc_ready ?w r" if "r \<in> R" for r
  proof -
    have "proc_ready w r" using inv that by (simp add: tux_inv_def)
    moreover have "as_ready ?w = as_ready w" by (intro ext) (simp add: as_ready_def)
    ultimately show ?thesis using q by (cases "r = q") (auto simp: proc_ready_def)
  qed
  ultimately show ?thesis using inv by (simp add: tux_inv_def fd_inv_def)
qed

lemma tux_inv_new_aspace:
  assumes inv: "tux_inv R w" and as: "as \<notin> dom (aspaces w)"
  shows "tux_inv R (w\<lparr>aspaces := (aspaces w)(as \<mapsto> a)\<rparr>)" (is "tux_inv R ?w")
proof -
  have r: "as_ready ?w x" if "as_ready w x" for x using that as by (auto simp: as_ready_def)
  have "fd_inv ?w = fd_inv w"
    unfolding fd_inv_def procs_ok_def refcount_frame [of ?w w, simplified] pinned_frame [of ?w w, simplified]
      cwd_hosts_frame [of ?w w, simplified] cwds_frame [of ?w w, simplified]
      objs_ok_frame [of ?w w, simplified] host_of_frame [of ?w w, simplified] by simp
  moreover have "proc_ready ?w p" if "proc_ready w p" for p using that r by (auto simp: proc_ready_def)
  moreover have "threads_ok R ?w"
    using inv r unfolding tux_inv_def threads_ok_def by (elim conjE, intro conjI) (simp, simp, simp, blast)
  ultimately show ?thesis using inv by (simp add: tux_inv_def)
qed

lemma tux_inv_insert:
  assumes "tux_inv R w" "proc_ready w q"
    and "\<And>t th. threads w t = Some th \<Longrightarrow> proc th = q \<Longrightarrow>
      t \<noteq> NULL \<and> p_ctx th \<noteq> NULL \<and> (\<exists>c. ctxs w (p_ctx th) = Some c \<and> ctxp c = t \<and> as_ready w (ctx_as c))"
  shows "tux_inv (insert q R) w"
  using assms by (auto simp: tux_inv_def threads_ok_def)

text \<open>The stores hold no pointer that was not allocated yet.\<close>

definition alloc_ok :: "('x, 'z) tuxw_scheme \<Rightarrow> bool" where
  "alloc_ok w \<longleftrightarrow> dom (procs w) \<union> dom (tuxes w) \<union> dom (aspaces w) \<subseteq> {..nextp w} \<and>
     (\<forall>t th. threads w t = Some th \<longrightarrow> proc th \<le> nextp w)"


text \<open>
  A process \<open>q\<close> with its thread \<open>p\<close> before it has an address space: nothing of the
  runtime refers to it yet.
\<close>

definition blank :: "ptr set \<Rightarrow> ptr \<Rightarrow> ptr \<Rightarrow> ('x, 'z) tuxw_scheme \<Rightarrow> bool" where
  "blank R p q w \<longleftrightarrow> tux_inv R w \<and> q \<noteq> NULL \<and> p \<noteq> NULL \<and> q \<notin> R \<and>
     map_option (\<lambda>pr. (fdtable pr, cwd pr)) (procs w q) = Some (no_files, no_dir) \<and>
     map_option proc (threads w p) = Some q \<and> (\<forall>u th. threads w u = Some th \<longrightarrow> proc th = q \<longrightarrow> u = p)"

lemma procnewempty_spec:
  assumes inv: "tux_inv R w" and al: "alloc_ok w" and room: "card (dom (procs w)) < 2 ^ 32"
  shows "wp F (procnewempty P) (\<lambda>p w'. tux_inv R w' \<and> tuxes w' = tuxes w \<and> plats w' = plats w \<and> aspaces w' = aspaces w \<and>
     nextp w \<le> nextp w' \<and> (p \<noteq> NULL \<longrightarrow> (\<exists>q. q \<notin> dom (procs w) \<and> blank R p q w'))) E w"
proof -
  let ?q = "Suc (nextp w)" and ?p = "Suc (Suc (nextp w))"
  have q: "?q \<notin> dom (procs w)" using al by (auto simp: alloc_ok_def)
  have ths: "proc th \<noteq> ?q" if "threads w u = Some th" for u th using al that by (fastforce simp: alloc_ok_def)
  have qR: "?q \<notin> R" using inv q by (auto simp: tux_inv_def proc_ready_def)
  have i1: "tux_inv R (w\<lparr>nextp := ?q\<rparr>)" by (rule tux_inv_nextp [OF inv])
  have i2: "tux_inv R (w\<lparr>nextp := ?p\<rparr>)" using tux_inv_nextp [OF i1] by simp
  have i3: "tux_inv R (w\<lparr>procs := (procs w)(?q \<mapsto> zero_proc), nextp := ?p\<rparr>)"
    using tux_inv_new_proc [OF inv, of ?q zero_proc] tux_inv_nextp [of R "w\<lparr>procs := (procs w)(?q \<mapsto> zero_proc)\<rparr>"]
      tux_inv_nextp [of R "w\<lparr>procs := (procs w)(?q \<mapsto> zero_proc), nextp := ?q\<rparr>"] q room
    by (simp add: zero_proc_def no_files_def)
  have i4: "tux_inv R (w\<lparr>procs := (procs w)(?q \<mapsto> zero_proc), nextp := ?p, next_tid := j,
      threads := (threads w)(?p \<mapsto> \<lparr>p_ctx = NULL, stack = 0, ctid = 0, tid = i, proc = ?q\<rparr>)\<rparr>)" for i j
    using tux_inv_new_thread [of R "w\<lparr>procs := (procs w)(?q \<mapsto> zero_proc), nextp := ?p, next_tid := j\<rparr>" ?p
        "\<lparr>p_ctx = NULL, stack = 0, ctid = 0, tid = i, proc = ?q\<rparr>"] i3 qR by simp
  have n: "(procs w)(?q := None) = procs w" using q by (auto simp: fun_upd_idem_iff)
  show ?thesis
    using i1 i2 i4 q qR ths n
    by (auto simp: procnewempty_def nexttid_def wp_rules blank_def Let_def zero_proc_def no_files_def fun_upd_idem_iff)
qed

lemma lfi_as_new_spec:
  assumes inv: "tux_inv R w" and al: "dom (aspaces w) \<subseteq> {..nextp w}"
    and pl: "plat \<noteq> NULL" "plats w plat = Some pl" "syshandler pl \<noteq> None"
  shows "wp F (lfi_as_new P plat) (\<lambda>as w'. tux_inv R w' \<and> procs w' = procs w \<and> threads w' = threads w \<and> tuxes w' = tuxes w \<and>
     (as \<noteq> NULL \<longrightarrow> as_ready w' as)) E w"
proof -
  let ?as = "Suc (nextp w)"
  have as: "?as \<notin> dom (aspaces w)" using al by (auto dest!: subsetD)
  have i1: "tux_inv R (w\<lparr>nextp := ?as\<rparr>)" by (rule tux_inv_nextp [OF inv])
  have i2: "tux_inv R (w\<lparr>nextp := ?as, ext := x, aspaces := (aspaces w)(?as \<mapsto> a)\<rparr>)" for a x
    using tux_inv_new_aspace [of R "w\<lparr>nextp := ?as, ext := x\<rparr>" ?as a] i1 as by simp
  have n: "(aspaces w)(?as := None) = aspaces w" using as by (auto simp: fun_upd_idem_iff)
  show ?thesis
    using i1 i2 pl n by (auto simp: lfi_as_new_def wp_rules Let_def as_ready_def)
qed


section \<open>Creating a process\<close>

lemma blank_frame:
  "blank R p q w \<Longrightarrow> tux_inv R w' \<Longrightarrow> procs w' = procs w \<Longrightarrow> threads w' = threads w \<Longrightarrow> blank R p q w'"
  unfolding blank_def by metis

lemma blank_procs:
  assumes b: "blank R p q w" and pr: "procs w q = Some pr" "fdtable pr' = fdtable pr" "cwd pr' = cwd pr"
  shows "blank R p q (w\<lparr>procs := (procs w)(q \<mapsto> pr')\<rparr>)"
proof -
  have "tux_inv R (w\<lparr>procs := (procs w)(q \<mapsto> pr')\<rparr>)"
    by (rule tux_inv_proc_upd [OF _ pr]) (use b in \<open>auto simp: blank_def\<close>)
  then show ?thesis using b pr by (simp add: blank_def)
qed

lemma booting_start:
  assumes b: "blank R p q w" and pr: "procs w q = Some pr" "p_tux pr = tux" and t: "tux \<noteq> NULL" "tuxes w tux = Some t"
    and as: "as_ready w as" and c: "ctx \<noteq> NULL" "ctxs w ctx = Some c" "ctxp c = p" "ctx_as c = as"
    and th: "threads w p = Some th"
  shows "booting R p q ctx as tux t (w\<lparr>procs := (procs w)(q \<mapsto> pr\<lparr>p_as := as, p_info := i\<rparr>),
    threads := (threads w)(p \<mapsto> th\<lparr>p_ctx := ctx\<rparr>)\<rparr>)" (is "booting _ _ _ _ _ _ _ ?w")
proof -
  let ?w1 = "w\<lparr>procs := (procs w)(q \<mapsto> pr\<lparr>p_as := as, p_info := i\<rparr>)\<rparr>"
  have b1: "blank R p q ?w1" by (rule blank_procs [OF b pr(1)]) simp_all
  have q: "q \<notin> R" "q \<noteq> NULL" "p \<noteq> NULL" "map_option proc (threads w p) = Some q"
      "\<And>u v. threads w u = Some v \<Longrightarrow> proc v = q \<Longrightarrow> u = p"
    using b unfolding blank_def by blast+
  have pq: "proc th = q" using q(4) th by simp
  have "dom (threads w) \<subseteq> {..nextp w}" using b by (simp add: blank_def tux_inv_def threads_ok_def)
  then have "p \<le> nextp ?w1" using th by auto
  moreover have "tux_inv R ?w1" using b1 by (simp add: blank_def)
  ultimately have "tux_inv R ?w" using tux_inv_new_thread [of R ?w1 p "th\<lparr>p_ctx := ctx\<rparr>"] q(1) pq by simp
  moreover have a: "as_ready ?w as" using as by (simp add: as_ready_def)
  then have "proc_ready ?w q" using q(2) pr(2) t by (auto simp: proc_ready_def)
  moreover have "t' \<noteq> NULL \<and> p_ctx v \<noteq> NULL \<and> (\<exists>c. ctxs ?w (p_ctx v) = Some c \<and> ctxp c = t' \<and> as_ready ?w (ctx_as c))"
    if "threads ?w t' = Some v" "proc v = q" for t' v
    using that q(5) [of t' v] q(3) c a by (cases "t' = p") auto
  ultimately have "tux_inv (insert q R) ?w" by (rule tux_inv_insert)
  moreover have "fdtable pr = no_files" "cwd pr = no_dir" using b pr unfolding blank_def by simp_all
  ultimately show ?thesis using th pq pr t by (simp add: booting_def)
qed

text \<open>The three standard streams of an instance are live objects, counted exactly.\<close>

lemma std_live:
  assumes "tux_inv R w" "tuxes w tux = Some t" "0 < tux_refs t f" "f \<noteq> NULL"
  shows "\<exists>v. fdfiles w f = Some v \<and> unat (refs v) = refcount w f"
proof -
  have fin: "finite (dom (tuxes w))" using assms(1) by (simp add: tux_inv_def fd_inv_def procs_ok_def)
  have "tux_refs t f \<le> (\<Sum>x\<in>dom (tuxes w). tux_refs (the (tuxes w x)) f)"
    using member_le_sum [of tux "dom (tuxes w)" "\<lambda>x. tux_refs (the (tuxes w x)) f"] fin assms(2) by force
  then have "0 < refcount w f" using assms(3) by (simp add: refcount_def)
  then show ?thesis using objs_ok_cnt [OF tux_inv_objsD [OF assms(1)] assms(4)] by blast
qed

lemma fdassign_std:
  assumes inv: "tux_inv R w" and q: "q \<in> R" "procs w q = Some pr" and t: "tuxes w tux = Some t" "0 < tux_refs t f" "f \<noteq> NULL"
    and fd: "0 \<le> fd" "fd < int TUX_NOFILE" "ft_files (fdtable pr) ! nat fd = NULL"
  shows "wp F (fdassign q fd f) (\<lambda>_ w'. tux_inv R w' \<and> threads w' = threads w \<and> tuxes w' = tuxes w \<and>
     procs w' = (procs w)(q \<mapsto> pr\<lparr>fdtable := \<lparr>ft_files = (ft_files (fdtable pr))[nat fd := f]\<rparr>\<rparr>)) E w"
proof -
  obtain v where v: "fdfiles w f = Some v" "unat (refs v) = refcount w f" using std_live [OF inv t] by blast
  have "wp F (fdassign q fd f) (\<lambda>_ w'. threads w' = threads w \<and> tuxes w' = tuxes w \<and>
     procs w' = (procs w)(q \<mapsto> pr\<lparr>fdtable := \<lparr>ft_files = (ft_files (fdtable pr))[nat fd := f]\<rparr>\<rparr>)) E w"
    using v t(3) fd(1,2) q tux_inv_proc [OF inv q(1)] by (simp add: fdassign_def set_fdfile_def set_proc_def wp_rules)
  then show ?thesis using fdassign_spec [OF inv q t(3) v fd, of F E] by (simp add: wp_conj)
qed

definition std_table :: "Tux \<Rightarrow> ptr list" where
  "std_table t = [fstdin t, fstdout t, fstderr t] @ replicate 125 NULL"

lemma fdinit_spec:
  assumes b: "booting R p q ctx as tux t w" and std: "NULL \<notin> {fstdin t, fstdout t, fstderr t}"
  shows "wp F (fdinit tux q) (\<lambda>_ w'. tux_inv (insert q R) w' \<and> threads w' = threads w \<and>
     map_option (\<lambda>pr. ft_files (fdtable pr)) (procs w' q) = Some (std_table t)) E w"
proof -
  note inv = booting_inv [OF b] and tx = booting_tux [OF b]
  obtain pr where pr: "procs w q = Some pr" "ft_files (fdtable pr) = replicate 128 NULL"
    using b by (auto simp: booting_def no_files_def)
  have rf: "0 < tux_refs t (fstdin t)" "0 < tux_refs t (fstdout t)" "0 < tux_refs t (fstderr t)" by (simp_all add: tux_refs_def)
  have nn: "fstdin t \<noteq> NULL" "fstdout t \<noteq> NULL" "fstderr t \<noteq> NULL" using std by auto
  have tb: "(replicate 128 NULL)[0 := fstdin t, Suc 0 := fstdout t, 2 := fstderr t] = std_table t"
  proof -
    have "replicate 128 NULL = NULL # NULL # NULL # replicate 125 NULL" by (simp add: numeral_eq_Suc)
    then show ?thesis by (simp only: std_table_def list_update.simps numeral_2_eq_2) simp
  qed
  note step = fdassign_std [of "insert q R" _ q _ tux t _ _ F E]
  let ?Q = "\<lambda>_ w'. tux_inv (insert q R) w' \<and> threads w' = threads w \<and>
       map_option (\<lambda>pr. ft_files (fdtable pr)) (procs w' q) = Some (std_table t)"
  let ?l1 = "(replicate 128 NULL)[0 := fstdin t]" and ?l2 = "(replicate 128 NULL)[0 := fstdin t, Suc 0 := fstdout t]"
  have s3: "wp F (fdassign q 2 (fstderr t)) ?Q E w'"
    if "tux_inv (insert q R) w'" "threads w' = threads w" "tuxes w' = tuxes w"
      "map_option (\<lambda>pr. ft_files (fdtable pr)) (procs w' q) = Some ?l2" for w'
  proof -
    from that(4) obtain pr' where p': "procs w' q = Some pr'" "ft_files (fdtable pr') = ?l2" by auto
    show ?thesis by (rule wp_mono [OF step [OF that(1) _ p'(1) _ rf(3) nn(3)]]) (use that(2,3) p' tx tb in simp_all)
  qed
  have s2: "wp F (bindM (fdassign q 1 (fstdout t)) (\<lambda>_. fdassign q 2 (fstderr t))) ?Q E w'"
    if "tux_inv (insert q R) w'" "threads w' = threads w" "tuxes w' = tuxes w"
      "map_option (\<lambda>pr. ft_files (fdtable pr)) (procs w' q) = Some ?l1" for w'
  proof -
    from that(4) obtain pr' where p': "procs w' q = Some pr'" "ft_files (fdtable pr') = ?l1" by auto
    show ?thesis
      by (rule wp_bindI [OF step [OF that(1) _ p'(1) _ rf(2) nn(2)]]; (elim conjE, rule s3)?) (use that(2,3) p' tx in simp_all)
  qed
  have s1: "wp F (bindM (fdassign q 0 (fstdin t)) (\<lambda>_. bindM (fdassign q 1 (fstdout t)) (\<lambda>_. fdassign q 2 (fstderr t)))) ?Q E w"
    by (rule wp_bindI [OF step [OF inv _ pr(1) _ rf(1) nn(1)]]; (elim conjE, rule s2)?) (use pr tx in simp_all)
  show ?thesis using s1 tx by (simp add: fdinit_def wp_bind [of _ "deref _ _"] wp_deref)
qed


text \<open>Creating a context leaves the instances, address spaces and platforms alone.\<close>

definition static_view :: "('x, 'z) tuxw_scheme \<Rightarrow> _" where
  "static_view w = (tuxes w, aspaces w, plats w)"

interpretation static: object_view static_view
  by unfold_locales (simp_all add: static_view_def)

lemma leaves_static_ctx: "leaves static_view (lfi_ctx_new P as cp main)"
  unfolding lfi_ctx_new_def sysalloc_def syssetup_def write_u64_def Let_def
  by (intro frame_rules; simp add: static_view_def)

lemma wp_set_proc:
  "q \<noteq> NULL \<Longrightarrow> procs w q = Some pr \<Longrightarrow>
   wp F (bindM (set_proc q f) g) Q E w = wp F (g ()) Q E (w\<lparr>procs := (procs w)(q \<mapsto> f pr)\<rparr>)"
  by (simp add: set_proc_def wp_bind wp_deref wp_modify)

lemma procnewfile_spec:
  fixes w :: "('x, 'z) tuxw_scheme"
  assumes fs: "fs_open_safe P" and inv: "tux_inv R w" and al: "alloc_ok w" and room: "card (dom (procs w)) < 2 ^ 32"
    and tx: "tux \<noteq> NULL" "tuxes w tux = Some t" "NULL \<notin> {fstdin t, fstdout t, fstderr t}"
    and pl: "t_plat t \<noteq> NULL" "plats w (t_plat t) = Some pl" "syshandler pl \<noteq> None"
    and d: "data prog \<noteq> None"
  shows "wp boot_fault (procnewfile P tux prog argv) (\<lambda>p w'. if p = NULL then tux_inv R w' else
     (\<exists>th. threads w' p = Some th \<and> proc th \<notin> dom (procs w) \<and> tux_inv (insert (proc th) R) w' \<and>
        map_option (\<lambda>pr. ft_files (fdtable pr)) (procs w' (proc th)) = Some (std_table t))) (\<lambda>_. False) w" (is "wp _ _ ?Q _ _")
proof -
  have files: "wp boot_fault (bindM (procfile P p prog argv) (\<lambda>ok.
           if \<not> ok then
             bindM (lfi_ctx_free ctx) (\<lambda>_. bindM (lfi_as_free as) (\<lambda>_. bindM (procfree p) (\<lambda>_. ret NULL)))
           else bindM (fdinit tux q) (\<lambda>_. ret p))) ?Q (\<lambda>_. False) w'"
    if B: "booting R p q ctx as tux t w'" and q: "q \<notin> dom (procs w)" for p q ctx as w'
  proof (rule wp_bindI [OF keepsD [OF keeps_procfile [OF d fs] B]], goal_cases)
    case (1 ok w1)
    then obtain th c where th: "p \<noteq> NULL" "threads w1 p = Some th" "proc th = q" and c: "ctx \<noteq> NULL" "ctxs w1 ctx = Some c"
      using booting_thread booting_ctx by metis
    show ?case
    proof (cases ok)
      case True
      have "wp boot_fault (bindM (fdinit tux q) (\<lambda>_. ret p)) ?Q (\<lambda>_. False) w1"
        by (rule wp_bindI [OF fdinit_spec [OF 1 tx(3)]]) (use th q in \<open>simp add: wp_ret\<close>)
      then show ?thesis using True by simp
    next
      case False
      then show ?thesis using c by (auto simp: lfi_ctx_free_def lfi_as_free_def wp_rules)
    qed
  qed
  let ?rest = "\<lambda>p q as ctx. bindM (lfi_as_info as) (\<lambda>info.
           bindM (set_proc q (\<lambda>pr. pr\<lparr>p_as := as, p_info := info\<rparr>)) (\<lambda>_.
           bindM (set_thread p (\<lambda>n. n\<lparr>p_ctx := ctx\<rparr>)) (\<lambda>_.
           bindM (procfile P p prog argv) (\<lambda>ok.
           if \<not> ok then
             bindM (lfi_ctx_free ctx) (\<lambda>_. bindM (lfi_as_free as) (\<lambda>_. bindM (procfree p) (\<lambda>_. ret NULL)))
           else bindM (fdinit tux q) (\<lambda>_. ret p)))))"
  let ?on = "\<lambda>p q w'. blank R p q w' \<and> map_option p_tux (procs w' q) = Some tux \<and> tuxes w' tux = Some t"
  have prep: "wp boot_fault (?rest p q as ctx) ?Q (\<lambda>_. False) w'"
    if on: "?on p q w'" and as: "as_ready w' as" and c: "ctx \<noteq> NULL" "ctxs w' ctx = Some c" "ctxp c = p" "ctx_as c = as"
      and q: "q \<notin> dom (procs w)" for p q as ctx c w'
  proof -
    obtain pr where pr: "procs w' q = Some pr" "p_tux pr = tux" using on by blast
    obtain th where th: "threads w' p = Some th" and ne: "q \<noteq> NULL" "p \<noteq> NULL" using on unfolding blank_def by blast
    obtain a where a: "as \<noteq> NULL" "aspaces w' as = Some a" using as by (auto simp: as_ready_def)
    note b = booting_start [OF _ pr tx(1) _ as c th, where R = R and t = t]
    show ?thesis
      using on pr th ne a files [OF b q] by (simp add: lfi_as_info_def set_proc_def set_thread_def wp_bind wp_deref wp_ret wp_modify)
  qed
  have ctx: "wp boot_fault (bindM (lfi_ctx_new P as p True) (\<lambda>ctx. if ctx = NULL then
           bindM (lfi_as_free as) (\<lambda>_. bindM (procfree p) (\<lambda>_. ret NULL)) else ?rest p q as ctx)) ?Q (\<lambda>_. False) w'"
    if on: "?on p q w'" and as: "as_ready w' as" and q: "q \<notin> dom (procs w)" for p q as w'
  proof (rule wp_bindI, rule wp_mono [OF wp_leaves [OF leaves_static_ctx lfi_ctx_new_spec [OF _ as]]])
    show "tux_inv R w'" using on by (simp only: blank_def)
    fix ctx w1 assume w1: "(tux_inv R w1 \<and> ctx_made w' as p ctx w1) \<and> static_view w1 = static_view w'"
    show "wp boot_fault (if ctx = NULL then
           bindM (lfi_as_free as) (\<lambda>_. bindM (procfree p) (\<lambda>_. ret NULL)) else ?rest p q as ctx) ?Q (\<lambda>_. False) w1"
    proof (cases "ctx = NULL")
      case False
      then obtain c where "ctxs w1 ctx = Some c" "ctxp c = p" "ctx_as c = as" using w1 by (auto simp: ctx_made_def)
      moreover have "?on p q w1" using on w1 blank_frame [of R p q w' w1] by (simp add: ctx_made_def static_view_def)
      moreover have "as_ready w1 as" using as w1 by (simp add: as_ready_def static_view_def)
      ultimately show ?thesis using prep [of p q w1 as ctx] False q by simp
    qed (simp add: lfi_as_free_def wp_rules)
  qed simp_all
  have space: "wp boot_fault (bindM (lfi_as_new P (t_plat t)) (\<lambda>as. if as = NULL then bindM (procfree p) (\<lambda>_. ret NULL)
       else bindM (lfi_ctx_new P as p True) (\<lambda>ctx. if ctx = NULL then
           bindM (lfi_as_free as) (\<lambda>_. bindM (procfree p) (\<lambda>_. ret NULL)) else ?rest p q as ctx))) ?Q (\<lambda>_. False) w'"
    if on: "?on p q w'" and sp: "dom (aspaces w') \<subseteq> {..nextp w'}" "plats w' = plats w" and q: "q \<notin> dom (procs w)" for p q w'
  proof (rule wp_bindI [OF lfi_as_new_spec [OF _ sp(1) pl(1) _ pl(3)]])
    show "tux_inv R w'" "plats w' (t_plat t) = Some pl" using on sp pl unfolding blank_def by simp_all
    fix as and w1 :: "('x, 'z) tuxw_scheme"
    assume 3: "tux_inv R w1 \<and> procs w1 = procs w' \<and> threads w1 = threads w' \<and> tuxes w1 = tuxes w' \<and> (as \<noteq> NULL \<longrightarrow> as_ready w1 as)"
    show "wp boot_fault (if as = NULL then bindM (procfree p) (\<lambda>_. ret NULL)
       else bindM (lfi_ctx_new P as p True) (\<lambda>ctx. if ctx = NULL then
           bindM (lfi_as_free as) (\<lambda>_. bindM (procfree p) (\<lambda>_. ret NULL)) else ?rest p q as ctx)) ?Q (\<lambda>_. False) w1"
    proof (cases "as = NULL")
      case False
      have "?on p q w1" using on 3 blank_frame [of R p q w' w1] by simp
      then show ?thesis using False 3 ctx q by simp
    qed (use 3 in \<open>simp add: procfree_def wp_rules\<close>)
  qed
  show ?thesis
    unfolding procnewfile_def
  proof (rule wp_bindI [OF procnewempty_spec [OF inv al room]], goal_cases)
    case (1 p w1)
    show ?case
    proof (cases "p = NULL")
      case False
      with 1 obtain q0 where q0: "q0 \<notin> dom (procs w)" "blank R p q0 w1" by blast
      then obtain th pr where th: "threads w1 p = Some th" "q0 = proc th" "procs w1 (proc th) = Some pr" "proc th \<noteq> NULL"
        unfolding blank_def by blast
      let ?q = "proc th"
      let ?w2 = "w1\<lparr>procs := (procs w1)(?q \<mapsto> pr\<lparr>p_tux := tux\<rparr>)\<rparr>"
      have q: "?q \<notin> dom (procs w)" and b: "blank R p ?q w1" using q0 unfolding th(2) by blast+
      have "?on p ?q ?w2" using blank_procs [OF b th(3), of "pr\<lparr>p_tux := tux\<rparr>"] 1 tx by simp
      moreover have "dom (aspaces ?w2) \<subseteq> {..nextp ?w2}" using 1 al by (auto simp: alloc_ok_def)
      ultimately have "wp boot_fault (bindM (lfi_as_new P (t_plat t)) (\<lambda>as. if as = NULL then bindM (procfree p) (\<lambda>_. ret NULL)
        else bindM (lfi_ctx_new P as p True) (\<lambda>ctx. if ctx = NULL then
           bindM (lfi_as_free as) (\<lambda>_. bindM (procfree p) (\<lambda>_. ret NULL)) else ?rest p ?q as ctx))) ?Q (\<lambda>_. False) ?w2"
        using 1 q by (intro space) simp_all
      then show ?thesis
        using False th 1 tx by (simp add: wp_set_proc wp_bind [of _ "deref _ _"] wp_deref)
    qed (use 1 in \<open>simp add: wp_ret\<close>)
  qed
qed


section \<open>Creating an instance\<close>

lemma objs_ok_std:
  assumes ok: "objs_ok cnt pin H w" and ff: "ff \<noteq> NULL" "ff \<notin> dom (fdfiles w)" "ff \<le> nextp w" "ff \<in> pin"
    and v: "fns_set v" "dev v \<noteq> NULL" "files w (dev v) = Some fl" "refs v = 0" and h: "f_file fl \<in> std_hosts"
  shows "objs_ok (cnt(ff := 1)) pin H (w\<lparr>fdfiles := (fdfiles w)(ff \<mapsto> v\<lparr>refs := 1\<rparr>)\<rparr>)"
proof -
  have std: "std_hosts \<subseteq> dom (hostfiles w)" "\<forall>h\<in>H. h \<notin> std_hosts" using ok unfolding objs_ok_def by blast+
  have nn: "f_file fl \<noteq> NULL" using h by (auto simp: std_hosts_def host_stdin_def host_stdout_def host_stderr_def)
  have c0: "cnt ff = 0" using objs_ok_cnt [OF ok ff(1)] ff(2) by fastforce
  have "objs_ok cnt pin H (w\<lparr>fdfiles := (fdfiles w)(ff \<mapsto> v)\<rparr>)"
    by (rule objs_ok_fdfile [OF ok ff(1-3) v(1-3) nn]) (use std h ff(4) in auto)
  from objs_ok_incref [OF this, of ff v] c0 v(4) show ?thesis by simp
qed

lemma objs_ok_pin: "objs_ok cnt pin H w \<Longrightarrow> pin \<subseteq> pin' \<Longrightarrow> objs_ok cnt pin' H w"
  unfolding objs_ok_def by (elim conjE) (intro conjI; (assumption | blast))

lemma refcount_new_tux:
  assumes "finite (dom (tuxes w))" "t \<notin> dom (tuxes w)" "procs w' = procs w" "tuxes w' = (tuxes w)(t \<mapsto> tx)"
  shows "refcount w' f = refcount w f + tux_refs tx f"
proof -
  have "(\<Sum>x\<in>dom (tuxes w). tux_refs (the (((tuxes w)(t \<mapsto> tx)) x)) f) = (\<Sum>x\<in>dom (tuxes w). tux_refs (the (tuxes w x)) f)"
    using assms(2) by (intro sum.cong) auto
  then show ?thesis using assms by (simp add: refcount_def)
qed

lemma tux_inv_new_tux:
  assumes inv: "tux_inv R w" and t: "t \<notin> dom (tuxes w)" "card (dom (tuxes w)) < 2 ^ 32"
    and same: "procs w' = procs w" "tuxes w' = (tuxes w)(t \<mapsto> tx)" "threads w' = threads w" "ctxs w' = ctxs w" "nextp w \<le> nextp w'"
    and ready: "\<And>as. as_ready w as \<Longrightarrow> as_ready w' as"
    and objs: "objs_ok cnt (pinned w') (cwd_hosts w) w'" and cnt: "\<And>f. f \<noteq> NULL \<Longrightarrow> cnt f = refcount w f + tux_refs tx f"
    and hosts: "\<And>f. f \<in> dom (fdfiles w) \<Longrightarrow> host_of w' f = host_of w f"
  shows "tux_inv R w'"
proof -
  have po: "procs_ok w" and ok: "objs_ok (refcount w) (pinned w) (cwd_hosts w) w"
    using inv by (simp_all add: tux_inv_def fd_inv_def)
  have "host_of w' (dir_fd d) = host_of w (dir_fd d)" if d: "cwds w p = Some d" "dir_fd d \<noteq> NULL" for p d
  proof (rule hosts)
    obtain pr where "procs w p = Some pr" "dir_fd (cwd pr) = dir_fd d" using d by (auto simp: cwds_def)
    then have "0 < refcount w (dir_fd d)"
      using refcount_ge [of w p pr "dir_fd d"] po by (auto simp: procs_ok_def proc_refs_def)
    then show "dir_fd d \<in> dom (fdfiles w)" using objs_ok_cnt [OF ok d(2)] by blast
  qed
  moreover have "finite (dom (tuxes w'))" "card (dom (tuxes w')) \<le> 2 ^ 32" using po t by (simp_all add: same procs_ok_def)
  ultimately have "procs_ok w'" using po unfolding procs_ok_def cwds_frame [OF same(1)] same(1) by simp
  moreover have "objs_ok (refcount w') (pinned w') (cwd_hosts w') w'"
    unfolding cwd_hosts_frame [OF same(1)]
    using objs po t same by (subst objs_ok_cong [of _ cnt]) (auto simp: cnt refcount_new_tux procs_ok_def)
  moreover have "proc_ready w' p" if "proc_ready w p" for p using that ready by (auto simp: proc_ready_def same)
  moreover have "threads_ok R w'"
  proof -
    have "{..nextp w} \<subseteq> {..nextp w'}" using same(5) by simp
    then show ?thesis using inv ready unfolding tux_inv_def threads_ok_def same(3,4)
      by (elim conjE, intro conjI) (erule (1) subset_trans, erule (1) subset_trans, blast)
  qed
  ultimately show ?thesis using inv by (simp add: tux_inv_def fd_inv_def)
qed


text \<open>\<^verbatim>\<open>filefnew\<close> on one of the standard streams.\<close>

abbreviation (input) std_file :: "ptr \<Rightarrow> u64 \<Rightarrow> FDFile" where
  "std_file f n \<equiv> \<lparr>dev = f, refs = n,
            ff_read = Some Fileread, ff_write = Some Filewrite, ff_lseek = Some Filelseek,
            ff_close = Some Fileclose, ff_stat = Some Filestat, ff_getdents = Some Filegetdents,
            ff_chown = Some Filechown, ff_chmod = Some Filechmod, ff_truncate = Some Filetruncate,
            ff_sync = Some Filesync, ff_file = Some Filefile\<rparr>"

lemma new_tux_state:
  fixes w :: "('x, 'z) tuxw_scheme"
  assumes inv: "tux_inv R w" and al: "alloc_ok w" and room: "card (dom (tuxes w)) < 2 ^ 32"
    and pl: "plats w plat = Some pl"
  defines "n \<equiv> nextp w"
  shows "tux_inv R (w\<lparr>nextp := n + 7,
    files := (files w)(n + 2 \<mapsto> \<lparr>f_file = host_stdin, f_flags = a\<rparr>, n + 4 \<mapsto> \<lparr>f_file = host_stdout, f_flags = b\<rparr>,
      n + 6 \<mapsto> \<lparr>f_file = host_stderr, f_flags = c\<rparr>),
    fdfiles := (fdfiles w)(n + 3 \<mapsto> std_file (n + 2) 1, n + 5 \<mapsto> std_file (n + 4) 1, n + 7 \<mapsto> std_file (n + 6) 1),
    tuxes := (tuxes w)(n + 1 \<mapsto> \<lparr>t_plat = plat, t_opts = topts, fstdin = n + 3, fstdout = n + 5, fstderr = n + 7\<rparr>),
    plats := (plats w)(plat \<mapsto> pl\<lparr>syshandler := Some fn\<rparr>)\<rparr>)" (is "tux_inv R ?w")
proof -
  let ?tx = "\<lparr>t_plat = plat, t_opts = topts, fstdin = n + 3, fstdout = n + 5, fstderr = n + 7\<rparr>"
  have ok: "objs_ok (refcount w) (pinned w) (cwd_hosts w) w" by (rule tux_inv_objsD [OF inv])
  have t: "n + 1 \<notin> dom (tuxes w)" using al by (auto simp: alloc_ok_def n_def)
  have "dom (files w) \<subseteq> {..n}" using ok by (simp add: n_def objs_ok_def)
  then have fr: "k \<notin> dom (files w)" "k \<notin> dom (fdfiles w)" if "n < k" for k
    using that objs_ok_obj [OF ok, of k] by (auto simp: n_def)
  let ?F = "(files w)(n + 2 \<mapsto> \<lparr>f_file = host_stdin, f_flags = a\<rparr>, n + 4 \<mapsto> \<lparr>f_file = host_stdout, f_flags = b\<rparr>,
      n + 6 \<mapsto> \<lparr>f_file = host_stderr, f_flags = c\<rparr>)"
  let ?v = "w\<lparr>nextp := n + 7, files := ?F\<rparr>"
  have o0: "objs_ok (refcount w) (pinned ?w) (cwd_hosts w) ?v"
  proof -
    have "objs_ok (refcount w) (pinned w) (cwd_hosts w) (w\<lparr>nextp := n + 7\<rparr>)" using objs_ok_nextp [OF ok] by (simp add: n_def)
    note o1 = objs_ok_file [OF this, of "n + 2" "Some \<lparr>f_file = host_stdin, f_flags = a\<rparr>"]
    note o2 = objs_ok_file [OF o1, of "n + 4" "Some \<lparr>f_file = host_stdout, f_flags = b\<rparr>"]
    note o3 = objs_ok_file [OF o2, of "n + 6" "Some \<lparr>f_file = host_stderr, f_flags = c\<rparr>"]
    have "pinned w \<subseteq> pinned ?w"
    proof
      fix f assume "f \<in> pinned w"
      then obtain u ux where u: "tuxes w u = Some ux" "0 < tux_refs ux f" by (auto simp: pinned_def)
      then have "tuxes ?w u = Some ux" using t by auto
      then show "f \<in> pinned ?w" using u(2) unfolding pinned_def by blast
    qed
    from objs_ok_pin [OF _ this] o3 fr show ?thesis by simp
  qed
  have pins: "n + 3 \<in> pinned ?w" "n + 5 \<in> pinned ?w" "n + 7 \<in> pinned ?w"
    unfolding pinned_def by (intro CollectI exI [of _ "n + 1"] exI [of _ ?tx] conjI; simp add: tux_refs_def)+
  have std: "host_stdin \<in> std_hosts" "host_stdout \<in> std_hosts" "host_stderr \<in> std_hosts" by (simp_all add: std_hosts_def)
  have o1: "objs_ok ((refcount w)(n + 3 := 1)) (pinned ?w) (cwd_hosts w) (?v\<lparr>fdfiles := (fdfiles w)(n + 3 \<mapsto> std_file (n + 2) 1)\<rparr>)"
    using objs_ok_std [OF o0, of "n + 3" "std_file (n + 2) 0"] fr pins std by (simp add: fns_set_def)
  have o2: "objs_ok ((refcount w)(n + 3 := 1, n + 5 := 1)) (pinned ?w) (cwd_hosts w)
      (?v\<lparr>fdfiles := (fdfiles w)(n + 3 \<mapsto> std_file (n + 2) 1, n + 5 \<mapsto> std_file (n + 4) 1)\<rparr>)"
    using objs_ok_std [OF o1, of "n + 5" "std_file (n + 4) 0"] fr pins std by (simp add: fns_set_def)
  have o3: "objs_ok ((refcount w)(n + 3 := 1, n + 5 := 1, n + 7 := 1)) (pinned ?w) (cwd_hosts w)
      (?v\<lparr>fdfiles := (fdfiles w)(n + 3 \<mapsto> std_file (n + 2) 1, n + 5 \<mapsto> std_file (n + 4) 1, n + 7 \<mapsto> std_file (n + 6) 1)\<rparr>)"
    using objs_ok_std [OF o2, of "n + 7" "std_file (n + 6) 0"] fr pins std by (simp add: fns_set_def)
  have z: "refcount w k = 0" if "n < k" for k using objs_ok_cnt [OF ok, of k] fr(2) [OF that] that by fastforce
  show ?thesis
  proof (rule tux_inv_new_tux [OF inv t room])
    show "as_ready ?w as" if "as_ready w as" for as using that pl by (auto simp: as_ready_def)
    show "objs_ok ((refcount w)(n + 3 := 1, n + 5 := 1, n + 7 := 1)) (pinned ?w) (cwd_hosts w) ?w"
      using o3 by (subst objs_ok_frame) simp_all
    show "((refcount w)(n + 3 := 1, n + 5 := 1, n + 7 := 1)) f = refcount w f + tux_refs ?tx f" if "f \<noteq> NULL" for f
      using z by (auto simp: tux_refs_def)
    show "host_of ?w f = host_of w f" if "f \<in> dom (fdfiles w)" for f
    proof -
      from that obtain v where v: "fdfiles w f = Some v" by blast
      have "f \<le> n" "dev v \<in> dom (files w)" using objs_ok_obj [OF ok v] host_of_File [OF _ v] by (auto simp: n_def)
      moreover from this fr(1) have "dev v \<le> n" by (meson leI)
      ultimately show ?thesis using v by (simp add: host_of_def)
    qed
  qed (simp_all add: n_def)
qed


lemma filefnew_run:
  fixes w :: "('x, 'z) tuxw_scheme"
  assumes "files w (Suc (nextp w)) = None"
  shows "filefnew P h fl w =
    (if oom P (nextp w) then Ret NULL (w\<lparr>nextp := Suc (nextp w)\<rparr>)
     else if oom P (Suc (nextp w)) then Ret NULL (w\<lparr>nextp := Suc (Suc (nextp w))\<rparr>)
     else Ret (Suc (Suc (nextp w))) (w\<lparr>files := (files w)(Suc (nextp w) \<mapsto> \<lparr>f_file = h, f_flags = fl\<rparr>), nextp := Suc (Suc (nextp w)),
       fdfiles := (fdfiles w)(Suc (Suc (nextp w)) \<mapsto> std_file (Suc (nextp w)) 0)\<rparr>))"
proof -
  have "(files w)(Suc (nextp w) := None) = files w" using assms by (auto simp: fun_upd_idem_iff)
  then show ?thesis by (simp add: filefnew_def run_simps malloc_def Let_def)
qed

lemma tux_inv_more_files:
  assumes inv: "tux_inv R w" and same: "procs w' = procs w" "tuxes w' = tuxes w" "aspaces w' = aspaces w" "plats w' = plats w"
      "threads w' = threads w" "ctxs w' = ctxs w" "fdfiles w' = fdfiles w" "hostfiles w' = hostfiles w" "nextp w \<le> nextp w'"
    and f: "\<And>f. f \<in> dom (files w) \<Longrightarrow> files w' f = files w f" "dom (files w') \<subseteq> {..nextp w'}"
  shows "tux_inv R w'"
proof -
  have ok: "objs_ok (refcount w) (pinned w) (cwd_hosts w) w" by (rule tux_inv_objsD [OF inv])
  have "host_of w' g = host_of w g" if "fdfiles w g = Some v" for g v
  proof -
    have "dev v \<in> dom (files w)" using objs_ok_obj [OF ok that] host_of_File [OF _ that] by auto
    then show ?thesis using that f(1) by (simp add: host_of_def same)
  qed
  then have h: "host_of w' = host_of w" by (intro ext) (metis (no_types) host_of_def same(7) option.case_eq_if option.collapse)
  have sub: "{..nextp w} \<subseteq> {..nextp w'}" and le: "\<And>f. f \<le> nextp w \<Longrightarrow> f \<le> nextp w'" using same(9) by auto
  have "objs_ok (refcount w) (pinned w) (cwd_hosts w) w'"
    using ok f(2) unfolding objs_ok_def h same(7,8)
    by (elim conjE) (intro conjI; (assumption | erule subset_trans [OF _ sub] | blast intro: le))
  then show ?thesis by (rule tux_inv_objs [OF inv same(1-6,9)]) (simp_all add: h)
qed

lemma lfi_tux_new_spec:
  fixes w :: "('x, 'z) tuxw_scheme"
  assumes inv: "tux_inv R w" and al: "alloc_ok w" and room: "card (dom (tuxes w)) < 2 ^ 32"
    and pl: "plat \<noteq> NULL \<Longrightarrow> plats w plat = Some pl" and nf: "plat = NULL \<Longrightarrow> F NullDeref"
  shows "wp F (lfi_tux_new P plat topts) (\<lambda>t w'. tux_inv R w' \<and> alloc_ok w' \<and> procs w' = procs w \<and> threads w' = threads w \<and>
     (t = NULL \<longrightarrow> (\<exists>n. oom P n)) \<and> (t \<noteq> NULL \<longrightarrow> plat \<noteq> NULL \<and> t \<notin> dom (tuxes w) \<and> (\<exists>tx pl'. tuxes w' t = Some tx \<and> t_opts tx = topts \<and> t_plat tx = plat \<and>
        NULL \<notin> {fstdin tx, fstdout tx, fstderr tx} \<and> plats w' plat = Some pl' \<and> syshandler pl' = Some Lfi_tux_syscall))) (\<lambda>_. False) w"
    (is "wp _ _ ?Q _ _")
proof -
  let ?n = "nextp w"
  have ok: "objs_ok (refcount w) (pinned w) (cwd_hosts w) w" by (rule tux_inv_objsD [OF inv])
  have fd: "dom (files w) \<subseteq> {..?n}" using ok by (simp add: objs_ok_def)
  have fr: "files w k = None" "fdfiles w k = None" "tuxes w k = None" if "?n < k" for k
    using that fd objs_ok_obj [OF ok, of k] al by (fastforce simp: alloc_ok_def)+
  have al': "alloc_ok w'" if "procs w' = procs w" "dom (tuxes w') \<subseteq> {..nextp w'}" "aspaces w' = aspaces w" "threads w' = threads w" "?n \<le> nextp w'" for w'
    using al that by (fastforce simp: alloc_ok_def)
  have lost: "tux_inv R w'" if "procs w' = procs w" "tuxes w' = tuxes w" "aspaces w' = aspaces w" "plats w' = plats w"
      "threads w' = threads w" "ctxs w' = ctxs w" "fdfiles w' = fdfiles w" "hostfiles w' = hostfiles w" "?n \<le> nextp w'"
      "\<And>f. f \<le> ?n \<Longrightarrow> files w' f = files w f" "dom (files w') \<subseteq> {..nextp w'}" for w' :: "('x, 'z) tuxw_scheme"
    by (rule tux_inv_more_files [OF inv that(1-9) _ that(11)]) (use that(10) fd in auto)
  have made: "tux_inv R w'" if "procs w' = procs w"
      "tuxes w' = (tuxes w)(?n + 1 \<mapsto> \<lparr>t_plat = plat, t_opts = topts, fstdin = ?n + 3, fstdout = ?n + 5, fstderr = ?n + 7\<rparr>)"
      "fdfiles w' = (fdfiles w)(?n + 3 \<mapsto> std_file (?n + 2) 1, ?n + 5 \<mapsto> std_file (?n + 4) 1, ?n + 7 \<mapsto> std_file (?n + 6) 1)"
      "files w' = (files w)(?n + 2 \<mapsto> \<lparr>f_file = host_stdin, f_flags = a\<rparr>, ?n + 4 \<mapsto> \<lparr>f_file = host_stdout, f_flags = b\<rparr>,
        ?n + 6 \<mapsto> \<lparr>f_file = host_stderr, f_flags = c\<rparr>)"
      "hostfiles w' = hostfiles w" "nextp w' = ?n + 7" "aspaces w' = aspaces w" "plats w' = (plats w)(plat \<mapsto> pl\<lparr>syshandler := Some fn\<rparr>)"
      "threads w' = threads w" "ctxs w' = ctxs w" "plat \<noteq> NULL" for w' :: "('x, 'z) tuxw_scheme" and a b c fn
    using new_tux_state [OF inv al room pl, where a = a and b = b and c = c and topts = topts and fn = fn] by (subst tux_inv_frame [of w']) (simp_all add: that)
  note run = wp_def lfi_tux_new_def run_simps malloc_def Let_def filefnew_run set_tux_def set_fdfile_def lfi_sys_handler_def fr
  have n: "?n + 1 = Suc ?n" "?n + 2 = Suc (Suc ?n)" "?n + 3 = Suc (Suc (Suc ?n))" "?n + 4 = Suc (Suc (Suc (Suc ?n)))"
    "?n + 5 = Suc (Suc (Suc (Suc (Suc ?n))))" "?n + 6 = Suc (Suc (Suc (Suc (Suc (Suc ?n)))))"
    "?n + 7 = Suc (Suc (Suc (Suc (Suc (Suc (Suc ?n))))))" by simp_all
  have sub: "A \<subseteq> {..?n} \<Longrightarrow> ?n \<le> k \<Longrightarrow> A \<subseteq> {..k}" for A k by auto
  note fin = conjI lost al' sub [OF fd] made
  have tx: "dom (tuxes w) \<subseteq> {..?n}" using al by (simp add: alloc_ok_def)
  have same: "(tuxes w)(k := None) = tuxes w" "(fdfiles w)(k := None) = fdfiles w" if "?n < k" for k using fr [OF that] by auto
  have cut: "dom (tuxes w) - A \<subseteq> {..k}" if "?n \<le> k" for A k using tx that by auto
  note ends = sub [OF fd] sub [OF tx] same cut
  consider (all) "\<not> oom P ?n" "\<not> oom P (?n + 1)" "\<not> oom P (?n + 2)" "\<not> oom P (?n + 3)" "\<not> oom P (?n + 4)" "\<not> oom P (?n + 5)" "\<not> oom P (?n + 6)"
    | (1) "oom P ?n" | (2) "\<not> oom P ?n" "oom P (?n + 1)" | (3) "\<not> oom P ?n" "\<not> oom P (?n + 1)" "oom P (?n + 2)"
    | (4) "\<not> oom P ?n" "\<not> oom P (?n + 1)" "\<not> oom P (?n + 2)" "oom P (?n + 3)"
    | (5) "\<not> oom P ?n" "\<not> oom P (?n + 1)" "\<not> oom P (?n + 2)" "\<not> oom P (?n + 3)" "oom P (?n + 4)"
    | (6) "\<not> oom P ?n" "\<not> oom P (?n + 1)" "\<not> oom P (?n + 2)" "\<not> oom P (?n + 3)" "\<not> oom P (?n + 4)" "oom P (?n + 5)"
    | (7) "\<not> oom P ?n" "\<not> oom P (?n + 1)" "\<not> oom P (?n + 2)" "\<not> oom P (?n + 3)" "\<not> oom P (?n + 4)" "\<not> oom P (?n + 5)" "oom P (?n + 6)" by blast
  then show ?thesis
  proof cases
    case all
    have t: "Suc ?n \<notin> dom (tuxes w)" using fr(3) [of "Suc ?n"] by auto
    show ?thesis
    proof (cases "plat = NULL")
      case True
      then show ?thesis using all nf unfolding n by (simp add: run)
    next
      case False
      then show ?thesis using all pl t tx unfolding n
        by (simp add: run) (intro conjI made al'; (simp add: n t sub [OF tx] | fact t | auto))
    qed
  next
    case 1 then show ?thesis using tx unfolding n by (simp add: run) (intro fin; (blast | simp add: ends | auto))
  next
    case 2 then show ?thesis using tx unfolding n by (simp add: run) (intro fin; (blast | simp add: ends | auto))
  next
    case 3 then show ?thesis using tx unfolding n by (simp add: run) (intro fin; (blast | simp add: ends | auto))
  next
    case 4 then show ?thesis using tx unfolding n by (simp add: run) (intro fin; (blast | simp add: ends | auto))
  next
    case 5 then show ?thesis using tx unfolding n by (simp add: run) (intro fin; (blast | simp add: ends | auto))
  next
    case 6 then show ?thesis using tx unfolding n by (simp add: run) (intro fin; (blast | simp add: ends | auto))
  next
    case 7 then show ?thesis using tx unfolding n by (simp add: run) (intro fin; (blast | simp add: ends | auto))
  qed
qed


section \<open>The invariant from the start\<close>


text \<open>C14. A new process.  Creating a process from any program image and any arguments ends in one
  of three ways: it fails and the runtime is as well-formed as before; an assertion
  fails, the program's headers lead outside the image, or the page size is 0; or it returns the first
  thread of a new process, the runtime with that process is well-formed (its
  thread, context, address space and descriptors are consistent), and its
  descriptors are exactly the three standard streams of the instance.\<close>

theorem new_process:
  fixes w :: "('x, 'z) tuxw_scheme"
  assumes "fs_open_safe P" "tux_inv R w" "alloc_ok w" "card (dom (procs w)) < 2 ^ 32"
    and "tux \<noteq> NULL" "tuxes w tux = Some t" "NULL \<notin> {fstdin t, fstdout t, fstderr t}"
    and "t_plat t \<noteq> NULL" "plats w (t_plat t) = Some pl" "syshandler pl \<noteq> None" "data prog \<noteq> None"
  shows "wp boot_fault (lfi_tux_proc_new P tux prog argv) (\<lambda>p w'. if p = NULL then tux_inv R w' else
     (\<exists>th. threads w' p = Some th \<and> proc th \<notin> dom (procs w) \<and> tux_inv (insert (proc th) R) w' \<and>
        map_option (\<lambda>pr. ft_files (fdtable pr)) (procs w' (proc th)) = Some (std_table t))) (\<lambda>_. False) w"
  unfolding lfi_tux_proc_new_def by (rule procnewfile_spec [OF assms])

lemma demo_alloc: "alloc_ok demo_world"
  by (simp add: alloc_ok_def demo_world_def)


theorem new_process_witness:
  "wp boot_fault (lfi_tux_proc_new demo_env 10 (demo_buf [1, 2, 3]) [[97]]) (\<lambda>p w'. p = NULL \<longrightarrow> tux_inv {14} w') (\<lambda>_. False) demo_world"
  by (rule wp_mono [OF new_process [OF demo_fs_safe demo_inv demo_alloc, of 10 demo_tux]])
    (auto simp: demo_tux_def demo_buf_def)

end
