(* ===== verification/Tux_DispatchInv.thy ===== *)
theory Tux_DispatchInv
  imports Tux_Dispatch Tux_SysThreadInv
begin

text \<open>
  The dispatcher selects the handler of the number it is given, and every system
  call keeps the invariant: \<open>call_safe\<close> collects what is shown of each handler,
  \<open>handler_keeps\<close> the lemmas of the components, and \<open>guest_ready\<close> is the state in
  which a context may make a call.
\<close>

section \<open>The link from a thread to its context and process\<close>

definition thread_link :: "ptr \<Rightarrow> ('x, 'z) tuxw_scheme \<Rightarrow> (ptr \<times> ptr) option" where
  "thread_link p w = map_option (\<lambda>th. (p_ctx th, proc th)) (threads w p)"

interpretation link: outside_view "thread_link p" for p
  by unfold_locales (simp_all add: thread_link_def)

lemma leaves_ctx_link [frame_rules]:
  "leaves (thread_link p) (lfi_ctx_tpset c v)" "leaves (thread_link p) (lfi_ctx_regs c)"
  "leaves (thread_link p) (set_ctx_regs c r)" "leaves (thread_link p) (store_int a i)"
  unfolding lfi_ctx_tpset_def lfi_ctx_regs_def set_ctx_regs_def store_int_def
  by (intro frame_rules; simp add: thread_link_def)+

lemma leaves_set_thread [frame_rules]:
  assumes "\<And>n. p_ctx (f n) = p_ctx n" "\<And>n. proc (f n) = proc n"
  shows "leaves (thread_link p) (set_thread q f)"
  using assms by (auto simp: leaves_def set_thread_def wp_rules thread_link_def split: option.split)

lemma leaves_thread_calls [frame_rules]:
  "leaves (thread_link p) (spawn_start P q p2 flags stk ctidp ctidu ptidu tls)"
  "leaves (thread_link p) (sys_set_tid_address p' a)" "leaves (thread_link p) (sys_arch_prctl p'' code b)"
  unfolding spawn_start_def sys_set_tid_address_def sys_arch_prctl_def
  by (intro frame_rules; simp)+

text \<open>
  A call made by thread \<open>p\<close> is safe in a state: it keeps the invariant, \<open>p\<close> stays
  the thread of its process and context, and the only fault is an assertion.
\<close>

definition call_safe :: "ptr set \<Rightarrow> ptr \<Rightarrow> (('x, 'z) tuxw_scheme, 'a) prog \<Rightarrow> ('x, 'z) tuxw_scheme \<Rightarrow> bool" where
  "call_safe R p m w \<longleftrightarrow>
     wp only_assert m (\<lambda>_ v. tux_inv R v \<and> thread_link p v = thread_link p w) (tux_inv R) w"

lemma call_safeI:
  assumes "leaves (thread_link p) m" "wp only_assert m (\<lambda>_. tux_inv R) (tux_inv R) w"
  shows "call_safe R p m w"
  using assms by (auto simp: call_safe_def leaves_def wp_def split: outcome.splits)

lemma call_safe_io: "call_safe R p m w \<Longrightarrow> call_safe R p (io m) w"
  by (auto simp: call_safe_def io_def wp_bind wp_ret elim: wp_mono)

lemma clone_safe:
  assumes inv: "tux_inv R w" and th: "thread_of R w p"
  shows "call_safe R p (sys_clone P p flags stk ptidp ctidp tls func) w"
proof -
  let ?Q = "\<lambda>_ v. tux_inv R v \<and> thread_link p v = thread_link p w"
  have "wp only_assert (if p2 = NULL then ret (- TUX_EAGAIN)
          else spawn_start P (proc t) p2 fl stk ctidp ctidu ptidu tls) ?Q (tux_inv R) v"
    if v: "tux_inv R v \<and> thread_made w (proc t) p2 v" "proc t \<in> R" for t p2 fl ctidu ptidu v
  proof -
    have l: "thread_link p v = thread_link p w"
    proof -
      have "p \<in> dom (threads w)" using th by (auto simp: thread_of_def)
      then have "threads v p = threads w p" using v by (simp add: thread_made_def)
      then show ?thesis by (simp add: thread_link_def)
    qed
    have "call_safe R p (spawn_start P (proc t) p2 fl stk ctidp ctidu ptidu tls) v" if "p2 \<noteq> NULL"
      using v that by (intro call_safeI frame_rules) (auto simp: thread_made_def intro!: spawn_start_keeps)
    then show ?thesis using v l by (auto simp: wp_ret call_safe_def)
  qed
  note tail = wp_bindI [OF procnewthread_spec [OF inv] this]
  show ?thesis
    unfolding call_safe_def
    by (auto simp: sys_clone_def spawn_def wp_raise wp_ret inv split: sum.split
        intro!: wp_thread [OF inv th] wp_user(3) [OF inv] tail)
qed

lemma arch_prctl_keeps:
  assumes "tux_inv R w" "thread_of R w p"
  shows "wp only_assert (sys_arch_prctl p code a) (\<lambda>_. tux_inv R) (tux_inv R) w"
proof -
  have "wp only_assert (bindM (lfi_ctx_tpset (p_ctx th) b) (\<lambda>_. ret 0)) (\<lambda>_. tux_inv R) (tux_inv R) w"
    if "threads w p = Some th" "proc th \<in> R" for th b
    using thread_live [OF assms(1) that] assms(1)
    by (auto simp: lfi_ctx_tpset_def wp_rules intro!: tux_inv_ctx_upd [OF assms(1)])
  then show ?thesis
    using assms(1) by (auto simp: sys_arch_prctl_def wp_ret intro!: wp_thread [OF assms] wp_user(3) [OF assms(1)])
qed

lemmas handler_keeps =
  fdwrite.keeps fdread.keeps lseek.keeps brk_keeps openat_keeps close_keeps writev_keeps readv_keeps pread64.keeps
  mmap_keeps mprotect_keeps munmap_keeps getdents.keeps newfstatat_keeps fchmod.keeps truncate_keeps
  ftruncate.keeps fchown.keeps fsync.keeps chdir_keeps fchdir_keeps mkdirat.keeps getrandom_keeps getcwd_keeps
  clock_gettime_keeps unlinkat.keeps renameat_keeps faccessat2.keeps readlinkat_keeps ioctl_keeps gettid_keeps
  futex_keeps set_tid_address_keeps getaffinity_keeps yield_keeps uname_keeps sysinfo_keeps prctl_keeps
  time_keeps chown_keeps chmod_keeps arch_prctl_keeps

lemma exit_safe:
  assumes "tux_inv R w" "thread_of R w p"
  shows "call_safe R p (sys_exit P p c) w" "call_safe R p (sys_exit_group p c) w"
  unfolding call_safe_def sys_exit_group_def
  by (rule wp_mono [OF exit_keeps [OF assms]]; simp) (rule wp_mono [OF leave_ctx_never_returns [OF assms]]; simp)

lemma simple_safe:
  assumes "tux_inv R w"
  shows "call_safe R p (ret x) w" "call_safe R p (raise AssertFail) w" "call_safe R p (sys_fcntl q fd cmd) w"
    "call_safe R p (sys_sched_setaffinity q i n a) w" "call_safe R p (sys_rt_sigaction q sig act old k) w"
    "call_safe R p (sys_rt_sigprocmask q how st ost k') w" "call_safe R p (sys_rt_sigreturn q) w"
    "call_safe R p (sys_getrlimit q res b) w"
  using assms by (simp_all add: call_safe_def sys_fcntl_def sys_sched_setaffinity_def sys_rt_sigaction_def
      sys_rt_sigprocmask_def sys_rt_sigreturn_def sys_getrlimit_def wp_ret wp_raise)

lemma sys_cases_safe:
  assumes "fs_open_safe P" "tux_inv R w" "thread_of R w p" "q \<in> R"
  shows "list_all (\<lambda>(s, m). call_safe R p m w) (sys_cases P p q a0 a1 a2 a3 a4 a5)"
  unfolding sys_cases_def list.pred_inject prod.case sys_faccessat_def
  by (intro conjI TrueI; (rule call_safe_io)?;
      (rule simple_safe exit_safe clone_safe; fact)?;
      (rule call_safeI, (rule frame_rules), (rule handler_keeps; fact))?;
      (cases "target P"; simp add: clone_safe assms)?)

lemma x64_cases_safe:
  assumes "fs_open_safe P" "tux_inv R w" "thread_of R w p" "q \<in> R"
  shows "list_all (\<lambda>(s, m). call_safe R p m w) (x64_cases P p q r)"
  unfolding x64_cases_def list.pred_inject prod.case sys_readlink_def sys_access_def sys_unlink_def
    sys_rename_def sys_mkdir_def sys_open_def sys_stat_def sys_lstat_def sys_faccessat_def
  by (intro conjI TrueI; (rule call_safe_io)?; (rule call_safeI, (rule frame_rules), (rule handler_keeps; fact))?; simp?)

lemma switch_cases:
  assumes "list_all (\<lambda>(s, m). Q m) cs" "Q d"
  shows "Q (switch a n cs d)"
  using assms nth_mem by (fastforce simp: switch_def list_all_iff find_Some_iff split: option.split)

lemma syshandle_safe:
  assumes "fs_open_safe P" "tux_inv R w" "thread_of R w p"
  shows "call_safe R p (syshandle P p n a0 a1 a2 a3 a4 a5) w"
  unfolding call_safe_def syshandle_def
proof (rule wp_thread [OF assms(2,3)])
  fix th assume "proc th \<in> R"
  then have "call_safe R p (switch (target P) n (sys_cases P p (proc th) a0 a1 a2 a3 a4 a5) (raise AssertFail)) w"
    by (intro switch_cases [where Q = "\<lambda>m. call_safe R p m w"] sys_cases_safe simple_safe assms)
  then show "wp only_assert (switch (target P) n (sys_cases P p (proc th) a0 a1 a2 a3 a4 a5) (raise AssertFail))
      (\<lambda>_ v. tux_inv R v \<and> thread_link p v = thread_link p w) (tux_inv R) w"
    by (simp add: call_safe_def)
qed

text \<open>The context \<open>ctx\<close> belongs to a thread of one of the processes \<open>R\<close>.\<close>

definition guest_ready :: "ptr set \<Rightarrow> ptr \<Rightarrow> ('x, 'z) tuxw_scheme \<Rightarrow> bool" where
  "guest_ready R ctx w \<longleftrightarrow> tux_inv R w \<and> (\<exists>p\<in>dom (threads w). \<exists>q\<in>R. thread_link p w = Some (ctx, q))"

lemma guest_readyE:
  assumes "guest_ready R ctx w"
  obtains p th c where "tux_inv R w" "threads w p = Some th" "proc th \<in> R" "p_ctx th = ctx" "thread_of R w p"
    "ctx \<noteq> NULL" "ctxs w ctx = Some c" "ctxp c = p" "p \<noteq> NULL" "as_ready w (ctx_as c)"
proof -
  from assms obtain p th where th: "tux_inv R w" "threads w p = Some th" "proc th \<in> R" "p_ctx th = ctx"
    by (auto simp: guest_ready_def thread_link_def)
  with thread_live [OF th(1-3)] show thesis by (auto intro!: that [of p th] simp: thread_of_def)
qed

lemma guest_ready_link:
  assumes "tux_inv R v" "thread_link p v = Some (ctx, q)" "q \<in> R"
  shows "guest_ready R ctx v"
  using assms by (auto simp: guest_ready_def thread_link_def)

lemma store_result:
  assumes g: "guest_ready R ctx w"
  shows "wp only_assert (bindM (lfi_ctx_regs ctx) (\<lambda>r. set_ctx_regs ctx (r(k := v)))) (\<lambda>_. guest_ready R ctx) E w"
proof -
  obtain p th c where l: "tux_inv R w" "threads w p = Some th" "proc th \<in> R" "p_ctx th = ctx"
    "ctx \<noteq> NULL" "ctxs w ctx = Some c"
    using g by (elim guest_readyE)
  have "tux_inv R (w\<lparr>ctxs := (ctxs w)(ctx \<mapsto> c\<lparr>regs := r\<rparr>)\<rparr>)" for r
    using l by (intro tux_inv_ctx_upd) auto
  then show ?thesis
    using l by (auto simp: lfi_ctx_regs_def set_ctx_regs_def wp_rules guest_ready_def thread_link_def)
qed

lemma handled:
  assumes g: "guest_ready R ctx w" and p: "thread_link p w = Some (ctx, q)" "q \<in> R" and m: "call_safe R p m w"
  shows "wp only_assert (bindM m (\<lambda>v. bindM (lfi_ctx_regs ctx) (\<lambda>r. set_ctx_regs ctx (r(k := v)))))
     (\<lambda>_. guest_ready R ctx) (tux_inv R) w"
proof (rule wp_bindI [OF m [unfolded call_safe_def]])
  fix v t assume "tux_inv R t \<and> thread_link p t = thread_link p w"
  then show "wp only_assert (bindM (lfi_ctx_regs ctx) (\<lambda>r. set_ctx_regs ctx (r(k := v)))) (\<lambda>_. guest_ready R ctx) (tux_inv R) t"
    using p by (intro store_result guest_ready_link [of R t p ctx q]) simp_all
qed

lemma arch_syshandle_safe:
  assumes fs: "fs_open_safe P" and g: "guest_ready R ctx w"
  shows "wp only_assert (arch_syshandle P ctx) (\<lambda>_. guest_ready R ctx) (tux_inv R) w"
proof -
  obtain p th c where l: "tux_inv R w" "threads w p = Some th" "proc th \<in> R" "p_ctx th = ctx" "thread_of R w p"
    "ctx \<noteq> NULL" "ctxs w ctx = Some c" "ctxp c = p" "p \<noteq> NULL"
    using g by (elim guest_readyE)
  have p: "thread_link p w = Some (ctx, proc th)" using l by (simp add: thread_link_def)
  note gen = handled [OF g p l(3)]
  have x64: "wp only_assert (arch_syshandle_x64 P ctx) (\<lambda>_. guest_ready R ctx) (tux_inv R) w"
  proof -
    let ?m = "switch X64 (regs c Rax) (x64_cases P p (proc th) (regs c))
       (syshandle P p (regs c Rax) (regs c Rdi) (regs c Rsi) (regs c Rdx) (regs c R10) (regs c R8) (regs c R9))"
    let ?tail = "bindM (deref procs (proc th)) (\<lambda>pr. bindM (deref tuxes (p_tux pr)) (\<lambda>_. ret ()))"
    have m: "call_safe R p ?m w"
      by (intro switch_cases [where Q = "\<lambda>m. call_safe R p m w"] x64_cases_safe syshandle_safe fs l)
    have "wp only_assert ?tail (\<lambda>_. guest_ready R ctx) (tux_inv R) t" if "guest_ready R ctx t" for t
    proof -
      have "tux_inv R t" using that by (simp add: guest_ready_def)
      then show ?thesis
        using that l(3) tux_inv_proc [of R t "proc th"] tux_inv_tux [of R t "proc th"] by (auto simp: wp_rules)
    qed
    from wp_bindI [OF gen [OF m, of Rax] this] show ?thesis
      using l by (simp add: arch_syshandle_x64_def lfi_ctx_data_def lfi_ctx_regs_def [of ctx] wp_bind wp_deref wp_ret)
  qed
  have arm64: "wp only_assert (arch_syshandle_arm64 P ctx) (\<lambda>_. guest_ready R ctx) (tux_inv R) w"
    using gen [OF syshandle_safe [OF fs l(1,5)]] l
    by (simp add: arch_syshandle_arm64_def lfi_ctx_data_def lfi_ctx_regs_def [of ctx] wp_bind wp_deref wp_ret)
  show ?thesis using x64 arm64 by (cases "target P") (simp_all add: arch_syshandle_def)
qed

section \<open>Numbers and labels\<close>

lemma ascending_distinct: "successively (<) (xs :: 'a :: linorder list) \<Longrightarrow> distinct xs"
  using strict_sorted_iff [of xs] successively_conv_sorted_wrt [of "(<)" xs] by (simp add: transp_on_less)

lemma arch_sys_distinct: "distinct (map snd (arch_sys a))"
  by (cases a; rule ascending_distinct)
    (simp_all add: arch_sys_def arch_sys_x64_def arch_sys_arm64_low_def arch_sys_arm64_mid_def arch_sys_arm64_high_def)

lemma TUX_SYS_inj:
  assumes "TUX_SYS a s = Some n" "TUX_SYS a s' = Some n"
  shows "s = s'"
proof -
  have "(s, n) \<in> set (arch_sys a)" "(s', n) \<in> set (arch_sys a)"
    using assms by (auto simp: TUX_SYS_def dest: map_of_SomeD)
  then show ?thesis
    using eq_key_imp_eq_value [of "map prod.swap (arch_sys a)" n s s'] arch_sys_distinct [of a]
    by (force simp: comp_def)
qed

lemma switch_selects:
  assumes "distinct (map fst cs)" "(s, m) \<in> set cs" "TUX_SYS a s = Some n"
  shows "switch a n cs d = m"
proof -
  obtain x where x: "find (\<lambda>(s, _). TUX_SYS a s = Some n) cs = Some x"
    using assms(2,3) by (cases "find (\<lambda>(s, _). TUX_SYS a s = Some n) cs") (auto simp: find_None_iff)
  then have "x \<in> set cs" "TUX_SYS a (fst x) = Some n"
    by (auto simp: find_Some_iff split_beta)
  then have "(s, snd x) \<in> set cs" "fst x = s"
    using TUX_SYS_inj [OF _ assms(3), of "fst x"] by (metis prod.collapse)+
  then have "x = (s, m)"
    using eq_key_imp_eq_value [OF assms(1) _ assms(2)] by (metis prod.collapse)
  then show ?thesis using x by (simp add: switch_def)
qed

lemma switch_default:
  assumes "\<forall>(s, m)\<in>set cs. TUX_SYS a s \<noteq> Some n"
  shows "switch a n cs d = d"
proof -
  have "find (\<lambda>(s, _). TUX_SYS a s = Some n) cs = None"
    using assms by (auto simp: find_None_iff)
  then show ?thesis by (simp add: switch_def)
qed

text \<open>The names of the generic switch.\<close>

definition sys_names :: "string list" where
  "sys_names = [
    ''getpid'', ''write'', ''read'', ''lseek'', ''exit'', ''exit_group'', ''brk'', ''openat'', ''close'',
    ''writev'', ''readv'', ''pread64'', ''mmap'', ''mprotect'', ''munmap'', ''getdents64'', ''newfstatat'',
    ''fstat'', ''fchmod'', ''truncate'', ''ftruncate'', ''fchown'', ''fsync'', ''chdir'', ''fchdir'',
    ''mkdirat'', ''getrandom'', ''getcwd'', ''clock_gettime'', ''unlinkat'', ''renameat'', ''faccessat'',
    ''readlinkat'', ''ioctl'', ''fcntl'', ''gettid'', ''futex'', ''clone'', ''set_tid_address'',
    ''sched_getaffinity'', ''sched_setaffinity'', ''sched_yield'', ''rt_sigaction'', ''rt_sigprocmask'',
    ''rt_sigreturn'', ''uname'', ''sysinfo'', ''getrlimit'', ''prctl'', ''set_robust_list'', ''membarrier'',
    ''statx'', ''rseq'', ''prlimit64'', ''statfs'', ''getxattr'', ''lgetxattr'', ''socket'', ''mremap'',
    ''utimensat'']"

lemma sys_cases_names: "map fst (sys_cases P p q a0 a1 a2 a3 a4 a5) = sys_names"
  by (simp add: sys_cases_def sys_names_def)

lemma sys_cases_distinct: "distinct (map fst (sys_cases P p q a0 a1 a2 a3 a4 a5))"
  by (simp only: sys_cases_names) (simp add: sys_names_def)


lemma demo_target [simp]: "target demo_env = X64"
  by (simp add: demo_env_defs)


text \<open>A system call number that no entry of the generic table has ends the host
  process: on ARM64 this is the assertion of \<^verbatim>\<open>syshandle\<close>, on x86-64 the same
  unless the number is one of the twelve calls handled before it.\<close>

lemma unknown_syscall_aborts:
  fixes w :: "('x, 'z) tuxw_scheme"
  assumes "p \<noteq> NULL" "threads w p = Some th" "\<forall>s\<in>set sys_names. TUX_SYS (target P) s \<noteq> Some n"
  shows "syshandle P p n a0 a1 a2 a3 a4 a5 w = Fault AssertFail"
proof -
  have "s \<in> set sys_names" if "(s, m) \<in> set (sys_cases P p q a0 a1 a2 a3 a4 a5)" for s q and m :: "(('x, 'z) tuxw_scheme, u64) prog"
    using that sys_cases_names [of P p q a0 a1 a2 a3 a4 a5] by (metis fst_conv image_eqI list.set_map)
  then have "switch (target P) n (sys_cases P p q a0 a1 a2 a3 a4 a5) d = d" for q and d :: "(('x, 'z) tuxw_scheme, u64) prog"
    using assms(3) by (intro switch_default) blast
  then show ?thesis using assms(1,2) by (simp add: syshandle_def run_simps)
qed

lemma unknown_syscall_aborts_example:
  "syshandle demo_env 15 57 0 0 0 0 0 0 demo_world = Fault AssertFail"
proof (rule unknown_syscall_aborts)
  have "TUX_SYS X64 ''fork'' = Some 57" by (simp add: TUX_SYS_def arch_sys_def arch_sys_x64_def)
  moreover have "''fork'' \<notin> set sys_names" by (simp add: sys_names_def)
  ultimately show "\<forall>s\<in>set sys_names. TUX_SYS (target demo_env) s \<noteq> Some 57"
    using TUX_SYS_inj by force
qed simp_all

end
