(* ===== verification/Tux_Run.thy ===== *)
theory Tux_Run
  imports Tux_DispatchInv
begin

text \<open>
  Sandboxed threads running concurrently as a step relation: computation inside
  the sandbox, changes of the world outside, and system calls, one at a time.
  Every step keeps the invariant of the runtime.
\<close>

section \<open>Running sandboxes\<close>

text \<open>
  One step of a system of sandboxed threads of the processes \<open>R\<close>: a thread
  computes, changing its registers, its thread pointer and any memory; the world
  outside changes; a thread makes a system call, which returns or ends the run of
  its context.
\<close>

inductive box_step :: "('x, 'e) tuxenv_scheme \<Rightarrow> ptr set \<Rightarrow> ('x, 'z) tuxw_scheme \<Rightarrow> ('x, 'z) tuxw_scheme \<Rightarrow> bool"
  for P R where
  Compute: "threads w t = Some th \<Longrightarrow> proc th \<in> R \<Longrightarrow> ctxs w (p_ctx th) = Some c \<Longrightarrow>
    box_step P R w (w\<lparr>mem := m, ctxs := (ctxs w)(p_ctx th \<mapsto> c\<lparr>tp := v, regs := r\<rparr>)\<rparr>)"
| Outside: "box_step P R w (w\<lparr>ext := e\<rparr>)"
| Return: "threads w t = Some th \<Longrightarrow> proc th \<in> R \<Longrightarrow> lfi_syscall_handler P (p_ctx th) w = Ret () w' \<Longrightarrow>
    box_step P R w w'"
| Leave: "threads w t = Some th \<Longrightarrow> proc th \<in> R \<Longrightarrow> lfi_syscall_handler P (p_ctx th) w = Exit code w' \<Longrightarrow>
    box_step P R w w'"

inductive_cases box_stepE: "box_step P R w w'"

lemma guest_readyI: "tux_inv R w \<Longrightarrow> threads w t = Some th \<Longrightarrow> proc th \<in> R \<Longrightarrow> guest_ready R (p_ctx th) w"
  by (rule guest_ready_link [of R w t]) (auto simp: thread_link_def)

lemma syscall_outcome:
  assumes fs: "fs_open_safe P" and g: "guest_ready R ctx w"
  shows "wp only_assert (lfi_syscall_handler P ctx) (\<lambda>_. guest_ready R ctx) (tux_inv R) w"
  using arch_syshandle_safe [OF fs g] g
  by (elim guest_readyE)
    (auto simp: lfi_syscall_handler_def lfi_tux_syscall_def as_ready_def wp_bind wp_deref split: SysHandlerFn.split)

lemma box_step_inv:
  assumes "fs_open_safe P" "tux_inv R w" "box_step P R w w'"
  shows "tux_inv R w'"
  using assms(3)
proof cases
  case (Compute t th c r v m)
  then have "tux_inv R (w\<lparr>mem := m, ctxs := (ctxs w)(p_ctx th \<mapsto> c\<lparr>tp := v, regs := r\<rparr>)\<rparr>)"
    using tux_inv_ctx_upd [of R "w\<lparr>mem := m\<rparr>" "p_ctx th" c] assms(2) by simp
  then show ?thesis using Compute by simp
next
  case (Return t th)
  then show ?thesis
    using syscall_outcome [OF assms(1) guest_readyI [OF assms(2) Return(1,2)]] by (simp add: wp_def guest_ready_def)
next
  case (Leave t th code)
  then show ?thesis
    using syscall_outcome [OF assms(1) guest_readyI [OF assms(2) Leave(1,2)]] by (simp add: wp_def)
qed (use assms in simp)

lemma reachable_inv:
  assumes "fs_open_safe P" "tux_inv R w" "(box_step P R)\<^sup>*\<^sup>* w v"
  shows "tux_inv R v"
  using assms(3,2) by induction (blast intro: box_step_inv [OF assms(1)])+

lemma syscall_no_ub:
  assumes "fs_open_safe P" "tux_inv R w" "threads w t = Some th" "proc th \<in> R"
  shows "lfi_syscall_handler P (p_ctx th) w \<notin> Fault ` {NullDeref, Dangling, OutOfBounds, BadFree}"
  using syscall_outcome [OF assms(1) guest_readyI [OF assms(2-4)]] by (auto simp: wp_def)

lemma demo_ready: "guest_ready {14} 13 demo_world"
  by (rule guest_ready_link [OF demo_inv, of 15 _ 14]) (simp_all add: thread_link_def)

end
