(* ===== verification/Tux_LfiRun.thy ===== *)
theory Tux_LfiRun
  imports Tux_ProcInv Tux_Run
begin

text \<open>
  The command line tool \<^verbatim>\<open>tools/lfi_run.c\<close>: its options, the choice of the page size, and the
  start of a program.  \<open>launch_spec\<close> shows that the tool hands a well-formed runtime to
  the program it runs.
\<close>

section \<open>Numbers on the command line\<close>

text \<open>\<^verbatim>\<open>atoi\<close> of the GNU C library: \<^verbatim>\<open>strtol\<close> with base 10, which saturates at 64 bits, cast to \<^verbatim>\<open>int\<close>.\<close>

definition is_space :: "u8 \<Rightarrow> bool" where
  "is_space c \<longleftrightarrow> c = 32 \<or> 9 \<le> c \<and> c \<le> 13"

definition is_digit :: "u8 \<Rightarrow> bool" where
  "is_digit c \<longleftrightarrow> 48 \<le> c \<and> c \<le> 57"

definition digits_value :: "bytes \<Rightarrow> int" where
  "digits_value ds = foldl (\<lambda>n d. 10 * n + (uint d - 48)) 0 ds"

definition strtol10 :: "bytes \<Rightarrow> int" where
  "strtol10 s =
     (let s1 = dropWhile is_space s;
          neg = (s1 \<noteq> [] \<and> hd s1 = 45);
          s2 = (if s1 \<noteq> [] \<and> hd s1 \<in> {43, 45} then tl s1 else s1);
          n = digits_value (takeWhile is_digit s2)
      in max (- (2 ^ 63)) (min (2 ^ 63 - 1) (if neg then - n else n)))"

definition atoi :: "bytes \<Rightarrow> 32 word" where
  "atoi s = word_of_int (strtol10 s)"

section \<open>\<^verbatim>\<open>tools/lfi_run.c\<close>\<close>

abbreviation (input) INPUTMAX :: nat where "INPUTMAX \<equiv> 256"
abbreviation (input) ARG_strace :: int where "ARG_strace \<equiv> 0x80"
abbreviation (input) ARG_pagesize :: int where "ARG_pagesize \<equiv> 0x81"
abbreviation (input) ARGP_KEY_ARG :: int where "ARGP_KEY_ARG \<equiv> 0"
abbreviation (input) ARGP_ERR_UNKNOWN :: int where "ARGP_ERR_UNKNOWN \<equiv> 7"

text \<open>The entries of \<^verbatim>\<open>inputs\<close> from \<^verbatim>\<open>ninputs\<close> on are never read.\<close>

record Args =
  inputs :: "bytes list"
  ninputs :: nat
  a_opts :: TuxOptions

text \<open>The global \<^verbatim>\<open>args\<close>, all zero.\<close>

definition args0 :: Args where
  "args0 = \<lparr>inputs = replicate INPUTMAX [], ninputs = 0,
     a_opts = \<lparr>opt_pagesize = 0, opt_stacksize = 0, pause_on_exit = False, opt_verbose = False,
       opt_strace = False, opt_perf = False, opt_fs = False\<rparr>\<rparr>"

text \<open>
  One call of the parser.  \<^verbatim>\<open>argp_state_help\<close> with \<^verbatim>\<open>ARGP_HELP_STD_HELP\<close> ends the process with
  status 0: \<open>Inl\<close>.
\<close>

definition parse_opt :: "int \<Rightarrow> bytes \<Rightarrow> Args \<Rightarrow> int + (int \<times> Args)" where
  "parse_opt key arg args =
     (if key = 104 then Inl 0
      else if key = 86 then Inr (0, args\<lparr>a_opts := (a_opts args)\<lparr>opt_verbose := True\<rparr>\<rparr>)
      else if key = 112 then Inr (0, args\<lparr>a_opts := (a_opts args)\<lparr>opt_perf := True\<rparr>\<rparr>)
      else if key = ARG_strace then Inr (0, args\<lparr>a_opts := (a_opts args)\<lparr>opt_strace := True\<rparr>\<rparr>)
      else if key = ARG_pagesize then Inr (0, args\<lparr>a_opts := (a_opts args)\<lparr>opt_pagesize := scast (atoi arg)\<rparr>\<rparr>)
      else if key = ARGP_KEY_ARG then
        Inr (0, if ninputs args < INPUTMAX
                then args\<lparr>inputs := (inputs args)[ninputs args := arg], ninputs := ninputs args + 1\<rparr> else args)
      else Inr (ARGP_ERR_UNKNOWN, args))"

text \<open>
  \<^verbatim>\<open>argp_parse\<close>: the sequence of calls it makes to the parser for a command line, and the exit
  status when it ends the process itself after them (a malformed option), are parameters.  It
  ignores \<^verbatim>\<open>ARGP_ERR_UNKNOWN\<close> for the keys that are not options.
\<close>

fun argp_calls :: "(int \<times> bytes) list \<Rightarrow> Args \<Rightarrow> int + Args" where
  "argp_calls [] args = Inr args"
| "argp_calls ((key, arg) # cs) args =
     (case parse_opt key arg args of Inl c \<Rightarrow> Inl c | Inr (_, args') \<Rightarrow> argp_calls cs args')"

definition argp_parse :: "(int \<times> bytes) list \<times> int option \<Rightarrow> Args \<Rightarrow> int + Args" where
  "argp_parse r args = (case argp_calls (fst r) args of Inl c \<Rightarrow> Inl c
     | Inr args' \<Rightarrow> (case snd r of Some c \<Rightarrow> Inl c | None \<Rightarrow> Inr args'))"

definition mb :: "u64 \<Rightarrow> u64" where
  "mb x = x * 1024 * 1024"

text \<open>
  \<^verbatim>\<open>main\<close> from the parsed arguments to the call of \<^verbatim>\<open>lfi_tux_proc_run\<close>: the exit status, or the
  thread that is run.  \<open>pgsz\<close> is the value of \<^verbatim>\<open>getpagesize()\<close>.
\<close>

definition main_setup :: "('x, 'e) tuxenv_scheme \<Rightarrow> int \<Rightarrow> Args \<Rightarrow> (('x, 'z) tuxw_scheme, int + ptr) prog" where
  "main_setup P pgsz args =
     (if ninputs args \<le> 0 then ret (Inl 1)
      else
        let pagesize' = word_of_int pgsz :: u64;
            o1 = (if opt_pagesize (a_opts args) = 0 then (a_opts args)\<lparr>opt_pagesize := pagesize'\<rparr> else a_opts args)
        in if pagesize' = 0 then raise DivByZero
           else if opt_pagesize o1 mod pagesize' \<noteq> 0 then ret (Inl 1)
           else
             bindM (lfi_new_plat P (opt_pagesize o1)) (\<lambda>plat.
             bindM (lfi_tux_new P plat (o1\<lparr>opt_stacksize := mb 2\<rparr>)) (\<lambda>tux.
             bindM (bufreadfile P tux (inputs args ! 0)) (\<lambda>f.
             if data f = None then ret (Inl 1)
             else
               bindM (lfi_tux_proc_new P tux f (take (ninputs args) (inputs args))) (\<lambda>p.
               if p = NULL then ret (Inl 1)
               else bindM (lfi_tux_proc_run_enter p) (\<lambda>_. ret (Inr p)))))))"

definition main :: "('x, 'e) tuxenv_scheme \<Rightarrow> int \<Rightarrow> (bytes list \<Rightarrow> (int \<times> bytes) list \<times> int option) \<Rightarrow> bytes list \<Rightarrow>
    (('x, 'z) tuxw_scheme, int + ptr) prog" where
  "main P pgsz argp argv =
     (case argp_parse (argp argv) args0 of Inl c \<Rightarrow> ret (Inl c) | Inr args \<Rightarrow> main_setup P pgsz args)"

text \<open>The exit status when \<^verbatim>\<open>lfi_tux_proc_run\<close> returns.\<close>

definition main_status :: "u64 \<Rightarrow> int" where
  "main_status code = sint (ucast code :: 32 word)"

section \<open>Arguments\<close>

definition args_ok :: "Args \<Rightarrow> bool" where
  "args_ok args \<longleftrightarrow> length (inputs args) = INPUTMAX \<and> ninputs args \<le> INPUTMAX"

lemma args_ok0: "args_ok args0"
  by (simp add: args_ok_def args0_def)

lemma parse_opt_ok: "args_ok args \<Longrightarrow> parse_opt key arg args = Inr (e, args') \<Longrightarrow> args_ok args'"
  by (auto simp: args_ok_def parse_opt_def split: if_splits)

lemma argp_calls_ok: "argp_calls cs args = Inr args' \<Longrightarrow> args_ok args \<Longrightarrow> args_ok args'"
proof (induction cs args rule: argp_calls.induct)
  case (2 key arg cs args)
  then show ?case by (auto split: sum.splits dest: parse_opt_ok)
qed simp

text \<open>The inputs are the first \<open>INPUTMAX\<close> plain arguments, in order.\<close>

definition plain_args :: "(int \<times> bytes) list \<Rightarrow> bytes list" where
  "plain_args cs = map snd (filter (\<lambda>c. fst c = ARGP_KEY_ARG) cs)"

lemma parse_opt_inputs:
  assumes "parse_opt key arg args = Inr (e, args')" "args_ok args"
  shows "take (ninputs args') (inputs args') = take INPUTMAX (take (ninputs args) (inputs args) @ (if key = ARGP_KEY_ARG then [arg] else []))"
  using assms
  by (auto simp: args_ok_def parse_opt_def min_def take_Suc_conv_app_nth nth_list_update_eq split: if_splits)

lemma take_prefix_append: "take n (take n xs @ ys) = take n (xs @ ys)"
  by (cases "length xs \<le> n") simp_all

lemma argp_calls_inputs:
  assumes "argp_calls cs args = Inr args'" "args_ok args"
  shows "take (ninputs args') (inputs args') = take INPUTMAX (take (ninputs args) (inputs args) @ plain_args cs)"
  using assms
proof (induction cs args rule: argp_calls.induct)
  case (1 args)
  then show ?case by (simp add: plain_args_def args_ok_def)
next
  case (2 key arg cs args)
  then obtain e a1 where p: "parse_opt key arg args = Inr (e, a1)" and r: "argp_calls cs a1 = Inr args'"
    by (auto split: sum.splits)
  from "2.IH" [OF p refl r parse_opt_ok [OF "2.prems"(2) p]] parse_opt_inputs [OF p "2.prems"(2)]
  have "take (ninputs args') (inputs args') = take INPUTMAX (take (ninputs args) (inputs args) @ (if key = ARGP_KEY_ARG then [arg] else []) @ plain_args cs)"
    by (simp only: take_prefix_append append_assoc)
  moreover have "plain_args ((key, arg) # cs) = (if key = ARGP_KEY_ARG then [arg] else []) @ plain_args cs"
    by (simp add: plain_args_def)
  ultimately show ?case by (simp only:)
qed

lemma parse_opt_options:
  assumes "parse_opt key arg args = Inr (e, args')"
  shows "opt_verbose (a_opts args') \<longleftrightarrow> opt_verbose (a_opts args) \<or> key = 86"
    and "opt_perf (a_opts args') \<longleftrightarrow> opt_perf (a_opts args) \<or> key = 112"
    and "opt_strace (a_opts args') \<longleftrightarrow> opt_strace (a_opts args) \<or> key = ARG_strace"
    and "opt_pagesize (a_opts args') = (if key = ARG_pagesize then scast (atoi arg) else opt_pagesize (a_opts args))"
  using assms by (auto simp: parse_opt_def split: if_splits)

lemma argp_calls_Cons:
  "argp_calls ((key, arg) # cs) args = Inr args' \<Longrightarrow> \<exists>e a. parse_opt key arg args = Inr (e, a) \<and> argp_calls cs a = Inr args'"
  by (auto split: sum.splits)

lemma argp_calls_options:
  assumes "argp_calls cs args = Inr args'"
  shows "opt_verbose (a_opts args') \<longleftrightarrow> opt_verbose (a_opts args) \<or> 86 \<in> fst ` set cs"
    and "opt_perf (a_opts args') \<longleftrightarrow> opt_perf (a_opts args) \<or> 112 \<in> fst ` set cs"
    and "opt_strace (a_opts args') \<longleftrightarrow> opt_strace (a_opts args) \<or> ARG_strace \<in> fst ` set cs"
    and "opt_pagesize (a_opts args') = foldl (\<lambda>n c. if fst c = ARG_pagesize then scast (atoi (snd c)) else n) (opt_pagesize (a_opts args)) cs"
  using assms
proof (induction cs arbitrary: args)
  case (Cons c cs)
  obtain key arg where c: "c = (key, arg)" by fastforce
  { case 1
    then obtain e a where "parse_opt key arg args = Inr (e, a)" "argp_calls cs a = Inr args'" using argp_calls_Cons c by blast
    from Cons.IH(1) [OF this(2)] parse_opt_options(1) [OF this(1)] show ?case using c by auto }
  { case 2
    then obtain e a where "parse_opt key arg args = Inr (e, a)" "argp_calls cs a = Inr args'" using argp_calls_Cons c by blast
    from Cons.IH(2) [OF this(2)] parse_opt_options(2) [OF this(1)] show ?case using c by auto }
  { case 3
    then obtain e a where "parse_opt key arg args = Inr (e, a)" "argp_calls cs a = Inr args'" using argp_calls_Cons c by blast
    from Cons.IH(3) [OF this(2)] parse_opt_options(3) [OF this(1)] show ?case using c by auto }
  { case 4
    then obtain e a where "parse_opt key arg args = Inr (e, a)" "argp_calls cs a = Inr args'" using argp_calls_Cons c by blast
    from Cons.IH(4) [OF this(2)] parse_opt_options(4) [OF this(1)] show ?case using c by auto }
qed simp_all

text \<open>C33. The command line.  The program gets the first 256 plain arguments in the order they
  were given, none of them lost or changed; each switch is set exactly when it
  was given, and the page size is the value of its last option.\<close>

theorem run_arguments:
  assumes "argp_calls cs args0 = Inr args"
  shows "take (ninputs args) (inputs args) = take INPUTMAX (plain_args cs) \<and>
     opt_verbose (a_opts args) = (86 \<in> fst ` set cs) \<and> opt_perf (a_opts args) = (112 \<in> fst ` set cs) \<and>
     opt_strace (a_opts args) = (ARG_strace \<in> fst ` set cs) \<and>
     opt_pagesize (a_opts args) = foldl (\<lambda>n c. if fst c = ARG_pagesize then scast (atoi (snd c)) else n) 0 cs"
  using argp_calls_inputs [OF assms args_ok0] argp_calls_options [OF assms] by (simp add: args0_def)

theorem run_arguments_witness:
  "\<exists>args. argp_calls [(86, []), (0, [97]), (ARG_pagesize, [52, 48]), (0, [98])] args0 = Inr args \<and>
     take (ninputs args) (inputs args) = [[97], [98]] \<and> opt_verbose (a_opts args) \<and> \<not> opt_perf (a_opts args) \<and> opt_pagesize (a_opts args) = 40"
proof -
  let ?cs = "[(86, []), (0, [97]), (ARG_pagesize, [52, 48]), (0, [98])] :: (int \<times> bytes) list"
  obtain args where a: "argp_calls ?cs args0 = Inr args" by (auto simp: parse_opt_def)
  from run_arguments [OF this] show ?thesis
    by (intro exI [of _ args] conjI a)
      (auto simp: plain_args_def atoi_def strtol10_def digits_value_def is_space_def is_digit_def)
qed

section \<open>The start of a run\<close>

text \<open>Before \<^verbatim>\<open>main\<close> there are no objects of the runtime but the standard host files.\<close>

definition initial :: "('x, 'z) tuxw_scheme \<Rightarrow> bool" where
  "initial w \<longleftrightarrow> aspaces w = Map.empty \<and> ctxs w = Map.empty \<and> files w = Map.empty \<and> fdfiles w = Map.empty \<and>
     procs w = Map.empty \<and> threads w = Map.empty \<and> tuxes w = Map.empty \<and> dom (hostfiles w) = std_hosts \<and> 3 \<le> nextp w"

lemma initial_inv:
  assumes "initial w"
  shows "tux_inv {} w" "alloc_ok w"
proof -
  have e: "dom (hostfiles w) = std_hosts" "procs w = Map.empty" "tuxes w = Map.empty" "fdfiles w = Map.empty" "files w = Map.empty"
    "threads w = Map.empty" "ctxs w = Map.empty" "aspaces w = Map.empty" "3 \<le> nextp w" using assms by (simp_all add: initial_def)
  have s: "std_hosts \<subseteq> {..nextp w}" using e by (auto simp: std_hosts_def host_stdin_def host_stdout_def host_stderr_def)
  have "objs_ok (refcount w) (pinned w) (cwd_hosts w) w"
    unfolding objs_ok_def using e s by (simp add: refcount_def cwd_hosts_def cwds_def)
  moreover have "procs_ok w" using e by (simp add: procs_ok_def cwds_def)
  ultimately show "tux_inv {} w" using e by (simp add: tux_inv_def fd_inv_def threads_ok_def)
  show "alloc_ok w" using e by (simp add: alloc_ok_def)
qed

text \<open>
  Beside the faults of loading a program, a null pointer is dereferenced when there is no memory for the platform or the
  instance: \<^verbatim>\<open>main\<close> does not check them.
\<close>

definition starved :: "('x, 'e) tuxenv_scheme \<Rightarrow> bool" where
  "starved P \<longleftrightarrow> (\<exists>n. oom P n) \<or> (\<exists>a b c x. fst (boxmap_new P a b c x) = NULL) \<or> (\<exists>b n x. \<not> fst (boxmap_reserve P b n x))"

definition launch_fault :: "('x, 'e) tuxenv_scheme \<Rightarrow> fault \<Rightarrow> bool" where
  "launch_fault P e \<longleftrightarrow> boot_fault e \<or> e = NullDeref \<and> starved P"

lemma lfi_new_plat_spec:
  assumes "initial w"
  shows "wp F (lfi_new_plat P n) (\<lambda>plat w'. tux_inv {} w' \<and> alloc_ok w' \<and> procs w' = Map.empty \<and> tuxes w' = Map.empty \<and>
     (plat = NULL \<longrightarrow> starved P) \<and> (plat \<noteq> NULL \<longrightarrow> plat \<in> dom (plats w'))) E w"
proof -
  have i: "tux_inv {} v" "alloc_ok v"
    if "procs v = Map.empty" "threads v = Map.empty" "tuxes v = Map.empty" "aspaces v = Map.empty" "ctxs v = Map.empty"
      "files v = Map.empty" "fdfiles v = Map.empty" "hostfiles v = hostfiles w" "3 \<le> nextp v" for v :: "('a, 'b) tuxw_scheme"
    using initial_inv [of v] that assms by (simp_all add: initial_def)
  show ?thesis
    using assms
    by (auto simp: lfi_new_plat_def Let_def wp_rules initial_def starved_def intro!: i)
qed

text \<open>The state between the creation of the instance \<open>tux\<close> and of the process.\<close>

definition launching :: "ptr \<Rightarrow> Tux \<Rightarrow> LFIPlatform \<Rightarrow> ('x, 'z) tuxw_scheme \<Rightarrow> bool" where
  "launching tux t pl w \<longleftrightarrow> alloc_ok w \<and> procs w = Map.empty \<and> tux \<noteq> NULL \<and> tuxes w tux = Some t \<and> NULL \<notin> {fstdin t, fstdout t, fstderr t} \<and>
     t_plat t \<noteq> NULL \<and> plats w (t_plat t) = Some pl \<and> syshandler pl \<noteq> None"

lemma alloc_ok_upd [simp]: "alloc_ok (w\<lparr>ext := x\<rparr>) = alloc_ok w" "alloc_ok (w\<lparr>mem := m\<rparr>) = alloc_ok w"
  "alloc_ok (w\<lparr>hostfiles := hs\<rparr>) = alloc_ok w"
  by (simp_all add: alloc_ok_def)

lemma alloc_ok_nextp: "alloc_ok w \<Longrightarrow> alloc_ok (w\<lparr>nextp := Suc (nextp w)\<rparr>)"
  by (fastforce simp: alloc_ok_def intro: le_SucI)

interpretation launchread: file_reader "{}" "launching tux t pl" tux t for tux t pl
  by unfold_locales (auto simp: launching_def alloc_ok_nextp)

lemma run_enter_spec:
  assumes "tux_inv R w" "threads w p = Some th" "proc th \<in> R"
  shows "wp F (lfi_tux_proc_run_enter p) (\<lambda>_ w'. tux_inv R w' \<and> threads w' = threads w \<and> lfi_myctx w' = p_ctx th) E w"
  using tux_inv_proc [OF assms(1,3)] thread_live(1) [OF assms] assms
  by (auto simp: lfi_tux_proc_run_enter_def lfi_ctx_run_enter_def wp_rules)


text \<open>What \<^verbatim>\<open>main\<close> hands to the sandbox: a well-formed runtime whose only process belongs to the thread that is run.\<close>

definition launched :: "ptr \<Rightarrow> ('x, 'z) tuxw_scheme \<Rightarrow> bool" where
  "launched p w \<longleftrightarrow> (\<exists>th. threads w p = Some th \<and> tux_inv {proc th} w \<and> lfi_myctx w = p_ctx th)"

abbreviation start_result :: "int + ptr \<Rightarrow> ('x, 'z) tuxw_scheme \<Rightarrow> bool" where
  "start_result r w \<equiv> (case r of Inl c \<Rightarrow> c = 1 | Inr p \<Rightarrow> launched p w)"

lemma proc_launch:
  assumes fs: "fs_open_safe P" and inv: "tux_inv {} w" and l: "launching tux t pl w" and d: "data f \<noteq> None"
  shows "wp boot_fault (bindM (lfi_tux_proc_new P tux f av) (\<lambda>p.
     if p = NULL then ret (Inl 1) else bindM (lfi_tux_proc_run_enter p) (\<lambda>_. ret (Inr p)))) start_result (\<lambda>_. False) w"
proof -
  have run: "wp boot_fault (bindM (lfi_tux_proc_run_enter p) (\<lambda>_. ret (Inr p))) start_result (\<lambda>_. False) v"
    if "threads v p = Some th" "tux_inv {proc th} v" for p th v
    by (rule wp_bindI [OF run_enter_spec [OF that(2,1)]]) (use that in \<open>auto simp: wp_ret launched_def\<close>)
  have l': "alloc_ok w" "card (dom (procs w)) < 2 ^ 32" "tux \<noteq> NULL" "tuxes w tux = Some t" "NULL \<notin> {fstdin t, fstdout t, fstderr t}"
    "t_plat t \<noteq> NULL" "plats w (t_plat t) = Some pl" "syshandler pl \<noteq> None" using l by (simp_all add: launching_def)
  show ?thesis
    unfolding lfi_tux_proc_new_def
    by (rule wp_bindI [OF procnewfile_spec [OF fs inv l' d]]) (auto simp: wp_ret intro: run split: if_splits)
qed

lemma file_launch:
  fixes w :: "('x, 'z) tuxw_scheme"
  assumes fs: "fs_open_safe P" and inv: "tux_inv {} w" and l: "launching tux t pl w"
  shows "wp boot_fault (bindM (bufreadfile P tux fname) (\<lambda>f.
     if data f = None then ret (Inl 1)
     else bindM (lfi_tux_proc_new P tux f av) (\<lambda>p.
       if p = NULL then ret (Inl 1) else bindM (lfi_tux_proc_run_enter p) (\<lambda>_. ret (Inr p))))) start_result (\<lambda>_. False) w"
proof (rule wp_bindI [OF keepsD [OF launchread.keeps_bufreadfile [OF fs]], of tux t pl])
  show "with_inv {} (launching tux t pl) w" using inv l by (simp add: with_inv_def)
  fix f and v :: "('x, 'z) tuxw_scheme" assume "with_inv {} (launching tux t pl) v"
  then have "tux_inv {} v" "launching tux t pl v" by (simp_all add: with_inv_def)
  from proc_launch [OF fs this]
  show "wp boot_fault (if data f = None then ret (Inl 1)
     else bindM (lfi_tux_proc_new P tux f av) (\<lambda>p.
       if p = NULL then ret (Inl 1) else bindM (lfi_tux_proc_run_enter p) (\<lambda>_. ret (Inr p)))) start_result (\<lambda>_. False) v"
    by (cases "data f = None") (simp_all add: wp_ret)
qed

lemma tux_launch:
  assumes fs: "fs_open_safe P" and w: "tux_inv {} w" "alloc_ok w" "procs w = Map.empty" "tuxes w = Map.empty"
    and pl: "plat = NULL \<longrightarrow> starved P" "plat \<noteq> NULL \<longrightarrow> plat \<in> dom (plats w)"
  shows "wp (launch_fault P) (bindM (lfi_tux_new P plat topts) (\<lambda>tux.
     bindM (bufreadfile P tux fname) (\<lambda>f.
     if data f = None then ret (Inl 1)
     else bindM (lfi_tux_proc_new P tux f av) (\<lambda>p.
       if p = NULL then ret (Inl 1) else bindM (lfi_tux_proc_run_enter p) (\<lambda>_. ret (Inr p)))))) start_result (\<lambda>_. False) w"
proof (rule wp_bindI [OF lfi_tux_new_spec [OF w(1,2), of plat "the (plats w plat)"]], goal_cases)
  case (4 tux v)
  show ?case
  proof (cases "tux = NULL")
    case True
    with 4 show ?thesis by (auto simp: bufreadfile_def wp_rules launch_fault_def starved_def)
  next
    case False
    with 4 obtain t pl' where l: "launching tux t pl' v" using w(3) by (fastforce simp: launching_def)
    have "tux_inv {} v" using 4 by simp
    from file_launch [OF fs this l] show ?thesis by (rule wp_mono) (auto simp: launch_fault_def)
  qed
qed (use w pl in \<open>auto simp: launch_fault_def\<close>)

lemma launch_spec:
  assumes fs: "fs_open_safe P" and w: "initial w"
  shows "wp (launch_fault P) (main_setup P pgsz args) start_result (\<lambda>_. False) w"
proof -
  let ?m = "\<lambda>n topts. bindM (lfi_new_plat P n) (\<lambda>plat. bindM (lfi_tux_new P plat topts) (\<lambda>tux.
     bindM (bufreadfile P tux (inputs args ! 0)) (\<lambda>f.
     if data f = None then ret (Inl 1)
     else bindM (lfi_tux_proc_new P tux f (take (ninputs args) (inputs args))) (\<lambda>p.
       if p = NULL then ret (Inl 1) else bindM (lfi_tux_proc_run_enter p) (\<lambda>_. ret (Inr p))))))"
  have "wp (launch_fault P) (?m n topts) start_result (\<lambda>_. False) w" for n topts
    by (rule wp_bindI [OF lfi_new_plat_spec [OF w]]) (auto intro!: tux_launch [OF fs])
  then show ?thesis by (simp add: main_setup_def Let_def wp_ret wp_raise launch_fault_def)
qed

lemma argp_calls_status: "argp_calls cs args = Inl c \<Longrightarrow> c = 0"
  by (induction cs args rule: argp_calls.induct) (auto simp: parse_opt_def split: sum.splits if_splits)

lemma argp_status: "argp_parse r args = Inl c \<Longrightarrow> c = 0 \<or> snd r = Some c"
  using argp_calls_status by (auto simp: argp_parse_def split: sum.splits option.splits)

section \<open>A whole run\<close>


definition demo_start :: "int tuxw" where
  "demo_start = demo_world\<lparr>aspaces := Map.empty, ctxs := Map.empty, files := Map.empty, fdfiles := Map.empty, procs := Map.empty,
     threads := Map.empty, tuxes := Map.empty\<rparr>"

lemma demo_initial: "initial demo_start"
  by (auto simp: initial_def demo_start_def demo_world_def std_hosts_def host_stdin_def host_stdout_def host_stderr_def)


text \<open>The page size of the command line is neither required to be positive nor a power of two.\<close>

lemma pagesize_unchecked:
  "parse_opt ARG_pagesize [45, 52, 48, 57, 54] args0 = Inr (0, args0\<lparr>a_opts := (a_opts args0)\<lparr>opt_pagesize := - 4096\<rparr>\<rparr>) \<and>
   (- 4096 :: u64) mod 4096 = 0"
  "parse_opt ARG_pagesize [49, 50, 50, 56, 56] args0 = Inr (0, args0\<lparr>a_opts := (a_opts args0)\<lparr>opt_pagesize := 12288\<rparr>\<rparr>) \<and>
   (12288 :: u64) mod 4096 = 0"
  by (simp_all add: parse_opt_def atoi_def strtol10_def digits_value_def is_space_def is_digit_def)

end
