(* ===== verification/Tux_Regs.thy ===== *)
theory Tux_Regs
  imports Tux_DispatchInv
begin

text \<open>
  What a system call does to registers.  The sandbox relies on reserved registers that
  hold the base of the sandbox and the table of runtime calls; here it is shown that a
  system call changes no register of any context except the result register of its own.
\<close>

section \<open>The registers of a context\<close>

definition ctx_view :: "ptr \<Rightarrow> ('x, 'z) tuxw_scheme \<Rightarrow> (TuxRegs \<times> ptr \<times> u64 \<times> ptr) option" where
  "ctx_view c w = map_option (\<lambda>x. (regs x, ctxp x, sys x, ctx_as x)) (ctxs w c)"

interpretation ctxv: outside_view "ctx_view c" for c
  by unfold_locales (simp_all add: ctx_view_def)

lemma leaves_view_thread [frame_rules]:
  "leaves (ctx_view c) (set_thread q f)" "leaves (ctx_view c) (lfi_ctx_regs k)" "leaves (ctx_view c) (store_int a i)"
  "leaves (ctx_view c) nexttid"
  unfolding set_thread_def lfi_ctx_regs_def store_int_def nexttid_def
  by (intro frame_rules; simp add: ctx_view_def)+

lemma leaves_view_tpset [frame_rules]: "leaves (ctx_view c) (lfi_ctx_tpset k v)"
  by (auto simp: leaves_def lfi_ctx_tpset_def wp_rules ctx_view_def split: option.split)

lemma leaves_view_regs: "c \<noteq> k \<Longrightarrow> leaves (ctx_view c) (set_ctx_regs k r)"
  unfolding set_ctx_regs_def by (intro frame_rules) (simp add: ctx_view_def)

lemma leaves_view_calls [frame_rules]:
  "leaves (ctx_view c) (sys_set_tid_address p a)" "leaves (ctx_view c) (sys_arch_prctl p' code b)"
  "leaves (ctx_view c) (sys_exit P q e)" "leaves (ctx_view c) (sys_exit_group q' e')"
  unfolding sys_set_tid_address_def sys_arch_prctl_def sys_exit_def sys_exit_group_def clearctid_def leave_ctx_def
    lfi_ctx_pause_def lfi_ctx_exit_def
  by (intro frame_rules; simp add: ctx_view_def)+

definition call_view :: "ptr \<Rightarrow> (('x, 'z) tuxw_scheme, 'a) prog \<Rightarrow> ('x, 'z) tuxw_scheme \<Rightarrow> bool" where
  "call_view c m w \<longleftrightarrow> wp any_fault m (\<lambda>_ v. ctx_view c v = ctx_view c w) (\<lambda>_. True) w"

lemma call_viewI: "leaves (ctx_view c) m \<Longrightarrow> call_view c m w"
  by (auto simp: leaves_def call_view_def elim!: wp_mono)

lemma call_view_io: "call_view c m w \<Longrightarrow> call_view c (io m) w"
  by (auto simp: call_view_def io_def wp_bind wp_ret elim: wp_mono)

lemma view_simple [frame_rules]:
  "leaves (ctx_view c) (sys_fcntl q fd cmd)" "leaves (ctx_view c) (sys_sched_setaffinity q i n a)"
  "leaves (ctx_view c) (sys_rt_sigaction q sig act old k)" "leaves (ctx_view c) (sys_rt_sigprocmask q how st ost k')"
  "leaves (ctx_view c) (sys_rt_sigreturn q)" "leaves (ctx_view c) (sys_getrlimit q res b)"
  unfolding sys_fcntl_def sys_sched_setaffinity_def sys_rt_sigaction_def sys_rt_sigprocmask_def sys_rt_sigreturn_def sys_getrlimit_def
  by (intro frame_rules; simp)+

section \<open>A new thread has a context of its own\<close>

lemma wp_any: "wp any_fault m (\<lambda>_ _. True) (\<lambda>_. True) w"
  by (simp add: wp_def split: outcome.split)

lemma wp_view: "leaves (ctx_view c) m \<Longrightarrow> wp any_fault m (\<lambda>_ v. ctx_view c v = ctx_view c w) (\<lambda>_. True) w"
  by (auto simp: leaves_def elim!: wp_mono)

lemma wp_deref_any:
  "(\<And>x. sel w a = Some x \<Longrightarrow> wp any_fault (f x) Q E w) \<Longrightarrow> wp any_fault (bindM (deref sel a) f) Q E w"
  by (auto simp: wp_bind wp_deref split: option.split)

lemma wp_procaddr_any:
  "(\<And>b. wp any_fault (f b) Q E w) \<Longrightarrow> wp any_fault (bindM (procaddr q a) f) Q E w"
  by (auto simp: procaddr_def lfi_as_validptr_def wp_bind wp_deref wp_ret split: option.split)

lemma wp_ctx_any:
  "(\<And>p. wp any_fault (f p) Q E w) \<Longrightarrow> wp any_fault (bindM (lfi_ctx_data ctx) f) Q E w"
  "(\<And>r. wp any_fault (g r) Q E w) \<Longrightarrow> wp any_fault (bindM (lfi_ctx_regs ctx) g) Q E w"
  by (auto simp: lfi_ctx_data_def lfi_ctx_regs_def wp_bind wp_deref wp_ret split: option.split)

lemma bindM_ret: "bindM m ret = m"
  by (auto simp: bindM_def ret_def fun_eq_iff split: outcome.split)

lemma view_ctx_new:
  assumes "c \<le> nextp w"
  shows "wp any_fault (lfi_ctx_new P as cp main) (\<lambda>k v. ctx_view c v = ctx_view c w \<and> (k \<noteq> NULL \<longrightarrow> k \<noteq> c)) (\<lambda>_. True) w"
proof -
  let ?n = "Suc (nextp w)"
  let ?tail = "bindM (deref aspaces as) (\<lambda>a. bindM (deref plats (as_plat a)) (\<lambda>plat.
       bindM (if main \<or> sysexternal (opts plat) then
                bindM (sysalloc P plat (as_base a)) (\<lambda>s. if s = 0 then ret 0 else bindM (syssetup P plat s ?n (as_base a)) (\<lambda>_. ret s))
              else ret (as_base a)) (\<lambda>s.
       if (main \<or> sysexternal (opts plat)) \<and> s = 0 then ret NULL
       else bindM (modifyM (\<lambda>w. w\<lparr>ctxs := (ctxs w)(?n \<mapsto>
                \<lparr>tp = 0, regs = lfi_regs_init (target P) (\<lambda>_. 0) a s, ctxp = cp, sys = s, ctx_as = as\<rparr>)\<rparr>)) (\<lambda>_. ret ?n))))"
  have l: "leaves (ctx_view c) ?tail"
    unfolding sysalloc_def syssetup_def write_u64_def Let_def
    using assms by (intro frame_rules; simp add: ctx_view_def)
  have res: "wp any_fault ?tail (\<lambda>k _. k \<noteq> NULL \<longrightarrow> k \<noteq> c) (\<lambda>_. True) v" for v
    using assms by (intro wp_bindI [OF wp_any]) (auto simp: wp_rules)
  have t: "wp any_fault ?tail (\<lambda>k v. ctx_view c v = ctx_view c w \<and> (k \<noteq> NULL \<longrightarrow> k \<noteq> c)) (\<lambda>_. True) (w\<lparr>nextp := ?n\<rparr>)"
    using wp_leaves [OF l res, of "w\<lparr>nextp := ?n\<rparr>"] by (rule wp_mono) (simp_all add: ctx_view_def)
  show ?thesis
    using t unfolding lfi_ctx_new_def by (simp add: wp_bind [of _ "malloc P"] wp_malloc Let_def wp_ret ctx_view_def)
qed

lemma view_procnewthread:
  assumes "c \<le> nextp w"
  shows "wp any_fault (procnewthread P p) (\<lambda>p2 v. ctx_view c v = ctx_view c w \<and>
     (p2 \<noteq> NULL \<longrightarrow> (\<exists>u. threads v p2 = Some u \<and> p_ctx u \<noteq> c))) (\<lambda>_. True) w" (is "wp _ _ ?Q _ _")
proof -
  let ?n = "Suc (nextp w)" and ?blank = "\<lparr>p_ctx = NULL, stack = 0, ctid = 0, tid = 0, proc = NULL\<rparr>"
  let ?w = "w\<lparr>nextp := ?n, threads := (threads w)(?n \<mapsto> ?blank)\<rparr>"
  have v: "ctx_view c ?w = ctx_view c w" by (simp add: ctx_view_def)
  have tail: "wp any_fault (if k = NULL then bindM (modifyM (\<lambda>w. w\<lparr>threads := (threads w)(?n := None)\<rparr>)) (\<lambda>_. ret NULL)
       else
         bindM (set_thread ?n (\<lambda>n. n\<lparr>p_ctx := k, proc := proc th\<rparr>)) (\<lambda>_.
         bindM nexttid (\<lambda>i.
         bindM (set_thread ?n (\<lambda>n. n\<lparr>tid := i\<rparr>)) (\<lambda>_.
         bindM (lfi_ctx_regs (p_ctx th)) (\<lambda>r.
         bindM (set_ctx_regs k r) (\<lambda>_. ret ?n)))))) ?Q (\<lambda>_. True) v"
    if "ctx_view c v = ctx_view c ?w \<and> (k \<noteq> NULL \<longrightarrow> k \<noteq> c)" for k th v
    using that by (auto simp: set_thread_def nexttid_def lfi_ctx_regs_def set_ctx_regs_def wp_rules ctx_view_def split: option.splits)
  have body: "wp any_fault (bindM (lfi_ctx_new P as ?n False) (\<lambda>k.
       if k = NULL then bindM (modifyM (\<lambda>w. w\<lparr>threads := (threads w)(?n := None)\<rparr>)) (\<lambda>_. ret NULL)
       else
         bindM (set_thread ?n (\<lambda>n. n\<lparr>p_ctx := k, proc := proc th\<rparr>)) (\<lambda>_.
         bindM nexttid (\<lambda>i.
         bindM (set_thread ?n (\<lambda>n. n\<lparr>tid := i\<rparr>)) (\<lambda>_.
         bindM (lfi_ctx_regs (p_ctx th)) (\<lambda>r.
         bindM (set_ctx_regs k r) (\<lambda>_. ret ?n))))))) ?Q (\<lambda>_. True) ?w" for as th
    by (rule wp_bindI [OF view_ctx_new tail]) (use assms in auto)
  show ?thesis
    unfolding procnewthread_def
    by (auto simp: wp_bind [of _ "malloc P"] wp_bind [of _ "modifyM _"] wp_modify wp_malloc Let_def wp_ret
        simp del: fun_upd_apply neq0_conv intro!: wp_deref_any body)
qed

lemma view_clone:
  assumes "c \<le> nextp w"
  shows "call_view c (sys_clone P p flags stk ptidp ctidp tls func) w"
proof -
  have start: "wp any_fault (spawn_start P q p2 fl stk ctidp ctidu ptidu tls) (\<lambda>_ v. ctx_view c v = ctx_view c w) (\<lambda>_. True) v"
    if "threads v p2 = Some u" "p_ctx u \<noteq> c" "ctx_view c v = ctx_view c w" for q p2 fl ctidu ptidu u v
    using that unfolding spawn_start_def that(3) [symmetric]
    by (intro wp_deref_any wp_view frame_rules leaves_view_regs) auto
  have new: "wp any_fault (bindM (procnewthread P p) (\<lambda>p2. if p2 = NULL then ret (- TUX_EAGAIN)
          else spawn_start P q p2 fl stk ctidp ctidu ptidu tls)) (\<lambda>_ v. ctx_view c v = ctx_view c w) (\<lambda>_. True) w" for q fl ctidu ptidu
    by (rule wp_bindI [OF view_procnewthread [OF assms]]) (auto simp: wp_ret intro: start)
  show ?thesis
    unfolding call_view_def sys_clone_def spawn_def
    by (auto simp: wp_ret wp_raise split: sum.split intro!: wp_deref_any wp_procaddr_any new)
qed

lemma sys_cases_view:
  assumes "c \<le> nextp w"
  shows "list_all (\<lambda>(s, m). call_view c m w) (sys_cases P p q a0 a1 a2 a3 a4 a5)"
  unfolding sys_cases_def list.pred_inject prod.case sys_faccessat_def
  by (intro conjI TrueI; (rule call_view_io)?;
      (rule view_clone; fact)?; (rule call_viewI, (rule frame_rules))?;
      (cases "target P"; simp add: view_clone assms)?)

lemma x64_cases_view: "list_all (\<lambda>(s, m). call_view c m w) (x64_cases P p q r)"
  unfolding x64_cases_def list.pred_inject prod.case sys_readlink_def sys_access_def sys_unlink_def
    sys_rename_def sys_mkdir_def sys_open_def sys_stat_def sys_lstat_def sys_faccessat_def
  by (intro conjI TrueI; (rule call_view_io)?; (rule call_viewI, (rule frame_rules))?; simp?)

lemma syshandle_view:
  assumes "c \<le> nextp w"
  shows "call_view c (syshandle P p n a0 a1 a2 a3 a4 a5) w"
proof -
  have "call_view c (switch (target P) n (sys_cases P p q a0 a1 a2 a3 a4 a5) (raise AssertFail)) w" for q
    by (intro switch_cases [where Q = "\<lambda>m. call_view c m w"] sys_cases_view assms) (simp add: call_view_def wp_raise)
  then show ?thesis unfolding syshandle_def call_view_def by (intro wp_deref_any)
qed

section \<open>The result register\<close>

text \<open>Nothing of the context \<open>c\<close> changes but the register \<open>k\<close>, and that only when the call was made by \<open>c\<close>.\<close>

definition only_result :: "reg \<Rightarrow> ptr \<Rightarrow> ptr \<Rightarrow> ('x, 'z) tuxw_scheme \<Rightarrow> ('x, 'z) tuxw_scheme \<Rightarrow> bool" where
  "only_result k ctx c w v \<longleftrightarrow> (\<forall>x. ctxs w c = Some x \<longrightarrow> (\<exists>y r. ctxs v c = Some y \<and>
     regs y = (if c = ctx then (regs x)(k := r) else regs x) \<and> ctxp y = ctxp x \<and> sys y = sys x \<and> ctx_as y = ctx_as x))"

lemma result_stored:
  fixes w :: "('x, 'z) tuxw_scheme"
  assumes "call_view c m w" "\<And>x t. only_result k ctx c w t \<Longrightarrow> wp any_fault (g x) (\<lambda>_. only_result k ctx c w) (\<lambda>_. True) t"
  shows "wp any_fault (bindM m (\<lambda>v. bindM (lfi_ctx_regs ctx) (\<lambda>r. bindM (set_ctx_regs ctx (r(k := v))) g)))
     (\<lambda>_. only_result k ctx c w) (\<lambda>_. True) w"
proof (rule wp_bindI [OF assms(1) [unfolded call_view_def]])
  fix v and t :: "('x, 'z) tuxw_scheme" assume "ctx_view c t = ctx_view c w"
  then have "only_result k ctx c w (t\<lparr>ctxs := (ctxs t)(ctx \<mapsto> y\<lparr>regs := (regs y)(k := v)\<rparr>)\<rparr>)" if "ctxs t ctx = Some y" for y
    using that by (fastforce simp: only_result_def ctx_view_def)
  then show "wp any_fault (bindM (lfi_ctx_regs ctx) (\<lambda>r. bindM (set_ctx_regs ctx (r(k := v))) g)) (\<lambda>_. only_result k ctx c w) (\<lambda>_. True) t"
    using assms(2) by (auto simp: lfi_ctx_regs_def set_ctx_regs_def wp_rules split: option.split)
qed

lemma arch_syshandle_result:
  assumes "c \<le> nextp w"
  shows "wp any_fault (arch_syshandle P ctx) (\<lambda>_. only_result (regs_return (target P)) ctx c w) (\<lambda>_. True) w"
proof -
  have x64: "wp any_fault (arch_syshandle_x64 P ctx) (\<lambda>_. only_result Rax ctx c w) (\<lambda>_. True) w"
  proof -
    have m: "call_view c (switch X64 (r Rax) (x64_cases P p q r)
       (syshandle P p (r Rax) (r Rdi) (r Rsi) (r Rdx) (r R10) (r R8) (r R9))) w" for p q r
      by (intro switch_cases [where Q = "\<lambda>m. call_view c m w"] x64_cases_view syshandle_view assms)
    have tail: "wp any_fault (bindM (deref procs q) (\<lambda>pr. bindM (deref tuxes (p_tux pr)) (\<lambda>_. ret ()))) (\<lambda>_. only_result Rax ctx c w) (\<lambda>_. True) t"
      if "only_result Rax ctx c w t" for q t
      using that by (intro wp_deref_any) (simp add: wp_ret)
    show ?thesis
      unfolding arch_syshandle_x64_def
      by (intro wp_ctx_any(1) wp_deref_any, rule wp_ctx_any(2), rule result_stored [OF m], erule tail)
  qed
  have arm64: "wp any_fault (arch_syshandle_arm64 P ctx) (\<lambda>_. only_result (X 0) ctx c w) (\<lambda>_. True) w"
    using result_stored [OF syshandle_view [OF assms], of "X 0" ctx ret]
    unfolding arch_syshandle_arm64_def bindM_ret by (intro wp_ctx_any) (simp_all add: wp_ret)
  show ?thesis using x64 arm64 by (cases "target P") (simp_all add: arch_syshandle_def regs_return_def regs_return_x64_def regs_return_arm64_def)
qed

text \<open>C17. A system call changes no register but its result.  In a state that satisfies the invariant, a
  system call of any context, with any number and arguments, that returns has changed at most the result
  register of that context: every other register, in particular the reserved ones that hold
  the base of the sandbox and its runtime calls, every register of every other context, and the
  links of all contexts to their thread, runtime page and address space are as they were.\<close>

theorem registers_kept:
  assumes "tux_inv R w"
  shows "wp any_fault (lfi_syscall_handler P ctx) (\<lambda>_ v. \<forall>c x. ctxs w c = Some x \<longrightarrow> (\<exists>y r. ctxs v c = Some y \<and>
     regs y = (if c = ctx then (regs x)(regs_return (target P) := r) else regs x) \<and> ctxp y = ctxp x \<and> sys y = sys x \<and> ctx_as y = ctx_as x))
     (\<lambda>_. True) w"
proof -
  have "c \<le> nextp w" if "ctxs w c = Some x" for c x
    using assms that by (auto simp: tux_inv_def threads_ok_def)
  then have "wp any_fault (arch_syshandle P ctx) (\<lambda>_ v. \<forall>c x. ctxs w c = Some x \<longrightarrow> only_result (regs_return (target P)) ctx c w v) (\<lambda>_. True) w"
    using arch_syshandle_result [of _ w P ctx] by (auto simp: wp_def split: outcome.splits)
  then have *: "wp any_fault (arch_syshandle P ctx) (\<lambda>_ v. \<forall>c x. ctxs w c = Some x \<longrightarrow> (\<exists>y r. ctxs v c = Some y \<and>
     regs y = (if c = ctx then (regs x)(regs_return (target P) := r) else regs x) \<and> ctxp y = ctxp x \<and> sys y = sys x \<and> ctx_as y = ctx_as x))
     (\<lambda>_. True) w"
    by (rule wp_mono) (auto simp: only_result_def)
  show ?thesis
    unfolding lfi_syscall_handler_def lfi_tux_syscall_def
    by (intro wp_deref_any) (use * in \<open>simp add: wp_raise split: option.split SysHandlerFn.split split del: if_split\<close>)
qed

theorem registers_kept_witness:
  "wp any_fault (lfi_syscall_handler demo_env 13)
     (\<lambda>_ v. \<exists>y r. ctxs v 13 = Some y \<and> regs y = (\<lambda>_. 0)(regs_return (target demo_env) := r) \<and> sys y = 0x100000000) (\<lambda>_. True) demo_world"
  by (rule wp_mono [OF registers_kept [OF demo_inv]]) (auto dest!: spec [of _ 13], blast)

end
