(* ===== verification/Tux_Confine.thy ===== *)
theory Tux_Confine
  imports Tux_LfiRun Tux_Regs Tux_SysLocks
begin

text \<open>
  The reserved registers of a sandbox over a whole run.  Sandboxed code is checked to leave alone the registers that hold the base
  of its sandbox; this theory shows that the library sets them in every context it makes and
  never changes them, so that they hold the base in every state of a run.  \<open>seat\<close> is what a thread has of its sandbox; \<open>leaves_seat_\<dots>\<close> say which
  calls keep it, \<open>seats_clone\<close> that a new thread gets that of its parent, \<open>procnewfile_alone\<close> that a new process starts with it.
\<close>

section \<open>What is reserved\<close>

text \<open>The registers \<^verbatim>\<open>lfi_regs_init\<close> sets to the base: \<^verbatim>\<open>r14\<close> and the \<^verbatim>\<open>gs\<close> base, or \<^verbatim>\<open>x21\<close> and \<^verbatim>\<open>x18\<close>.\<close>

definition reserved :: "arch \<Rightarrow> reg list" where
  "reserved a = (case a of X64 \<Rightarrow> [R14, Gs] | ARM64 \<Rightarrow> [X 21, X 18])"

text \<open>Of a thread: its process, its reserved registers, and the base of the address space of its process.\<close>

definition seat :: "arch \<Rightarrow> ptr \<Rightarrow> ('x, 'z) tuxw_scheme \<Rightarrow> (ptr \<times> u64 list option \<times> u64 option) option" where
  "seat ar t w = map_option (\<lambda>th. (proc th, map_option (\<lambda>c. map (regs c) (reserved ar)) (ctxs w (p_ctx th)),
     Option.bind (procs w (proc th)) (\<lambda>pr. map_option as_base (aspaces w (p_as pr))))) (threads w t)"

definition boxed :: "arch \<Rightarrow> ptr set \<Rightarrow> ('x, 'z) tuxw_scheme \<Rightarrow> bool" where
  "boxed ar R w \<longleftrightarrow> (\<forall>t q s b. seat ar t w = Some (q, s, b) \<longrightarrow> q \<in> R \<longrightarrow>
     (\<exists>a. b = Some a \<and> s = Some (map (\<lambda>_. a) (reserved ar))))"

lemma boxed_same: "boxed ar R w \<Longrightarrow> (\<And>t. seat ar t v = seat ar t w) \<Longrightarrow> boxed ar R v"
  by (simp add: boxed_def)

interpretation seat: object_view "seat ar t" for ar t
  by unfold_locales (simp_all add: seat_def)

lemma not_reserved [simp]:
  "regs_return ar \<notin> set (reserved ar)" "regs_sp ar \<notin> set (reserved ar)"
  by (cases ar; simp add: reserved_def regs_return_def regs_sp_def regs_return_x64_def regs_return_arm64_def regs_sp_x64_def regs_sp_arm64_def)+

lemma reserved_init: "map (regs_init ar r e sp) (reserved ar) = map r (reserved ar)"
  by (cases ar) (simp_all add: reserved_def regs_init_def regs_init_x64_def regs_init_arm64_def)

lemma reserved_base: "map (lfi_regs_init ar r a s) (reserved ar) = map (\<lambda>_. as_base a) (reserved ar)"
  by (cases ar) (simp_all add: reserved_def lfi_regs_init_def lfi_regs_init_x64_def lfi_regs_init_arm64_def)

section \<open>Calls other than clone\<close>

lemma leaves_seat_proc: "(\<And>pr. p_as (f pr) = p_as pr) \<Longrightarrow> leaves (seat ar t) (set_proc q f)"
  by (auto simp: leaves_def set_proc_def wp_rules seat_def intro!: option.map_cong split: option.split)

lemma leaves_seat_proc_calls [frame_rules]:
  "leaves (seat ar t) (fdassign q0 i0 f0)" "leaves (seat ar t) (fdremove_x P1 q1 i1 f1)" "leaves (seat ar t) (drop_cwd P2 q2)"
  unfolding fdassign_def fdremove_x_def drop_cwd_def Let_def
  by (intro frame_rules leaves_seat_proc; simp)+

lemma leaves_seat_handlers [frame_rules]:
  "leaves (seat ar t) (fdremove P0 q0 i0 f0)" "leaves (seat ar t) (sys_openat P1 q1 i1 b1 v1 vx1)" "leaves (seat ar t) (sys_close P2 q2 i2)"
  "leaves (seat ar t) (sys_chdir P3 q3 b3)" "leaves (seat ar t) (sys_fchdir P4 q4 i4)" "leaves (seat ar t) (sys_brk P5 q5 b5)"
  unfolding fdremove_def sys_openat_def sys_close_def sys_chdir_def sys_fchdir_def sys_brk_def Let_def
  by (intro frame_rules leaves_seat_proc; simp)+

lemma leaves_seat_thread: "(\<And>th. proc (f th) = proc th \<and> p_ctx (f th) = p_ctx th) \<Longrightarrow> leaves (seat ar t) (set_thread q f)"
  by (auto simp: leaves_def set_thread_def wp_rules seat_def split: option.split)

lemma leaves_seat_basic [frame_rules]:
  "leaves (seat ar t) (lfi_ctx_regs k)" "leaves (seat ar t) (store_int a i)" "leaves (seat ar t) nexttid" "leaves (seat ar t) (lfi_ctx_data k1)"
  unfolding lfi_ctx_regs_def store_int_def nexttid_def lfi_ctx_data_def
  by (intro frame_rules; simp add: seat_def)+

lemma seat_ctx_upd:
  assumes "ctxs w k = Some x" "map (regs y) (reserved ar) = map (regs x) (reserved ar)"
  shows "seat ar t (w\<lparr>ctxs := (ctxs w)(k \<mapsto> y)\<rparr>) = seat ar t w"
  using assms by (cases "threads w t") (auto simp: seat_def)

lemma leaves_seat_tpset [frame_rules]: "leaves (seat ar t) (lfi_ctx_tpset k v)"
  by (auto simp: leaves_def lfi_ctx_tpset_def wp_rules seat_ctx_upd split: option.split)

lemma leaves_seat_thread_calls [frame_rules]:
  "leaves (seat ar t) (sys_set_tid_address p a)" "leaves (seat ar t) (sys_arch_prctl p' code b)"
  "leaves (seat ar t) (sys_exit P q e)" "leaves (seat ar t) (sys_exit_group q' e')"
  unfolding sys_set_tid_address_def sys_arch_prctl_def sys_exit_def sys_exit_group_def clearctid_def leave_ctx_def
    lfi_ctx_pause_def lfi_ctx_exit_def
  by (intro frame_rules leaves_seat_thread; simp add: seat_def)+

text \<open>Registers are read and written back with registers changed that are not reserved.\<close>

lemma leaves_seat_regs:
  fixes m :: "(('x, 'z) tuxw_scheme, 'b) prog"
  assumes "\<And>r x. map (g r x) (reserved ar) = map r (reserved ar)" "leaves (seat ar t) m" "leaves ctxs m" "\<And>x. leaves (seat ar t) (n x)"
  shows "leaves (seat ar t) (bindM (lfi_ctx_regs k) (\<lambda>r. bindM m (\<lambda>x. bindM (set_ctx_regs k (g r x)) (\<lambda>_. n x))))"
  unfolding leaves_def
proof
  fix w :: "('x, 'z) tuxw_scheme"
  have step: "wp any_fault (bindM (set_ctx_regs k (g (regs c) x)) (\<lambda>_. n x)) (\<lambda>_ v. seat ar t v = seat ar t w) (\<lambda>v. seat ar t v = seat ar t w) u"
    if "ctxs u k = Some c" "seat ar t u = seat ar t w" for c x and u :: "('x, 'z) tuxw_scheme"
  proof -
    have "seat ar t (u\<lparr>ctxs := (ctxs u)(k \<mapsto> c\<lparr>regs := g (regs c) x\<rparr>)\<rparr>) = seat ar t w"
      using that by (simp add: seat_ctx_upd assms(1))
    then show ?thesis using assms(4) [of x] that unfolding leaves_def
      by (auto simp: set_ctx_regs_def wp_bind wp_deref wp_modify dest!: spec [of _ "u\<lparr>ctxs := (ctxs u)(k \<mapsto> c\<lparr>regs := g (regs c) x\<rparr>)\<rparr>"])
  qed
  have "wp any_fault (bindM m (\<lambda>x. bindM (set_ctx_regs k (g (regs c) x)) (\<lambda>_. n x)))
     (\<lambda>_ v. seat ar t v = seat ar t w) (\<lambda>v. seat ar t v = seat ar t w) w" if "ctxs w k = Some c" for c
  proof (rule wp_bindI)
    show "wp any_fault m (\<lambda>_ v. seat ar t v = seat ar t w \<and> ctxs v = ctxs w) (\<lambda>v. seat ar t v = seat ar t w) w"
      using assms(2,3) unfolding leaves_def wp_def by (auto split: outcome.splits dest!: spec [of _ w])
  qed (use step that in auto)
  then show "wp any_fault (bindM (lfi_ctx_regs k) (\<lambda>r. bindM m (\<lambda>x. bindM (set_ctx_regs k (g r x)) (\<lambda>_. n x))))
     (\<lambda>_ v. seat ar t v = seat ar t w) (\<lambda>v. seat ar t v = seat ar t w) w"
    by (auto simp: lfi_ctx_regs_def wp_bind [of _ "deref _ _"] wp_bind [of _ "bindM _ _"] wp_deref wp_ret split: option.split)
qed

lemma leaves_seat_store:
  assumes "\<And>r. map (g r) (reserved ar) = map r (reserved ar)" "leaves (seat ar t) n"
  shows "leaves (seat ar t) (bindM (lfi_ctx_regs k) (\<lambda>r. bindM (set_ctx_regs k (g r)) (\<lambda>_. n)))"
  using leaves_seat_regs [of "\<lambda>r _. g r" ar t "ret ()" "\<lambda>_. n" k] assms by (simp add: frame_rules)

lemma reserved_upd: "k \<notin> set (reserved ar) \<Longrightarrow> map (r(k := v)) (reserved ar) = map r (reserved ar)"
  by auto

section \<open>Clone\<close>

definition heap_view :: "('x, 'z) tuxw_scheme \<Rightarrow> _" where
  "heap_view w = (threads w, procs w, aspaces w)"

interpretation heap: object_view heap_view
  by unfold_locales (simp_all add: heap_view_def)

lemma leaves_heap_ctx: "leaves heap_view (lfi_ctx_new P as cp mn)"
  unfolding lfi_ctx_new_def sysalloc_def syssetup_def write_u64_def Let_def
  by (intro frame_rules; simp add: heap_view_def)

lemma ctx_new_fresh:
  "wp any_fault (lfi_ctx_new P as cp mn) (\<lambda>k v. heap_view v = heap_view w \<and> (\<forall>c\<le>nextp w. ctx_view c v = ctx_view c w \<and> (k \<noteq> NULL \<longrightarrow> k \<noteq> c)))
     (\<lambda>_. True) w"
proof -
  have "\<forall>c\<le>nextp w. wp any_fault (lfi_ctx_new P as cp mn) (\<lambda>k v. ctx_view c v = ctx_view c w \<and> (k \<noteq> NULL \<longrightarrow> k \<noteq> c)) (\<lambda>_. True) w"
    using view_ctx_new by blast
  then have "wp any_fault (lfi_ctx_new P as cp mn) (\<lambda>k v. \<forall>c\<le>nextp w. ctx_view c v = ctx_view c w \<and> (k \<noteq> NULL \<longrightarrow> k \<noteq> c)) (\<lambda>_. True) w"
    by (auto simp: wp_def split: outcome.splits)
  from wp_leaves [OF leaves_heap_ctx this] show ?thesis by (rule wp_mono) auto
qed

text \<open>The threads of \<open>R\<close> that were there before keep their seat; a new one has the seat of the thread \<open>p\<close>.\<close>

definition seats_kept :: "arch \<Rightarrow> ptr set \<Rightarrow> ptr \<Rightarrow> ('x, 'z) tuxw_scheme \<Rightarrow> ('x, 'z) tuxw_scheme \<Rightarrow> bool" where
  "seats_kept ar R p w v \<longleftrightarrow> (\<forall>t th. threads v t = Some th \<longrightarrow> proc th \<in> R \<longrightarrow> seat ar t v = seat ar t w \<or> seat ar t v = seat ar p w)"

lemma boxed_kept:
  assumes "boxed ar R w" "seats_kept ar R p w v"
  shows "boxed ar R v"
  unfolding boxed_def
proof (intro allI impI)
  fix t q s b assume t: "seat ar t v = Some (q, s, b)" "q \<in> R"
  then obtain th where "threads v t = Some th" "proc th \<in> R" by (auto simp: seat_def)
  with assms(2) have "seat ar t v = seat ar t w \<or> seat ar t v = seat ar p w" unfolding seats_kept_def by blast
  with t obtain u where "seat ar u w = Some (q, s, b)" by metis
  with assms(1) t(2) show "\<exists>a. b = Some a \<and> s = Some (map (\<lambda>_. a) (reserved ar))" unfolding boxed_def by blast
qed

lemma seat_view:
  assumes "threads v t = threads w t" "procs v = procs w" "aspaces v = aspaces w"
    and "\<And>th. threads w t = Some th \<Longrightarrow> ctx_view (p_ctx th) v = ctx_view (p_ctx th) w"
  shows "seat ar t v = seat ar t w"
proof (cases "threads w t")
  case (Some th)
  have "map_option (\<lambda>c. map (regs c) (reserved ar)) (ctxs v (p_ctx th)) = map_option (\<lambda>c. map (regs c) (reserved ar)) (ctxs w (p_ctx th))"
    using assms(4) [OF Some] unfolding ctx_view_def
    by (cases "ctxs v (p_ctx th)"; cases "ctxs w (p_ctx th)") auto
  then show ?thesis using Some assms(1-3) by (simp add: seat_def)
qed (use assms in \<open>simp add: seat_def\<close>)

lemma seats_procnewthread:
  assumes inv: "tux_inv R w" and p: "threads w p = Some th" "proc th \<in> R"
  shows "wp any_fault (procnewthread P p) (\<lambda>_ v. seats_kept ar R p w v) (\<lambda>_. True) w" (is "wp _ _ ?Q _ _")
proof -
  let ?n = "Suc (nextp w)" and ?blank = "\<lparr>p_ctx = NULL, stack = 0, ctid = 0, tid = 0, proc = NULL\<rparr>"
  let ?w = "w\<lparr>nextp := ?n, threads := (threads w)(?n \<mapsto> ?blank)\<rparr>"
  have old: "t \<noteq> ?n \<and> p_ctx u \<le> nextp w" if tu: "threads w t = Some u" "proc u \<in> R" for t u
  proof -
    obtain c where "ctxs w (p_ctx u) = Some c" using thread_live(3) [OF inv tu] by blast
    then have "p_ctx u \<in> dom (ctxs w)" by blast
    then have "p_ctx u \<le> nextp w" using inv unfolding tux_inv_def threads_ok_def by blast
    then show ?thesis using fresh_thread [OF inv, of ?n] tu(1) by auto
  qed
  have null: "NULL \<notin> R" using tux_inv_no_null [OF inv] .
  have tail: "wp any_fault (if k = NULL then bindM (modifyM (\<lambda>w. w\<lparr>threads := (threads w)(?n := None)\<rparr>)) (\<lambda>_. ret NULL)
       else
         bindM (set_thread ?n (\<lambda>n. n\<lparr>p_ctx := k, proc := proc th\<rparr>)) (\<lambda>_.
         bindM nexttid (\<lambda>i.
         bindM (set_thread ?n (\<lambda>n. n\<lparr>tid := i\<rparr>)) (\<lambda>_.
         bindM (lfi_ctx_regs (p_ctx th)) (\<lambda>r.
         bindM (set_ctx_regs k r) (\<lambda>_. ret ?n)))))) ?Q (\<lambda>_. True) v"
    if v: "heap_view v = heap_view ?w \<and> (\<forall>c\<le>nextp ?w. ctx_view c v = ctx_view c ?w \<and> (k \<noteq> NULL \<longrightarrow> k \<noteq> c))" for k v
  proof (cases "k = NULL")
    case True
    have "seats_kept ar R p w (v\<lparr>threads := (threads v)(?n := None)\<rparr>)"
      unfolding seats_kept_def
    proof (intro allI impI disjI1)
      fix t u assume t: "threads (v\<lparr>threads := (threads v)(?n := None)\<rparr>) t = Some u" "proc u \<in> R"
      then have "threads w t = Some u" using v by (auto simp: heap_view_def split: if_splits)
      then show "seat ar t (v\<lparr>threads := (threads v)(?n := None)\<rparr>) = seat ar t w"
        using v old [of t u] t(2) by (intro seat_view) (auto simp: heap_view_def ctx_view_def)
    qed
    then show ?thesis using True by (simp add: wp_rules)
  next
    case False
    note k0 = False
    have "seats_kept ar R p w (v\<lparr>next_tid := j, threads := (threads v)(?n \<mapsto> \<lparr>p_ctx = k, stack = 0, ctid = 0, tid = i, proc = proc th\<rparr>),
        ctxs := (ctxs v)(k \<mapsto> c\<lparr>regs := regs cp\<rparr>)\<rparr>)" (is "seats_kept _ _ _ _ ?F") if cp: "ctxs v (p_ctx th) = Some cp" for i j c cp
      unfolding seats_kept_def
    proof (intro allI impI)
      fix t u assume t: "threads ?F t = Some u" "proc u \<in> R"
      show "seat ar t ?F = seat ar t w \<or> seat ar t ?F = seat ar p w"
      proof (cases "t = ?n")
        case True
        have "ctx_view (p_ctx th) v = ctx_view (p_ctx th) w" using v old [OF p] by (auto simp: ctx_view_def)
        then have "\<exists>x. ctxs w (p_ctx th) = Some x \<and> regs x = regs cp" using cp by (cases "ctxs w (p_ctx th)") (auto simp: ctx_view_def)
        then have "seat ar t ?F = seat ar p w" using True v p(1) by (auto simp: seat_def heap_view_def)
        then show ?thesis ..
      next
        case False
        then have tw: "threads w t = Some u" using t(1) v by (auto simp: heap_view_def split: if_splits)
        have "p_ctx u \<le> nextp ?w" using old [OF tw t(2)] by simp
        with v k0 have "k \<noteq> p_ctx u" by blast
        with tw have "seat ar t ?F = seat ar t w"
          using v old [of t u] t(2) False by (intro seat_view) (auto simp: heap_view_def ctx_view_def)
        then show ?thesis ..
      qed
    qed
    then show ?thesis using False v
      by (auto simp: set_thread_def nexttid_def lfi_ctx_regs_def set_ctx_regs_def wp_rules heap_view_def split: option.splits)
  qed
  have body: "wp any_fault (bindM (lfi_ctx_new P as ?n False) (\<lambda>k.
       if k = NULL then bindM (modifyM (\<lambda>w. w\<lparr>threads := (threads w)(?n := None)\<rparr>)) (\<lambda>_. ret NULL)
       else
         bindM (set_thread ?n (\<lambda>n. n\<lparr>p_ctx := k, proc := proc th\<rparr>)) (\<lambda>_.
         bindM nexttid (\<lambda>i.
         bindM (set_thread ?n (\<lambda>n. n\<lparr>tid := i\<rparr>)) (\<lambda>_.
         bindM (lfi_ctx_regs (p_ctx th)) (\<lambda>r.
         bindM (set_ctx_regs k r) (\<lambda>_. ret ?n))))))) ?Q (\<lambda>_. True) ?w" for as
    by (rule wp_bindI [OF ctx_new_fresh tail])
  have nil: "?Q NULL (w\<lparr>nextp := ?n\<rparr>)" "?Q NULL w" by (simp_all add: seats_kept_def)
  have "p \<noteq> ?n" using old [OF p] by simp
  then show ?thesis
    unfolding procnewthread_def using p nil
    by (auto simp: wp_bind [of _ "malloc P"] wp_bind [of _ "modifyM _"] wp_modify wp_malloc Let_def wp_ret
        simp del: neq0_conv intro!: wp_deref_any body)
qed

interpretation ctxall: object_view ctxs
  by unfold_locales simp_all

lemma leaves_seat_spawn_start:
  "leaves (seat (target P) t) (spawn_start P q p2 flags stk ctidp ctidu ptidu tls)"
  unfolding spawn_start_def
  by (intro frame_rules leaves_seat_thread leaves_seat_regs)
    (simp_all add: reserved_upd frame_rules ctxall.leaves_user_memory)

lemma seats_then:
  assumes "seats_kept ar R p w u" "\<And>t. seat ar t v = seat ar t u"
  shows "seats_kept ar R p w v"
  unfolding seats_kept_def
proof (intro allI impI)
  fix t th assume "threads v t = Some th" "proc th \<in> R"
  then have "map_option fst (seat ar t v) = Some (proc th)" by (simp add: seat_def)
  then have "map_option fst (seat ar t u) = Some (proc th)" using assms(2) by simp
  then obtain th' where "threads u t = Some th'" "proc th' = proc th" by (cases "threads u t") (auto simp: seat_def)
  with assms(1) \<open>proc th \<in> R\<close> have "seat ar t u = seat ar t w \<or> seat ar t u = seat ar p w" unfolding seats_kept_def by auto
  then show "seat ar t v = seat ar t w \<or> seat ar t v = seat ar p w" using assms(2) by simp
qed

lemma seats_leaves:
  assumes "\<And>t. leaves (seat ar t) m" "seats_kept ar R p w u"
  shows "wp any_fault m (\<lambda>_. seats_kept ar R p w) (seats_kept ar R p w) u"
  using assms(1) seats_then [OF assms(2)] unfolding leaves_def wp_def by (fastforce split: outcome.splits)

lemma seats_refl: "seats_kept ar R p w w"
  by (simp add: seats_kept_def)

lemma wp_seats:
  assumes "\<And>t. leaves (seat ar t) m" "\<And>x u. seats_kept ar R p w u \<Longrightarrow> wp any_fault (f x) (\<lambda>_. seats_kept ar R p w) (seats_kept ar R p w) u"
    and "seats_kept ar R p w v"
  shows "wp any_fault (bindM m f) (\<lambda>_. seats_kept ar R p w) (seats_kept ar R p w) v"
  by (rule wp_bindI [OF seats_leaves [OF assms(1,3)] assms(2)])

lemma wp_no_exit: "no_exit m \<Longrightarrow> wp F m Q E w \<Longrightarrow> wp F m Q E' w"
  by (auto simp: no_exit_def wp_def split: outcome.splits)

lemma no_exit_malloc [obeys_rules]: "no_exit (malloc K)" "no_exit (write_mem b bs)"
  by (auto simp: no_exit_def malloc_def write_mem_def modifyM_def Let_def)

lemma no_exit_newthread: "no_exit (procnewthread P p)"
  unfolding procnewthread_def lfi_ctx_new_def sysalloc_def syssetup_def write_u64_def set_thread_def nexttid_def lfi_ctx_regs_def
    set_ctx_regs_def Let_def
  by (intro obeys_rules)

lemma seats_clone:
  assumes "tux_inv R w" "threads w p = Some th" "proc th \<in> R"
  shows "wp any_fault (sys_clone P p flags stk pt ct tls fn) (\<lambda>_. seats_kept (target P) R p w) (seats_kept (target P) R p w) w"
proof -
  let ?K = "seats_kept (target P) R p w"
  have n: "wp any_fault (procnewthread P p) (\<lambda>_. ?K) ?K w"
    by (rule wp_no_exit [OF no_exit_newthread seats_procnewthread [OF assms]])
  have "wp any_fault (bindM (procnewthread P p) (\<lambda>p2. if p2 = NULL then ret (- TUX_EAGAIN)
          else spawn_start P q p2 fl stk ct ctidu ptidu tls)) (\<lambda>_. ?K) ?K w" for q fl ctidu ptidu
    by (rule wp_bindI [OF n]) (auto simp: wp_ret intro: seats_leaves leaves_seat_spawn_start)
  then show ?thesis
    unfolding sys_clone_def spawn_def
    by (auto simp: wp_ret wp_raise seats_refl split: sum.split intro!: wp_deref_any wp_procaddr_any)
qed

text \<open>What a call may do to the seats, from a state \<open>w\<close> on.\<close>

definition call_seats :: "arch \<Rightarrow> ptr set \<Rightarrow> ptr \<Rightarrow> ('x, 'z) tuxw_scheme \<Rightarrow> (('x, 'z) tuxw_scheme, 'a) prog \<Rightarrow> bool" where
  "call_seats ar R p w m \<longleftrightarrow> wp any_fault m (\<lambda>_. seats_kept ar R p w) (seats_kept ar R p w) w"

lemma call_seatsI: "(\<And>t. leaves (seat ar t) m) \<Longrightarrow> call_seats ar R p w m"
  unfolding call_seats_def by (rule seats_leaves [OF _ seats_refl])

lemma call_seats_io: "call_seats ar R p w m \<Longrightarrow> call_seats ar R p w (io m)"
  unfolding call_seats_def io_def by (simp add: wp_bind wp_ret)

lemma seat_simple [frame_rules]:
  "leaves (seat ar t) (sys_fcntl q fd cmd)" "leaves (seat ar t) (sys_sched_setaffinity q i n a)"
  "leaves (seat ar t) (sys_rt_sigaction q sig act0 old k)" "leaves (seat ar t) (sys_rt_sigprocmask q how st ost k')"
  "leaves (seat ar t) (sys_rt_sigreturn q)" "leaves (seat ar t) (sys_getrlimit q res b)"
  unfolding sys_fcntl_def sys_sched_setaffinity_def sys_rt_sigaction_def sys_rt_sigprocmask_def sys_rt_sigreturn_def sys_getrlimit_def
  by (intro frame_rules; simp)+

lemma sys_cases_seats:
  assumes "tux_inv R w" "threads w p = Some th" "proc th \<in> R"
  shows "list_all (\<lambda>(s, m). call_seats (target P) R p w m) (sys_cases P p q a0 a1 a2 a3 a4 a5)"
proof -
  have clone: "call_seats (target P) R p w (sys_clone P p b0 b1 b2 b3 b4 b5)" for b0 b1 b2 b3 b4 b5
    using seats_clone [OF assms] by (simp add: call_seats_def)
  have cl: "call_seats (target P) R p w (case a of X64 \<Rightarrow> sys_clone P p a0 a1 a2 a3 a4 a5 | ARM64 \<Rightarrow> sys_clone P p a0 a1 a2 a4 a3 a5)" for a
    by (cases a) (simp_all add: clone)
  show ?thesis
    unfolding sys_cases_def list.pred_inject prod.case sys_faccessat_def
    by (intro conjI TrueI; (rule call_seats_io)?; (rule cl)?; (rule call_seatsI, (rule frame_rules))?; simp?)
qed

lemma x64_cases_seats: "list_all (\<lambda>(s, m). call_seats ar R p w m) (x64_cases P p q r)"
  unfolding x64_cases_def list.pred_inject prod.case sys_readlink_def sys_access_def sys_unlink_def
    sys_rename_def sys_mkdir_def sys_open_def sys_stat_def sys_lstat_def sys_faccessat_def
  by (intro conjI TrueI; (rule call_seats_io)?; (rule call_seatsI, (rule frame_rules))?; simp?)

section \<open>A system call\<close>

lemma seats_handler:
  assumes "tux_inv R w" "threads w p = Some th" "proc th \<in> R" "ctxs w ctx = Some c" "ctxp c = p"
  shows "wp any_fault (lfi_syscall_handler P ctx) (\<lambda>_. seats_kept (target P) R p w) (seats_kept (target P) R p w) w"
proof -
  let ?K = "seats_kept (target P) R p w"
  have sh: "call_seats (target P) R p w (syshandle P p n a0 a1 a2 a3 a4 a5)" for n a0 a1 a2 a3 a4 a5
  proof -
    have "call_seats (target P) R p w (switch (target P) n (sys_cases P p q a0 a1 a2 a3 a4 a5) (raise AssertFail))" for q
      by (intro switch_cases [where Q = "call_seats (target P) R p w"] sys_cases_seats [OF assms(1-3)]) (simp add: call_seats_def wp_raise)
    then show ?thesis unfolding syshandle_def call_seats_def by (intro wp_deref_any)
  qed
  have finish: "wp any_fault (bindM m (\<lambda>v. bindM (lfi_ctx_regs ctx) (\<lambda>r'. bindM (set_ctx_regs ctx (r'(k := v))) (\<lambda>_. n)))) (\<lambda>_. ?K) ?K w"
    if "call_seats (target P) R p w m" "k \<notin> set (reserved (target P))" "\<And>t. leaves (seat (target P) t) n"
    for m k and n :: "(('a, 'b) tuxw_scheme, unit) prog"
    by (rule wp_bindI [OF that(1) [unfolded call_seats_def]]) (use that(2,3) in \<open>auto intro!: seats_leaves leaves_seat_store reserved_upd\<close>)
  have data: "wp any_fault (bindM (lfi_ctx_data ctx) f) (\<lambda>_. ?K) ?K w" if "wp any_fault (f p) (\<lambda>_. ?K) ?K w" for f :: "_ \<Rightarrow> (('a, 'b) tuxw_scheme, unit) prog"
    using that assms(4,5) by (simp add: lfi_ctx_data_def wp_bind wp_deref wp_ret)
  have x64: "wp any_fault (arch_syshandle_x64 P ctx) (\<lambda>_. ?K) ?K w" if "target P = X64"
  proof -
    have "call_seats (target P) R p w (switch X64 (r Rax) (x64_cases P p q r)
       (syshandle P p (r Rax) (r Rdi) (r Rsi) (r Rdx) (r R10) (r R8) (r R9)))" for q r
      by (intro switch_cases [where Q = "call_seats (target P) R p w"] x64_cases_seats sh)
    then show ?thesis
      unfolding arch_syshandle_x64_def
      by (intro data wp_deref_any wp_ctx_any(2) finish frame_rules) (simp_all add: reserved_def that)
  qed
  have arm64: "wp any_fault (arch_syshandle_arm64 P ctx) (\<lambda>_. ?K) ?K w" if "target P = ARM64"
    using finish [OF sh, of "X 0" "ret ()"] that
    unfolding arch_syshandle_arm64_def
    by (intro data wp_ctx_any(2)) (simp add: reserved_def frame_rules)
  have arch: "wp any_fault (arch_syshandle P ctx) (\<lambda>_. ?K) ?K w"
    unfolding arch_syshandle_def using x64 arm64 arch.exhaust [of "target P"]
    by (cases "target P") (simp_all only: arch.case)
  show ?thesis
    unfolding lfi_syscall_handler_def lfi_tux_syscall_def
    by (intro wp_deref_any) (auto simp: wp_raise arch split: option.split SysHandlerFn.split)
qed

section \<open>A run of confined code\<close>

text \<open>
  A step as in \<open>box_step\<close>, of code that passed the verifier: its own computation
  leaves the reserved registers as they are.
\<close>

inductive sandbox_step :: "('x, 'e) tuxenv_scheme \<Rightarrow> ptr set \<Rightarrow> ('x, 'z) tuxw_scheme \<Rightarrow> ('x, 'z) tuxw_scheme \<Rightarrow> bool"
  for P R where
  Inside: "threads w t = Some th \<Longrightarrow> proc th \<in> R \<Longrightarrow> ctxs w (p_ctx th) = Some c \<Longrightarrow> map r (reserved (target P)) = map (regs c) (reserved (target P)) \<Longrightarrow>
    sandbox_step P R w (w\<lparr>mem := m, ctxs := (ctxs w)(p_ctx th \<mapsto> c\<lparr>tp := v, regs := r\<rparr>)\<rparr>)"
| Elsewhere: "sandbox_step P R w (w\<lparr>ext := e\<rparr>)"
| Call: "threads w t = Some th \<Longrightarrow> proc th \<in> R \<Longrightarrow> lfi_syscall_handler P (p_ctx th) w = Ret () w' \<Longrightarrow> sandbox_step P R w w'"
| Last_call: "threads w t = Some th \<Longrightarrow> proc th \<in> R \<Longrightarrow> lfi_syscall_handler P (p_ctx th) w = Exit code w' \<Longrightarrow> sandbox_step P R w w'"

lemma sandbox_box: "sandbox_step P R w w' \<Longrightarrow> box_step P R w w'"
  by (induction rule: sandbox_step.induct) (auto intro: box_step.intros)

lemma sandbox_run_box: "(sandbox_step P R)\<^sup>*\<^sup>* w w' \<Longrightarrow> (box_step P R)\<^sup>*\<^sup>* w w'"
  by (rule mono_rtranclp [rule_format]) (auto intro: sandbox_box)

lemma call_boxed:
  assumes "tux_inv R w" "boxed (target P) R w" "threads w t = Some th" "proc th \<in> R"
  shows "wp any_fault (lfi_syscall_handler P (p_ctx th)) (\<lambda>_. boxed (target P) R) (boxed (target P) R) w"
proof -
  obtain c where "ctxs w (p_ctx th) = Some c" "ctxp c = t" using thread_live(3) [OF assms(1,3,4)] by blast
  from seats_handler [OF assms(1,3,4) this] show ?thesis
    by (rule wp_mono) (blast intro: boxed_kept [OF assms(2)])+
qed

lemma sandbox_step_boxed:
  assumes "tux_inv R w" "boxed (target P) R w" "sandbox_step P R w w'"
  shows "boxed (target P) R w'"
  using assms(3)
proof cases
  case (Inside t th c r v m)
  then have "seat (target P) u w' = seat (target P) u w" for u
    using seat_ctx_upd [of w "p_ctx th" c "c\<lparr>tp := v, regs := r\<rparr>" "target P" u] by (simp add: seat_def)
  then show ?thesis by (rule boxed_same [OF assms(2)])
next
  case (Elsewhere e)
  then show ?thesis by (intro boxed_same [OF assms(2)]) simp
next
  case (Call t th)
  then show ?thesis using call_boxed [OF assms(1,2) Call(1,2)] by (simp add: wp_def)
next
  case (Last_call t th code)
  then show ?thesis using call_boxed [OF assms(1,2) Last_call(1,2)] by (simp add: wp_def)
qed

lemma run_boxed:
  assumes "fs_open_safe P" "tux_inv R w" "boxed (target P) R w" "(sandbox_step P R)\<^sup>*\<^sup>* w v"
  shows "tux_inv R v \<and> boxed (target P) R v"
  using assms(4)
proof induction
  case (step y z)
  then show ?case using sandbox_step_boxed box_step_inv [OF assms(1) _ sandbox_box] by blast
qed (use assms in simp)

lemma boxed_reserved:
  assumes "tux_inv R w" "boxed ar R w" "threads w t = Some th" "proc th \<in> R"
  shows "\<exists>c pr a. ctxs w (p_ctx th) = Some c \<and> procs w (proc th) = Some pr \<and> aspaces w (p_as pr) = Some a \<and>
     (\<forall>k\<in>set (reserved ar). regs c k = as_base a)"
  using assms(2-4) unfolding boxed_def seat_def
  by (fastforce simp: map_option_case split: option.splits bind_splits)

section \<open>Loading a program\<close>

text \<open>The loader and the set-up of the stack change memory and the world outside only.\<close>

context object_view
begin

lemma leaves_image [frame_rules]:
  "leaves obs (bufread b0 n0 off0)" "leaves obs (sanitize P1 a1 n1 pt1)" "leaves obs (write_u64 a2 v2)" "leaves obs (as_cstring bs3)"
  "leaves obs (perf_output_jit_interface_file bs4 n4 off4)" "leaves obs (bufreadfile P5 t5 path5)"
  unfolding bufread_def sanitize_def write_u64_def as_cstring_def perf_output_jit_interface_file_def bufreadfile_def Let_def
  by (intro frame_rules)+

lemma leaves_segment [frame_rules]:
  "leaves obs (bufreadelfseg P0 s0 a0 off0 e0 po0 n0 pt0 b0 k0)" "leaves obs (load_segment P1 s1 i1 eh1 eb1 b1 k1 ph1 st1)"
  unfolding load_segment_def bufreadelfseg_def Let_def
  by (intro frame_rules)+

lemma leaves_load_loop [frame_rules]: "leaves obs (load_loop P s i eh eb b k phs st)"
  by (induction phs arbitrary: st) (simp_all add: frame_rules)

lemma leaves_find_interp [frame_rules]: "leaves obs (find_interp P b phs)"
  by (induction phs) (simp_all add: frame_rules)

lemma leaves_argv [frame_rules]:
  "leaves obs (argv_strings top0 i0 ss a0)" "leaves obs (argv_pointers s1 top1 a1 i1 ps)"
  by (induction ss arbitrary: i0 a0) (simp_all add: frame_rules Let_def, induction ps arbitrary: i1, simp_all add: frame_rules)

lemma leaves_loader [frame_rules]:
  "leaves obs (load P0 s0 b0 base0 k0)" "leaves obs (elfinterp P1 b1)" "leaves obs (stacksetup q2 av2 li2)"
  unfolding load_def elfinterp_def stacksetup_def Let_def
  by (intro frame_rules)+

lemma leaves_elfload [frame_rules]: "leaves obs (elfload P p b ib)"
  unfolding elfload_def lfi_proc_loadelf_def Let_def
  by (intro frame_rules)+

end

interpretation threadv: object_view threads
  by unfold_locales simp_all

lemma leaves_threads_setup [frame_rules]:
  "leaves threads (set_ctx_regs k0 r0)" "leaves threads (lfi_ctx_regs k1)" "leaves threads (set_proc q2 f2)" "leaves threads (fdassign q3 i3 a3)"
  "leaves threads (set_tux t4 f4)" "leaves threads (lfi_sys_handler pl5 h5)" "leaves threads (set_fdfile a6 f6)"
  unfolding set_ctx_regs_def lfi_ctx_regs_def set_proc_def fdassign_def set_tux_def lfi_sys_handler_def set_fdfile_def
  by (intro frame_rules; simp)+

lemma leaves_threads_program [frame_rules]:
  "leaves threads (procsetup P p b ib av)" "leaves threads (procfile P' p' b' av')" "leaves threads (fdinit tux t)"
  "leaves threads (lfi_tux_new P2 pl2 o2)" "leaves threads (lfi_new_plat P3 k3)"
  unfolding procsetup_def procfile_def fdinit_def lfi_tux_new_def lfi_new_plat_def Let_def
  by (intro frame_rules; simp)+

lemma leaves_seat_procsetup: "leaves (seat (target P) t) (procsetup P p b ib av)"
  unfolding procsetup_def Let_def
  by (intro frame_rules leaves_seat_store leaves_seat_proc; simp add: reserved_init)

lemma leaves_seat_program [frame_rules]:
  "leaves (seat (target P) t) (procfile P p b av)" "leaves (seat ar t) (fdinit tux q)"
  unfolding procfile_def fdinit_def
  by (intro frame_rules leaves_seat_procsetup)+

text \<open>The one thread of a new process sits in its sandbox.\<close>

definition alone :: "arch \<Rightarrow> ptr \<Rightarrow> ('x, 'z) tuxw_scheme \<Rightarrow> bool" where
  "alone ar p w \<longleftrightarrow> dom (threads w) = {p} \<and> (\<exists>q a. seat ar p w = Some (q, Some (map (\<lambda>_. a) (reserved ar)), Some a))"

lemma alone_boxed: "alone ar p w \<Longrightarrow> boxed ar R w"
  unfolding boxed_def
proof (intro allI impI)
  fix t q s b assume "alone ar p w" and t: "seat ar t w = Some (q, s, b)" "q \<in> R"
  then obtain q' a where a: "dom (threads w) = {p}" "seat ar p w = Some (q', Some (map (\<lambda>_. a) (reserved ar)), Some a)"
    unfolding alone_def by blast
  from t(1) have "t \<in> dom (threads w)" by (auto simp: seat_def)
  with a t(1) show "\<exists>a. b = Some a \<and> s = Some (map (\<lambda>_. a) (reserved ar))" by auto
qed

lemma alone_kept:
  assumes "leaves threads m" "leaves (seat ar p) m" "alone ar p w"
  shows "wp any_fault m (\<lambda>_. alone ar p) (\<lambda>_. True) w"
  using assms by (auto simp: leaves_def alone_def wp_def split: outcome.splits dest!: spec [of _ w])

lemma leaves_keeps: "leaves obs m \<Longrightarrow> wp any_fault m (\<lambda>_ v. obs v = obs w) (\<lambda>_. True) w"
  unfolding leaves_def by (auto elim!: wp_mono)

lemma as_new_made:
  "wp any_fault (lfi_as_new P pl) (\<lambda>as v. threads v = threads w \<and> procs v = procs w \<and> (as \<noteq> NULL \<longrightarrow> (\<exists>a. aspaces v as = Some a))) (\<lambda>_. True) w"
  by (auto simp: lfi_as_new_def wp_rules wp_kcall Let_def split: option.split)

lemma wp_ifI: "(b \<Longrightarrow> wp F m Q E w) \<Longrightarrow> (\<not> b \<Longrightarrow> wp F n Q E w) \<Longrightarrow> wp F (if b then m else n) Q E w"
  by simp

lemma ctx_new_seat:
  "wp any_fault (lfi_ctx_new P as cp mn) (\<lambda>k v. heap_view v = heap_view w \<and> (k \<noteq> NULL \<longrightarrow> (\<exists>c a. ctxs v k = Some c \<and> aspaces w as = Some a \<and>
     map (regs c) (reserved (target P)) = map (\<lambda>_. as_base a) (reserved (target P))))) (\<lambda>_. True) w"
proof -
  let ?Q = "\<lambda>k v. k \<noteq> NULL \<longrightarrow> (\<exists>c a. ctxs v k = Some c \<and> aspaces w as = Some a \<and>
     map (regs c) (reserved (target P)) = map (\<lambda>_. as_base a) (reserved (target P)))"
  have tail: "wp any_fault (bindM m (\<lambda>s. if e \<and> s = 0 then ret NULL
       else bindM (modifyM (\<lambda>w. w\<lparr>ctxs := (ctxs w)(n \<mapsto>
                \<lparr>tp = 0, regs = lfi_regs_init (target P) (\<lambda>_. 0) a s, ctxp = cp, sys = s, ctx_as = as\<rparr>)\<rparr>)) (\<lambda>_. ret n))) ?Q (\<lambda>_. True) u"
    if "aspaces w as = Some a" for m e n a u
    using that by (intro wp_bindI [OF wp_any, where m = m]) (auto simp: wp_rules reserved_base simp del: map_eq_conv)
  have "wp any_fault (lfi_ctx_new P as cp mn) ?Q (\<lambda>_. True) w"
    unfolding lfi_ctx_new_def
  proof (rule wp_bindI [where R = "\<lambda>_ u. aspaces u = aspaces w"])
    show "wp any_fault (malloc P) (\<lambda>_ u. aspaces u = aspaces w) (\<lambda>_. True) w" by (simp add: wp_malloc)
  qed (intro wp_ifI wp_deref_any tail; simp add: wp_ret)
  from wp_leaves [OF leaves_heap_ctx this] show ?thesis by (rule wp_mono) auto
qed

lemma procnewempty_alone:
  assumes "threads w = Map.empty"
  shows "wp any_fault (procnewempty P) (\<lambda>p v. p \<noteq> NULL \<longrightarrow> (\<exists>th. threads v = [p \<mapsto> th] \<and> proc th \<in> dom (procs v))) (\<lambda>_. True) w"
  using assms by (auto simp: procnewempty_def nexttid_def wp_rules wp_malloc Let_def)

text \<open>The parts of \<^verbatim>\<open>procnewfile\<close>: the program, the links of process and thread to their sandbox, the context.\<close>

abbreviation "boot_program P tux b av p q as k \<equiv>
  bindM (procfile P p b av) (\<lambda>ok. if \<not> ok then
    bindM (lfi_ctx_free k) (\<lambda>_. bindM (lfi_as_free as) (\<lambda>_. bindM (procfree p) (\<lambda>_. ret NULL)))
  else bindM (fdinit tux q) (\<lambda>_. ret p))"

abbreviation "boot_links P tux b av p q as k \<equiv>
  bindM (lfi_as_info as) (\<lambda>i.
  bindM (set_proc q (\<lambda>pr. pr\<lparr>p_as := as, p_info := i\<rparr>)) (\<lambda>_.
  bindM (set_thread p (\<lambda>n. n\<lparr>p_ctx := k\<rparr>)) (\<lambda>_.
  boot_program P tux b av p q as k)))"

abbreviation "boot_context P tux b av p q as \<equiv>
  bindM (lfi_ctx_new P as p True) (\<lambda>k.
  if k = NULL then bindM (lfi_as_free as) (\<lambda>_. bindM (procfree p) (\<lambda>_. ret NULL))
  else boot_links P tux b av p q as k)"

lemma boot_program_alone:
  assumes "alone (target P) p w"
  shows "wp any_fault (boot_program P tux b av p q as k) (\<lambda>p v. p \<noteq> NULL \<longrightarrow> alone (target P) p v) (\<lambda>_. True) w"
  by (rule wp_bindI [OF alone_kept [OF leaves_threads_program(2) leaves_seat_program(1) assms]])
    (auto simp: wp_rules lfi_ctx_free_def lfi_as_free_def procfree_def wp_bind [of _ "fdinit _ _"]
      intro!: wp_mono [OF alone_kept [OF leaves_threads_program(3) leaves_seat_program(2)]] split: option.split)

definition based :: "arch \<Rightarrow> ptr \<Rightarrow> ptr \<Rightarrow> ('x, 'z) tuxw_scheme \<Rightarrow> bool" where
  "based ar as k w \<longleftrightarrow> (\<exists>c a. ctxs w k = Some c \<and> aspaces w as = Some a \<and> map (regs c) (reserved ar) = map (\<lambda>_. as_base a) (reserved ar))"

lemma boot_links_alone:
  assumes "threads w = [p \<mapsto> th]" "based (target P) as k w"
  shows "wp any_fault (boot_links P tux b av p (proc th) as k) (\<lambda>p v. p \<noteq> NULL \<longrightarrow> alone (target P) p v) (\<lambda>_. True) w"
proof -
  have "alone (target P) p (w\<lparr>procs := (procs w)(proc th \<mapsto> pr\<lparr>p_as := as, p_info := i\<rparr>), threads := (threads w)(p \<mapsto> th\<lparr>p_ctx := k\<rparr>)\<rparr>)" for pr i
    using assms by (auto simp: alone_def seat_def based_def split: if_splits)
  from boot_program_alone [OF this] show ?thesis using assms(1)
    by (auto simp: lfi_as_info_def set_proc_def set_thread_def wp_bind [of _ "deref _ _"] wp_bind [of _ "modifyM _"] wp_bind [of _ "bindM _ _"]
        wp_deref wp_modify wp_ret split: option.split)
qed

lemma boot_context_alone:
  assumes "threads w = [p \<mapsto> th]"
  shows "wp any_fault (boot_context P tux b av p (proc th) as) (\<lambda>p v. p \<noteq> NULL \<longrightarrow> alone (target P) p v) (\<lambda>_. True) w"
proof (rule wp_bindI [OF ctx_new_seat], rule wp_ifI)
  show "wp any_fault (boot_links P tux b av p (proc th) as k) (\<lambda>p v. p \<noteq> NULL \<longrightarrow> alone (target P) p v) (\<lambda>_. True) u"
    if "k \<noteq> NULL" "heap_view u = heap_view w \<and> (k \<noteq> NULL \<longrightarrow> (\<exists>c a. ctxs u k = Some c \<and> aspaces w as = Some a \<and>
     map (regs c) (reserved (target P)) = map (\<lambda>_. as_base a) (reserved (target P))))" for k u
    by (rule boot_links_alone) (use that assms in \<open>auto simp: heap_view_def based_def\<close>)
qed (simp add: lfi_as_free_def wp_bind wp_raise)

lemma procnewfile_alone:
  assumes "threads w = Map.empty"
  shows "wp any_fault (procnewfile P tux b av) (\<lambda>p v. p \<noteq> NULL \<longrightarrow> alone (target P) p v) (\<lambda>_. True) w"
  unfolding procnewfile_def
proof (rule wp_bindI [OF procnewempty_alone [OF assms]], intro wp_ifI wp_deref_any, goal_cases)
  case (2 p u th)
  then have u: "threads u = [p \<mapsto> th]" by auto
  show ?case
    by (rule wp_bindI [OF leaves_keeps [OF leaves_threads_setup(3)]], intro wp_deref_any, rule wp_bindI [OF as_new_made], intro wp_ifI)
      (simp add: procfree_def wp_rules, rule boot_context_alone, simp add: u)
qed (simp add: wp_ret)

section \<open>The command line tool\<close>

lemma enter_alone: "alone ar p w \<Longrightarrow> wp any_fault (lfi_tux_proc_run_enter p) (\<lambda>_. alone ar p) (\<lambda>_. True) w"
  unfolding lfi_tux_proc_run_enter_def lfi_ctx_run_enter_def
  by (intro alone_kept frame_rules) (simp_all add: seat_def)

lemma main_setup_alone:
  assumes "threads w = Map.empty"
  shows "wp any_fault (main_setup P pgsz args) (\<lambda>r v. \<forall>p. r = Inr p \<longrightarrow> alone (target P) p v) (\<lambda>_. True) w" (is "wp _ _ ?Q _ _")
proof -
  have run: "wp any_fault (bindM (lfi_tux_proc_new P tux f av) (\<lambda>p.
     if p = NULL then ret (Inl 1) else bindM (lfi_tux_proc_run_enter p) (\<lambda>_. ret (Inr p)))) ?Q (\<lambda>_. True) u" if "threads u = Map.empty" for tux f av u
    unfolding lfi_tux_proc_new_def
    by (rule wp_bindI [OF procnewfile_alone [OF that]])
      (auto simp: wp_ret wp_bind [of _ "lfi_tux_proc_run_enter _"] intro!: wp_mono [OF enter_alone])
  have "wp any_fault (bindM (lfi_new_plat P k) (\<lambda>plat. bindM (lfi_tux_new P plat topts) (\<lambda>tux.
     bindM (bufreadfile P tux path) (\<lambda>f. if data f = None then ret (Inl 1) else
     bindM (lfi_tux_proc_new P tux f av) (\<lambda>p.
     if p = NULL then ret (Inl 1) else bindM (lfi_tux_proc_run_enter p) (\<lambda>_. ret (Inr p))))))) ?Q (\<lambda>_. True) w" for k topts path av
    by (intro wp_bindI [OF leaves_keeps [OF leaves_threads_program(5)]] wp_bindI [OF leaves_keeps [OF leaves_threads_program(4)]]
        wp_bindI [OF leaves_keeps [OF threadv.leaves_image(6)]] wp_ifI run) (auto simp: wp_ret assms)
  then show ?thesis by (simp add: main_setup_def Let_def wp_ret wp_raise)
qed



end
