(* ===== verification/Tux_FileProps.thy ===== *)
theory Tux_FileProps
  imports Tux_FDSpec
begin

text \<open>
  Functional properties of the file system calls: what opening on a full table and a
  failing \<^verbatim>\<open>chdir\<close> do, that \<^verbatim>\<open>pread64\<close> keeps the offset, and that the vectored write is
  the sequence of writes of the elements.
\<close>

section \<open>Opening on a full table\<close>

text \<open>C40. On a full table \<^verbatim>\<open>openat\<close> returns an error; when the error is \<^verbatim>\<open>-EMFILE\<close> the file it
  had opened is left behind: nothing refers to the object, its count wrapped around to
  \<^verbatim>\<open>2^64 - 1\<close> when it was released, and its host descriptor is still open.\<close>

theorem open_full_leaks:
  assumes fs: "fs_open_safe P" and inv: "tux_inv R w" and p: "p \<in> R" and full: "fd_full (fds w p)"
    and run: "sys_openat P p dirfd pathp flags mode w = Ret r w'"
  shows "r < 0 \<and> (r = - TUX_EMFILE \<longrightarrow> (\<exists>f v. fdfiles w' f = Some v \<and> refs v = - 1 \<and> refcount w' f = 0 \<and>
     host_of w' f \<in> dom (hostfiles w')))"
proof -
  have "wp no_fault (sys_openat P p dirfd pathp flags mode) (\<lambda>r w'. r < 0 \<and> (r = - TUX_EMFILE \<longrightarrow>
      (\<exists>f v. fdfiles w' f = Some v \<and> refs v = - 1 \<and> refcount w' f = 0 \<and> host_of w' f \<in> dom (hostfiles w')))) (\<lambda>_. False) w"
  proof (rule openat_rule [OF fs inv p], goal_cases)
    case (2 f w')
    obtain pr where pr: "p \<noteq> NULL" "procs w' p = Some pr" using tux_inv_proc [OF 2(1) p] by blast
    obtain v where v: "f \<noteq> NULL" "fdfiles w' f = Some v" "refs v = 0" "refcount w' f = 0"
      using 2(2) by (auto simp: fresh_obj_def)
    let ?w = "w'\<lparr>fdfiles := (fdfiles w')(f \<mapsto> v\<lparr>refs := - 1\<rparr>)\<rparr>"
    have rel: "fdrelease P f p w' = Ret () ?w" using fdrelease_shared [OF v(1,2)] v(3) by simp
    have "fd_full (fd_entry (ft_files (fdtable pr)))" using full 2(3) pr by (simp add: fds_def)
    then have "int TUX_NOFILE \<le> fdalloc_loop (ft_files (fdtable pr)) 0"
      using fd_entry_alloc [OF inv_table [OF 2(1) pr(2)]] by (auto simp: fd_full_def lowest_free_def split: if_splits)
    moreover have "host_of ?w f \<in> dom (hostfiles ?w)"
      using objs_ok_obj [OF tux_inv_objsD [OF 2(1)] v(2)] v(2) host_of_cong [of ?w f w'] by simp
    moreover have "refcount ?w f = 0" using v(4) refcount_frame [of ?w w'] by simp
    ultimately show ?case
      using pr rel by (auto simp: wp_def fdalloc_def run_simps Let_def)
  qed auto
  from wp_Ret [OF this run] show ?thesis .
qed

section \<open>The current directory\<close>

text \<open>\<^verbatim>\<open>chdir\<close> to a path that cannot be opened returns 0, and the process is left without
  a current directory: the next relative path is taken from the host's own directory.\<close>

lemma chdir_failed_open:
  fixes w :: "('x, 'z) tuxw_scheme"
  assumes inv: "tux_inv R w" and p: "p \<in> R" and path: "procpath p s w = Ret (Some path) w"
    and fails: "\<And>dfd fl md x. fst (k_openat P dfd path fl md x) < 0"
  shows "wp no_fault (sys_chdir P p s)
    (\<lambda>r w'. r = 0 \<and> map_option cwd (procs w' p) = Some \<lparr>dir_file = NULL, dir_fd = NULL\<rparr>) (\<lambda>_. False) w"
proof -
  obtain pr where pr: "p \<noteq> NULL" "procs w p = Some pr" using tux_inv_proc [OF inv p] by blast
  have null: "wp any_fault (host_openat P d path fl md) (\<lambda>h _. h = NULL) (\<lambda>_. False) w" for d fl md
    using fails by (simp add: host_openat_def wp_rules fd_or_cwd_def Let_def split: option.split)
  have open': "wp no_fault (host_openat P (dir_file (cwd pr)) path fl md) (\<lambda>h w1. tux_inv R w1 \<and> h = NULL) (\<lambda>_. False) w" for fl md
    using host_openat_spec [OF inv cwd_live [OF inv pr(2)], of no_fault P path fl md "\<lambda>_. False"] null [of "dir_file (cwd pr)" fl md]
    by (auto simp: wp_def split: outcome.splits)
  have "wp no_fault (bindM (host_openat P (dir_file (cwd pr)) path (TUX_O_DIRECTORY OR TUX_O_PATH) 0) (\<lambda>hf.
         bindM (drop_cwd P p) (\<lambda>_.
         bindM (set_proc p (\<lambda>pr. pr\<lparr>cwd := (cwd pr)\<lparr>dir_file := hf\<rparr>\<rparr>)) (\<lambda>_. ret 0))))
     (\<lambda>r w'. r = 0 \<and> map_option cwd (procs w' p) = Some \<lparr>dir_file = NULL, dir_fd = NULL\<rparr>) (\<lambda>_. False) w"
  proof (rule wp_bindI [OF open'], elim conjE, hypsubst)
    fix w1 :: "('x, 'z) tuxw_scheme" assume "tux_inv R w1"
    then show "wp no_fault (bindM (drop_cwd P p) (\<lambda>_.
         bindM (set_proc p (\<lambda>pr. pr\<lparr>cwd := (cwd pr)\<lparr>dir_file := NULL\<rparr>\<rparr>)) (\<lambda>_. ret 0)))
     (\<lambda>r w'. r = 0 \<and> map_option cwd (procs w' p) = Some \<lparr>dir_file = NULL, dir_fd = NULL\<rparr>) (\<lambda>_. False) w1"
      by (intro wp_bindI [OF drop_cwd_spec [OF _ p]])
        (use pr in \<open>auto simp: cwd_dropped_def Let_def set_proc_def wp_rules\<close>)
  qed
  then show ?thesis
    using pr path by (simp add: sys_chdir_def wp_def bindM_def [of "procpath p s"] bindM_def [of "deref procs p"] deref_def)
qed

section \<open>Positioned reads\<close>

lemma fds_live:
  assumes inv: "tux_inv R w" and p: "p \<in> R" and f: "fds w p fd = Some f"
  obtains v fl where "fdget p fd w = Ret f w" "f \<noteq> NULL" "fdfiles w f = Some v" "fns_set v" "dev v \<noteq> NULL"
    "files w (dev v) = Some fl" "f_file fl = host_of w f" "host_of w f \<noteq> NULL"
proof -
  obtain pr where pr: "p \<noteq> NULL" "procs w p = Some pr" using tux_inv_proc [OF inv p] by blast
  have run: "fdget p fd w = Ret f w" "f \<noteq> NULL"
    using f pr by (auto simp: fds_def fd_entry_def fdget_def fdhas_x_def run_simps split: if_splits)
  from wp_Ret [OF fdget_spec [OF inv p] run(1)] run that show thesis by metis
qed

text \<open>C28. \<^verbatim>\<open>pread64\<close> leaves the file offset where it was, although it seeks and reads:
  for a host file whose offset \<open>pos\<close> behaves under \<^verbatim>\<open>lseek\<close> as documented.\<close>

theorem pread64_keeps_offset:
  assumes inv: "tux_inv R w" and p: "p \<in> R" and f: "fds w p fd = Some f"
    and h: "hostfiles w (host_of w f) = Some hf"
    and cur: "\<And>x. fst (k_lseek P (hf_fd hf) 0 SEEK_CUR x) = pos x"
    and set: "\<And>x off. 0 \<le> off \<Longrightarrow> pos (snd (k_lseek P (hf_fd hf) off SEEK_SET x)) = off"
    and range: "0 \<le> pos (ext w)" "pos (ext w) < 2 ^ 63"
  shows "wp only_assert (sys_pread64 P p fd buf n off) (\<lambda>_ w'. pos (ext w') = pos (ext w)) (\<lambda>_. False) w"
proof -
  obtain v fl where v: "fdget p fd w = Ret f w" "f \<noteq> NULL" "fdfiles w f = Some v" "fns_set v" "dev v \<noteq> NULL"
    "files w (dev v) = Some fl" "f_file fl = host_of w f" "host_of w f \<noteq> NULL"
    by (rule fds_live [OF inv p f])
  obtain b where b: "procbuf p buf n w = Ret b w" using user_memory(1) [OF inv p] by blast
  have s: "sint (word_of_int (pos (ext w)) :: u64) = pos (ext w)"
    using range by (simp add: sint_sbintrunc' signed_take_bit_int_eq_self)
  have cur': "r = pos x" if "k_lseek P (hf_fd hf) 0 SEEK_CUR x = (r, y)" for r x y using cur [of x] that by simp
  have set': "pos y = pos (ext w)" if "k_lseek P (hf_fd hf) (pos (ext w)) SEEK_SET x = (r, y)" for r x y
    using set [OF range(1), of x] that by simp
  show ?thesis
    using v h b range s unfolding fns_set_def
    by (auto simp: wp_def sys_pread64_def run_simps call_lseek_def call_read_def filelseek_def fileread_def filef_def
        host_seek_def host_read_def seekwhence_def kcall_def return_count_def return_tuxerr_def write_mem_def
        split: prod.split dest!: cur' dest: set')
qed

section \<open>Vectored writes\<close>

text \<open>The elements of a vector, all read at once, and their writes one after the other.\<close>

definition iovs :: "memory \<Rightarrow> u64 \<Rightarrow> nat \<Rightarrow> (u64 \<times> u64) list" where
  "iovs m iov n = map (\<lambda>i. iov_at m (iov + 16 * of_nat i)) [0..<n]"

fun write_all :: "('x, 'e) tuxenv_scheme \<Rightarrow> ptr \<Rightarrow> int \<Rightarrow> (u64 \<times> u64) list \<Rightarrow> int \<Rightarrow> (('x, 'z) tuxw_scheme, int) prog" where
  "write_all P p fd [] tot = ret tot"
| "write_all P p fd (v # vs) tot =
     bindM (sys_write P p fd (fst v) (snd v)) (\<lambda>r. if r < 0 then ret r else write_all P p fd vs (add_ssize tot r))"

lemma kcall_mem: "leaves mem (kcall f)"
  by (simp add: leaves_def wp_kcall)

lemma call_write_eq: "call_write P fn d buf n = filewrite P d buf n"
  by (cases fn) (simp add: call_write_def)

lemma write_keeps_memory: "leaves mem (sys_write P p fd buf n)"
  unfolding sys_write_def call_write_eq filewrite_def filef_def host_write_def return_count_def return_tuxerr_def
    procbuf_def lfi_as_fmptr_def fdget_def
  by (intro frame_rules kcall_mem)

lemma iovs_Suc: "iovs m iov (Suc n) = iov_at m iov # iovs m (iov + 16) n"
  by (simp add: iovs_def upt_rec [of 0 "Suc n"] map_Suc_upt [symmetric] o_def algebra_simps del: upt_Suc)

lemma iov_loop_write_all: "mem w = m \<Longrightarrow> iov_loop (sys_write P p fd) iov n tot w = write_all P p fd (iovs m iov n) tot w"
proof (induction n arbitrary: iov tot w)
  case 0
  then show ?case by (simp add: iovs_def)
next
  case (Suc n)
  have "mem w' = m" if "sys_write P p fd a l w = Ret r w'" for a l r w'
    using leaves_Ret [OF write_keeps_memory that] Suc.prems by simp
  then show ?case
    using Suc by (auto simp: iovs_Suc bindM_def gets_def ret_def split: outcome.split)
qed

text \<open>C27. \<^verbatim>\<open>writev\<close> is the sequence of the writes of its elements, as they were when the call was
  made, up to the first that fails; the result is the sum of the counts or the error.\<close>

theorem writev_is_writes:
  assumes "p \<noteq> NULL" "procs w p = Some pr" "p_as pr \<noteq> NULL" "aspaces w (p_as pr) = Some a" "minaddr a \<noteq> 0"
  shows "sys_writev P p fd iov cnt w =
    (if minaddr a \<le> iov \<and> iov < maxaddr a \<and> iov mod 8 = 0
     then write_all P p fd (iovs (mem w) iov (unat cnt)) 0 w else Ret (- TUX_EFAULT) w)"
  using assms iov_loop_write_all [of w "mem w"]
  by (auto simp: sys_writev_def procbufalign_def lfi_as_fmptr_def run_simps)

section \<open>Witnesses\<close>

text \<open>The concrete process with every descriptor on the standard input.\<close>

definition demo_full :: "int tuxw" where
  "demo_full = demo_world\<lparr>fdfiles := [5 \<mapsto> demo_file 4 129, 7 \<mapsto> demo_file 6 1, 9 \<mapsto> demo_file 8 1],
     procs := [14 \<mapsto> demo_proc\<lparr>fdtable := \<lparr>ft_files = replicate 128 5\<rparr>\<rparr>]\<rparr>"

lemma demo_full_sel [simp]:
  "fdfiles demo_full = [5 \<mapsto> demo_file 4 129, 7 \<mapsto> demo_file 6 1, 9 \<mapsto> demo_file 8 1]"
  "procs demo_full = [14 \<mapsto> demo_proc\<lparr>fdtable := \<lparr>ft_files = replicate 128 5\<rparr>\<rparr>]"
  "files demo_full = files demo_world" "hostfiles demo_full = hostfiles demo_world" "nextp demo_full = 15"
  "tuxes demo_full = tuxes demo_world" "aspaces demo_full = aspaces demo_world" "plats demo_full = plats demo_world"
  "threads demo_full = threads demo_world" "ctxs demo_full = ctxs demo_world" "mem demo_full = mem demo_world"
  by (simp_all add: demo_full_def)

lemma count_replicate_same: "count_list (replicate n x) x = n"
  by (induction n) simp_all

lemma demo_full_inv: "tux_inv {14} demo_full"
proof -
  have rc: "refcount demo_full f = (if f = 5 then 129 else if f \<in> {7, 9} then 1 else 0)" if "f \<noteq> NULL" for f
    using that by (auto simp: refcount_def proc_refs_def tux_refs_def demo_proc_def demo_tux_def
        count_replicate_other count_replicate_same)
  have host: "host_of demo_full = host_of demo_world"
    by (rule ext) (auto simp: host_of_def demo_file_def)
  have pin: "pinned demo_full = {5, 7, 9}" using demo_pinned pinned_frame [of demo_full demo_world] by simp
  have cw: "cwd_hosts demo_full = {}"
    by (auto simp: cwd_hosts_def cwds_def demo_proc_def split: if_splits)
  have 1: "f \<noteq> NULL \<Longrightarrow> 0 < refcount demo_full f \<Longrightarrow>
     \<exists>v. fdfiles demo_full f = Some v \<and> unat (refs v) = refcount demo_full f" for f
    by (auto simp: rc demo_file_def split: if_splits)
  have 2: "fdfiles demo_full f = Some v \<Longrightarrow> f \<in> {5, 7, 9} \<and> v \<in> {demo_file 4 129, demo_file 6 1, demo_file 8 1}" for f v
    by (auto split: if_splits)
  have 3: "dom (hostfiles demo_full) = {1, 2, 3}" "dom (files demo_full) = {4, 6, 8}" "nextp demo_full = 15"
    "dom (fdfiles demo_full) = {5, 7, 9}"
    by auto
  have "objs_ok (refcount demo_full) (pinned demo_full) (cwd_hosts demo_full) demo_full"
    unfolding objs_ok_def pin cw 3 host using 1
    by (auto simp: demo_host_of std_hosts_def host_stdin_def host_stdout_def host_stderr_def fns_set_def demo_file_def dest!: 2)
  moreover have "procs_ok demo_full"
    by (auto simp: procs_ok_def cwds_def demo_proc_def split: if_splits)
  moreover have "proc_ready demo_full 14"
    by (simp add: proc_ready_def as_ready_def demo_proc_def demo_as_def)
  moreover have "threads_ok {14} demo_full"
    by (auto simp: threads_ok_def as_ready_def demo_as_def split: if_splits)
  ultimately show ?thesis by (simp add: tux_inv_def fd_inv_def)
qed

lemma fdalloc_loop_used: "f \<noteq> NULL \<Longrightarrow> fdalloc_loop (replicate n f) i = i + int n"
  by (simp add: fdalloc_loop_spec)

theorem open_full_leaks_witness:
  "\<exists>w' f v. sys_openat demo_env 14 TUX_AT_FDCWD 0x100020000 0 0 demo_full = Ret (- TUX_EMFILE) w' \<and>
     fdfiles w' f = Some v \<and> refs v = - 1 \<and> host_of w' f \<in> dom (hostfiles w')"
proof -
  have path: "procpath 14 0x100020000 demo_full = Ret (Some [97]) demo_full"
    using demo_path by (simp add: demo_full_def procpath_def lfi_as_fmptr_def run_simps demo_proc_def demo_as_def Let_def split: if_splits)
  have "\<exists>w'. sys_openat demo_env 14 TUX_AT_FDCWD 0x100020000 0 0 demo_full = Ret (- TUX_EMFILE) w'"
    using path
    by (simp add: sys_openat_def getfdir_def run_simps demo_full_def demo_proc_def demo_tux_def filenew_def validflags_def
      host_openat_def malloc_def kcall_def fd_or_cwd_def set_hostfile_def filefnew_def fdalloc_def fdrelease_def
      set_fdfile_def set_proc_def Let_def demo_env_defs fdalloc_loop_used)
  then obtain w' where w': "sys_openat demo_env 14 TUX_AT_FDCWD 0x100020000 0 0 demo_full = Ret (- TUX_EMFILE) w'" by blast
  have "fd_full (fds demo_full 14)" by (auto simp: fd_full_def fds_def fd_entry_def fdhas_x_def demo_full_def)
  from open_full_leaks [OF demo_fs_safe demo_full_inv _ this w'] w' show ?thesis by auto
qed

lemma chdir_failed_open_example:
  "wp no_fault (sys_chdir (demo_env\<lparr>k_openat := \<lambda>dfd path fl md x. (- 1, x)\<rparr>) 14 0x100020000)
    (\<lambda>r w'. r = 0 \<and> map_option cwd (procs w' 14) = Some \<lparr>dir_file = NULL, dir_fd = NULL\<rparr>) (\<lambda>_. False) demo_world"
  by (rule chdir_failed_open [OF demo_inv _ demo_path]) simp_all

theorem pread64_keeps_offset_witness:
  "wp only_assert (sys_pread64 demo_env 14 0 0x100030000 2 1)
     (\<lambda>_ w'. (if ext w' < 0 then - 1 else ext w') = (if ext demo_world < 0 then - 1 else ext demo_world)) (\<lambda>_. False) demo_world"
  by (rule pread64_keeps_offset [OF demo_inv, of 14 0 5 "\<lparr>hf_fd = 0\<rparr>" demo_env "\<lambda>x. if x < 0 then - 1 else x"])
    (auto simp: fds_def fd_entry_def fdhas_x_def demo_proc_def demo_host_of demo_env_defs demo_lseek_def Let_def)

theorem writev_is_writes_witness:
  "sys_writev demo_env 14 1 0x100020000 2 demo_world =
     write_all demo_env 14 1 (iovs (mem demo_world) 0x100020000 2) 0 demo_world"
  using writev_is_writes [of 14 demo_world demo_proc demo_as demo_env 1 "0x100020000" 2]
  by (simp add: demo_proc_def demo_as_def)

end
