(* ===== verification/Tux_ThreadProps.thy ===== *)
theory Tux_ThreadProps
  imports Tux_SysThreadInv
begin

text \<open>
  Functional properties of the thread calls: which flags \<^verbatim>\<open>clone\<close> takes and what it
  makes, the checks of \<^verbatim>\<open>futex\<close>, the processor mask, and that the exit calls always leave
  the sandbox.
\<close>

section \<open>Exit\<close>

lemma thread_env:
  assumes "tux_inv R w" "threads w p = Some th" "proc th \<in> R"
  obtains pr t a c where "p \<noteq> NULL" "p_ctx th \<noteq> NULL" "ctxs w (p_ctx th) = Some c" "proc th \<noteq> NULL"
    "procs w (proc th) = Some pr" "p_tux pr \<noteq> NULL" "tuxes w (p_tux pr) = Some t"
    "p_as pr \<noteq> NULL" "aspaces w (p_as pr) = Some a"
proof -
  obtain pr where pr: "proc th \<noteq> NULL" "procs w (proc th) = Some pr" using tux_inv_proc [OF assms(1,3)] by blast
  have a: "as_ready w (p_as pr)" using assms(1,3) pr by (fastforce simp: tux_inv_def proc_ready_def)
  then show thesis
    using that thread_live [OF assms] pr tux_inv_tux [OF assms(1,3) pr(2)] by (auto simp: as_ready_def)
qed


section \<open>Clone\<close>

lemma clone_masks:
  "clone_allowed = 0x13D0F00" "clone_required = 0x10F00" "clone_ignored = 0x80400000"
  by (simp_all add: clone_allowed_def clone_required_def clone_ignored_def)

lemma spawn_flags_eq:
  "spawn_flags flags =
     (if (flags AND 0xff = 0 \<or> flags AND 0xff = 0x11) \<and> flags AND 0x10F00 = 0x10F00 \<and> flags AND 0x7E82F000 = 0
      then Inr (flags AND 0x7FBFFF00) else Inl (- TUX_EINVAL))"
proof -
  have "(ucast (NOT clone_ignored) :: u64) = 0x7FBFFFFF" "(ucast (NOT clone_allowed) :: u64) = 0xFEC2F0FF"
    by (simp_all add: clone_masks)
  then show ?thesis
    by (simp add: spawn_flags_def Let_def and.assoc clone_masks)
qed


lemma accepted_not_fork: "spawn_flags flags = Inr fl \<Longrightarrow> \<not> isfork flags"
proof -
  assume "spawn_flags flags = Inr fl"
  then have "flags AND 0x10F00 = 0x10F00" by (simp add: spawn_flags_eq split: if_splits)
  then have "(flags AND 0x10F00) AND 0x10000 = 0x10F00 AND 0x10000" by simp
  then have t: "flags AND 0x10000 = 0x10000" by (simp add: and.assoc)
  have "(flags AND NOT 0x1200000) AND 0x10000 = 0x10000" using t by (simp add: and.assoc)
  then show ?thesis by (auto simp: isfork_def Let_def)
qed

text \<open>C18. A successful \<^verbatim>\<open>clone\<close> makes exactly one thread and one context: the thread has the next
  identifier, which is the result, and the process of its creator; it starts with the
  creator's registers except that the call returned 0 and the stack is the one given; the
  thread pointer and the address to clear at exit are set, and the identifier is stored for
  the child and for the parent, when the flags ask for it.  No other thread, no other context and no process changes.\<close>

theorem clone_makes_thread:
  assumes inv: "tux_inv R w" and th: "threads w p = Some th" "proc th \<in> R" "procs w (proc th) = Some pr"
    and as: "aspaces w (p_as pr) = Some a" "plats w (as_plat a) = Some pl" "\<not> sysexternal (opts pl)"
    and c: "ctxs w (p_ctx th) = Some c" and fl: "spawn_flags flags = Inr fl"
    and ok: "\<And>n. \<not> oom P n" "\<And>q x. fst (k_pthread_create P q x) = 0"
  shows "\<exists>w' t k. sys_clone P p flags stk ptidp ctidp tls func w = Ret (next_tid w) w' \<and>
     t \<notin> dom (threads w) \<and> k \<notin> dom (ctxs w) \<and> procs w' = procs w \<and>
     next_tid w' = signed_take_bit 31 (next_tid w + 1) \<and>
     mem w' = (let tb = le_bytes 4 (word_of_int (next_tid w));
         m1 = (if fl AND ucast TUX_CLONE_CHILD_SETTID \<noteq> 0 then store_bytes (mem w) ctidp tb else mem w)
       in if fl AND ucast TUX_CLONE_PARENT_SETTID \<noteq> 0 then store_bytes m1 ptidp tb else m1) \<and>
     threads w' = (threads w)(t \<mapsto> \<lparr>p_ctx = k, stack = 0,
       ctid = (if fl AND ucast TUX_CLONE_CHILD_CLEARTID \<noteq> 0 then ctidp else 0), tid = next_tid w, proc = proc th\<rparr>) \<and>
     ctxs w' = (ctxs w)(k \<mapsto> \<lparr>tp = (if fl AND ucast TUX_CLONE_SETTLS \<noteq> 0 then tls else 0),
       regs = (regs c)(regs_return (target P) := 0, regs_sp (target P) := stk), ctxp = t, sys = as_base a, ctx_as = p_as pr\<rparr>)"
proof (rule thread_env [OF inv th(1,2)])
  fix pr' t a' c'
  assume e: "p \<noteq> NULL" "p_ctx th \<noteq> NULL" "proc th \<noteq> NULL" "procs w (proc th) = Some pr'" "p_as pr' \<noteq> NULL"
  let ?t = "Suc (nextp w)" and ?k = "Suc (Suc (nextp w))"
  have fresh: "?t \<notin> dom (threads w)" "?k \<notin> dom (ctxs w)" using fresh_thread [OF inv] fresh_ctx [OF inv] by simp_all
  then have ne: "p \<noteq> ?t" "p_ctx th \<noteq> ?k" using th(1) c by auto
  have plat: "as_plat a \<noteq> NULL" using inv th(2,3) as(1) by (fastforce simp: tux_inv_def proc_ready_def as_ready_def)
  let ?c = "\<lparr>tp = 0, regs = lfi_regs_init (target P) (\<lambda>_. 0) a (as_base a), ctxp = ?t, sys = as_base a, ctx_as = p_as pr\<rparr>"
  let ?w = "w\<lparr>nextp := ?k, next_tid := signed_take_bit 31 (next_tid w + 1),
      threads := (threads w)(?t \<mapsto> \<lparr>p_ctx = ?k, stack = 0, ctid = 0, tid = next_tid w, proc = proc th\<rparr>),
      ctxs := (ctxs w)(?k \<mapsto> ?c\<lparr>regs := regs c\<rparr>)\<rparr>"
  have new: "procnewthread P p w = Ret ?t ?w"
    using e th as c ok(1) ne plat
    by (simp add: procnewthread_def lfi_ctx_new_def malloc_def set_thread_def nexttid_def lfi_ctx_regs_def set_ctx_regs_def
        run_simps Let_def)
  have start: "\<exists>w'. spawn_start P (proc th) ?t fl stk ctidp ctidp ptidp tls ?w = Ret (next_tid w) w' \<and> procs w' = procs w \<and>
     next_tid w' = signed_take_bit 31 (next_tid w + 1) \<and>
     mem w' = (let tb = le_bytes 4 (word_of_int (next_tid w));
         m1 = (if fl AND ucast TUX_CLONE_CHILD_SETTID \<noteq> 0 then store_bytes (mem w) ctidp tb else mem w)
       in if fl AND ucast TUX_CLONE_PARENT_SETTID \<noteq> 0 then store_bytes m1 ptidp tb else m1) \<and>
     threads w' = (threads w)(?t \<mapsto> \<lparr>p_ctx = ?k, stack = 0,
       ctid = (if fl AND ucast TUX_CLONE_CHILD_CLEARTID \<noteq> 0 then ctidp else 0), tid = next_tid w, proc = proc th\<rparr>) \<and>
     ctxs w' = (ctxs w)(?k \<mapsto> \<lparr>tp = (if fl AND ucast TUX_CLONE_SETTLS \<noteq> 0 then tls else 0),
       regs = (regs c)(regs_return (target P) := 0, regs_sp (target P) := stk), ctxp = ?t, sys = as_base a, ctx_as = p_as pr\<rparr>)"
    using e th(3)
    by (simp add: spawn_start_def lfi_ctx_tpset_def set_thread_def store_int_def write_mem_def lfi_ctx_regs_def procaddr_def
        lfi_as_validptr_def set_ctx_regs_def kcall_def run_simps ok(2) split_beta Let_def)
  have "sys_clone P p flags stk ptidp ctidp tls func w = spawn_start P (proc th) ?t fl stk ctidp ctidp ptidp tls ?w"
    using accepted_not_fork [OF fl] fl new e th(1,3)
    by (simp add: sys_clone_def spawn_def procaddr_def lfi_as_validptr_def run_simps)
  with start fresh show ?thesis by (metis (no_types))
qed

section \<open>Futexes\<close>

lemma and_3_mod_4: "(a :: u64) AND 3 = a mod 4"
proof -
  have "a AND mask 2 = a mod 2 ^ 2" by (simp add: take_bit_eq_mod flip: take_bit_eq_mask)
  then show ?thesis by (simp add: mask_eq_exp_minus_1)
qed

text \<open>C34. The checks of \<^verbatim>\<open>futex\<close>, none of which has an effect: an address that is not aligned or
  not in the sandbox, or a timeout that is not, is \<^verbatim>\<open>-EFAULT\<close>; an operation other than wait,
  wake and requeue is \<^verbatim>\<open>-EINVAL\<close>; the private flag is ignored.  A call that passes them is
  the host's.\<close>

theorem futex_checks:
  assumes p: "p \<noteq> NULL" "threads w p = Some th" "proc th \<noteq> NULL" "procs w (proc th) = Some pr"
    "p_as pr \<noteq> NULL" "aspaces w (p_as pr) = Some a" "minaddr a \<noteq> 0"
  shows "sys_futex P p ua op v tmo ua2 v3 w =
    (if ua mod 4 \<noteq> 0 \<or> \<not> (minaddr a \<le> ua \<and> ua < maxaddr a) then Ret (- TUX_EFAULT) w
     else if op AND NOT TUX_FUTEX_PRIVATE_FLAG = TUX_FUTEX_WAIT then
       if tmo \<noteq> 0 \<and> \<not> (tmo mod 8 = 0 \<and> minaddr a \<le> tmo \<and> tmo < maxaddr a) then Ret (- TUX_EFAULT) w
       else host_futexwait P ua op v tmo w
     else if op AND NOT TUX_FUTEX_PRIVATE_FLAG = TUX_FUTEX_WAKE then host_futexwake P ua op v w
     else if op AND NOT TUX_FUTEX_PRIVATE_FLAG = TUX_FUTEX_REQUEUE then host_futexrequeue P ua op v w
     else Ret (- TUX_EINVAL) w)"
proof -
  have ne: "minaddr a \<le> x \<Longrightarrow> x \<noteq> 0" for x using p(7) by auto
  show ?thesis
    using p ne by (auto simp: sys_futex_def futexwait_def futexwake_def futexrequeue_def procbufalign_def lfi_as_fmptr_def
        and_3_mod_4 run_simps Let_def)
qed

section \<open>The processor mask\<close>

lemma length_cpu_mask [simp]: "length (cpu_mask_loop i n mk) = length mk"
  by (induction i n mk rule: cpu_mask_loop.induct) (simp_all add: set_cpu_def)

lemma cpu_mask_bits:
  "i + n \<le> 8 * length mk \<Longrightarrow> k < length mk \<Longrightarrow> j < 8 \<Longrightarrow>
   bit (cpu_mask_loop i n mk ! k) j \<longleftrightarrow> bit (mk ! k) j \<or> i \<le> 8 * k + j \<and> 8 * k + j < i + n"
proof (induction i n mk rule: cpu_mask_loop.induct)
  case (2 i n mk)
  have len: "length (set_cpu i mk) = length mk" by (simp add: set_cpu_def)
  have "bit (set_cpu i mk ! k) j \<longleftrightarrow> bit (mk ! k) j \<or> i = 8 * k + j"
  proof (cases "k = i div 8")
    case True
    then have "i = 8 * k + j \<longleftrightarrow> i mod 8 = j" using "2.prems"(3) by presburger
    then show ?thesis using True "2.prems" by (auto simp: set_cpu_def bit_simps)
  next
    case False
    then have "i \<noteq> 8 * k + j" using "2.prems"(3) by auto
    then show ?thesis using False by (simp add: set_cpu_def)
  qed
  then show ?case using 2 len by auto
qed auto

lemma unat_ucast_up: "unat (ucast (x :: u32) :: u64) = unat x"
proof -
  have "unat x < 2 ^ 32" using unsigned_less [of x, where 'a = nat] by simp
  then show ?thesis by (simp add: unsigned_ucast_eq take_bit_nat_eq_self)
qed

lemma is_pow2_64 [simp]: "is_pow2 64"
  unfolding is_pow2_def by (rule image_eqI [of _ _ 6]) simp_all

lemma affinity_size:
  assumes "unat cnt \<le> 2 ^ 32 - 64"
  defines "rc \<equiv> (ucast (ceilp (ucast (cnt :: u32)) 64 div 8) :: u32)"
  shows "unat rc = 8 * ((unat cnt + 63) div 64)" "sint rc = 8 * ((int (unat cnt) + 63) div 64)" "MIN_u cnt (rc * 8) = cnt"
proof -
  let ?n = "unat cnt" and ?m = "(unat cnt + 63) div 64"
  have u: "unat (ucast cnt :: u64) = ?n" by (simp add: unat_ucast_up)
  have m: "?n \<le> 64 * ?m" "64 * ?m \<le> ?n + 63" by presburger+
  have small: "64 * ?m < 2 ^ 32" using m(2) assms(1) by simp
  have "unat (ceilp (ucast cnt) 64) = 64 * ?m"
    using assms(1) by (simp add: unat_ceilp u)
  then have "unat (ceilp (ucast cnt) 64 div 8 :: u64) = 8 * ?m" by (simp add: unat_div)
  then show rc: "unat rc = 8 * ?m"
    using small by (simp add: rc_def unsigned_ucast_eq take_bit_nat_eq_self)
  have "uint rc = int (8 * ?m)" unfolding uint_nat rc ..
  then show "sint rc = 8 * ((int ?n + 63) div 64)"
    using small by (simp add: sint_uint signed_take_bit_int_eq_self zdiv_int del: of_nat_unat)
  have "unat (rc * 8) = 64 * ?m" using rc small by (simp add: unat_word_ariths)
  then show "MIN_u cnt (rc * 8) = cnt" using m(1) by (auto simp: MIN_u_def word_less_nat_alt word_unat_eq_iff)
qed

text \<open>C31. \<^verbatim>\<open>sched_getaffinity\<close> reports every processor of the host and no other: the sz it
  returns is the count in whole 64-bit words, a smaller buffer is refused, and in the mask it
  writes bit \<open>i\<close> is set exactly when the host has a processor \<open>i\<close>.\<close>

theorem affinity_mask:
  assumes p: "p \<noteq> NULL" "procs w p = Some pr" and cnt: "fst (k_sched_cpus P (ext w)) = cnt" "unat cnt \<le> 2 ^ 32 - 64"
    and mem: "\<not> oom P (nextp w)"
  shows "(unat sz < 8 * ((unat cnt + 63) div 64) \<longrightarrow> (\<exists>w'. sys_sched_getaffinity P p pid sz addr w = Ret (- TUX_EINVAL) w')) \<and>
    (8 * ((unat cnt + 63) div 64) \<le> unat sz \<longrightarrow>
      (\<exists>w'. sys_sched_getaffinity P p pid sz addr w = Ret (8 * ((int (unat cnt) + 63) div 64)) w' \<and>
         (\<forall>i < 64 * ((unat cnt + 63) div 64). bit (mem w' (addr + of_nat (i div 8))) (i mod 8) \<longleftrightarrow> i < unat cnt)))"
proof -
  let ?rc = "(ucast (ceilp (ucast cnt) 64 div 8) :: u32)" and ?m = "(unat cnt + 63) div 64"
  let ?mk = "cpu_mask_loop 0 (unat cnt) (replicate (unat ?rc) 0)"
  note s = affinity_size [OF cnt(2)]
  have rc64: "unat (ucast ?rc :: u64) = 8 * ?m" by (simp add: unat_ucast_up s(1))
  have bits: "bit (?mk ! (i div 8)) (i mod 8) \<longleftrightarrow> i < unat cnt" if "i < 64 * ?m" for i
    using cpu_mask_bits [of 0 "unat cnt" "replicate (unat ?rc) 0" "i div 8" "i mod 8"] that unfolding s(1) by simp
  have "store_bytes m addr ?mk (addr + of_nat (i div 8)) = ?mk ! (i div 8)" if "i < 64 * ?m" for m i
  proof -
    have "i div 8 < 2 ^ 64" using that cnt(2) by simp
    then have "unat (of_nat (i div 8) :: u64) = i div 8" by (simp add: unat_of_nat)
    moreover have "i div 8 < 8 * ?m" using that by (simp add: less_mult_imp_div_less)
    ultimately show ?thesis unfolding store_bytes_def by (simp add: s(1))
  qed
  then show ?thesis
    using p cnt(1) mem rc64 bits s
    by (auto simp: sys_sched_getaffinity_def host_cpucount_def kcall_def malloc_def procaddr_def lfi_as_validptr_def
        write_mem_def run_simps Let_def word_less_nat_alt split: prod.splits)
qed

section \<open>Witnesses\<close>

lemma demo_thread: "threads demo_world 15 = Some \<lparr>p_ctx = 13, stack = 0, ctid = 0, tid = 10000, proc = 14\<rparr>"
  by simp

theorem futex_checks_witness:
  "sys_futex demo_env 15 0x100020002 0 0 0 0 0 demo_world = Ret (- TUX_EFAULT) demo_world \<and>
   sys_futex demo_env 15 0x100020000 2 0 0 0 0 demo_world = Ret (- TUX_EINVAL) demo_world"
  using futex_checks [of 15 demo_world, OF _ demo_thread, of demo_proc demo_as demo_env "0x100020002" 0 0 0 0 0]
    futex_checks [of 15 demo_world, OF _ demo_thread, of demo_proc demo_as demo_env "0x100020000" 2 0 0 0 0]
  by (simp add: demo_proc_def demo_as_def)

theorem affinity_mask_witness:
  "\<exists>w'. sys_sched_getaffinity demo_env 14 0 128 0x100020000 demo_world = Ret 8 w' \<and>
     (\<forall>i<64. bit (mem w' (0x100020000 + of_nat (i div 8))) (i mod 8) \<longleftrightarrow> i < 2)"
  using affinity_mask [of 14 demo_world demo_proc demo_env 2 128 0 "0x100020000"]
  by (simp add: demo_env_defs)



theorem clone_makes_thread_witness:
  "\<exists>w'. sys_clone demo_env 15 0x10F00 0x100500000 0 0 0 0 demo_world = Ret 10001 w' \<and> procs w' = procs demo_world"
proof -
  let ?pl = "\<lparr>bm = 90, opts = \<lparr>pagesize = 4096, vmsize = 0x100000000, sysexternal = False\<rparr>, syshandler = Some Lfi_tux_syscall\<rparr>"
  let ?c = "\<lparr>tp = 0, regs = \<lambda>_. 0, ctxp = 15, sys = 0x100000000, ctx_as = 12\<rparr>"
  have "spawn_flags 0x10F00 = Inr 0x10F00" by (simp add: spawn_flags_eq)
  moreover have "next_tid demo_world = 10001" by (simp add: demo_world_def)
  moreover have "\<exists>w' t k. sys_clone demo_env 15 0x10F00 0x100500000 0 0 0 0 demo_world = Ret (next_tid demo_world) w' \<and>
     procs w' = procs demo_world"
    using clone_makes_thread [OF demo_inv demo_thread, where pr = demo_proc and a = demo_as and pl = ?pl and c = ?c
        and flags = "0x10F00" and P = demo_env and stk = "0x100500000" and ptidp = 0 and ctidp = 0 and tls = 0 and func = 0]
      calculation
    by (simp add: demo_proc_def demo_as_def demo_env_defs) blast
  ultimately show ?thesis by auto
qed

end
