(* ===== verification/Tux_Posix.thy ===== *)
theory Tux_Posix
  imports Tux_Host Tux_Align
begin

text \<open>
  The host files of builds for systems other than Linux (\<^verbatim>\<open>src/host/posix\<close>):
  directory entries, random bytes, system information, paths, processors, thread
  names.  The loop of \<^verbatim>\<open>host_getdents64\<close> may run forever in C; here it has
  the value \<open>None\<close> then, and it is shown to end.
\<close>

section \<open>The calls of these files\<close>

text \<open>\<open>kd_name\<close> is \<^verbatim>\<open>d_name\<close> without its terminator.\<close>

record kdirent =
  kd_ino :: u64
  kd_type :: u8
  kd_name :: bytes

text \<open>A \<^verbatim>\<open>DIR*\<close> is a number, 0 for \<^verbatim>\<open>NULL\<close>; \<open>None\<close> of \<open>k_readdir\<close> is \<^verbatim>\<open>NULL\<close>.\<close>

record 'x posix = "'x kernel" +
  k_fdopendir :: "int \<Rightarrow> 'x \<Rightarrow> nat \<times> 'x"
  k_readdir :: "nat \<Rightarrow> 'x \<Rightarrow> kdirent option \<times> 'x"
  k_getentropy :: "u64 \<Rightarrow> 'x \<Rightarrow> (int \<times> bytes) \<times> 'x"
  k_nprocs :: "'x \<Rightarrow> int \<times> 'x"

section \<open>\<^verbatim>\<open>posix/dir.c\<close>\<close>

text \<open>\<^verbatim>\<open>struct Dirent\<close>: 19 bytes of members, a name of 256, and padding to a multiple of 8.\<close>

abbreviation (input) DIRENT_NAME :: nat where "DIRENT_NAME \<equiv> 256"
abbreviation (input) DIRENT_SIZE :: nat where "DIRENT_SIZE \<equiv> 280"

definition dirent_len :: "kdirent \<Rightarrow> nat" where
  "dirent_len ent = (if length (kd_name ent) \<ge> DIRENT_NAME then DIRENT_NAME - 1 else length (kd_name ent))"

definition dirent_reclen :: "kdirent \<Rightarrow> u16" where
  "dirent_reclen ent = ucast (ceilp (8 + 8 + 2 + 1 + of_nat (dirent_len ent) + 1) 8)"

text \<open>The structure the loop body leaves at \<^verbatim>\<open>tuxent\<close>.\<close>

definition dirent_bytes :: "kdirent \<Rightarrow> bytes" where
  "dirent_bytes ent =
     le_bytes 8 (kd_ino ent) @ le_bytes 8 (- 1) @ le_bytes 2 (ucast (dirent_reclen ent)) @ [kd_type ent] @
     take (dirent_len ent) (kd_name ent) @ replicate (DIRENT_SIZE - 19 - dirent_len ent) 0"

partial_function (option) getdents_loop ::
  "('x, 'e) posix_scheme \<Rightarrow> nat \<Rightarrow> u64 \<Rightarrow> u64 \<Rightarrow> u64 \<Rightarrow> ('x, 'z) hostw_scheme \<Rightarrow> (u64 \<times> ('x, 'z) hostw_scheme) option" where
  "getdents_loop K dir dirp cnt written w =
     (if written < cnt then
        (case k_readdir K dir (ext w) of
           (None, x) \<Rightarrow> Some (written, w\<lparr>ext := x\<rparr>)
         | (Some ent, x) \<Rightarrow> getdents_loop K dir dirp cnt (written + ucast (dirent_reclen ent))
              (w\<lparr>ext := x, mem := store_bytes (mem w) (dirp + written) (dirent_bytes ent)\<rparr>))
      else Some (written, w))"

text \<open>\<open>None\<close>: the call does not return.\<close>

definition host_getdents64_posix ::
  "('x, 'e) posix_scheme \<Rightarrow> ptr \<Rightarrow> u64 \<Rightarrow> u64 \<Rightarrow> ('x, 'z) hostw_scheme \<Rightarrow> (int, ('x, 'z) hostw_scheme) outcome option" where
  "host_getdents64_posix K file dirp cnt w =
     (case bindM (deref hostfiles file) (\<lambda>hf. kcall (k_fdopendir K (hf_fd hf))) w of
        Fault e \<Rightarrow> Some (Fault e)
      | Exit c v \<Rightarrow> Some (Exit c v)
      | Ret dir v \<Rightarrow>
          if dir = 0 then Some (return_tuxerr K v)
          else (case getdents_loop K dir dirp cnt 0 v of
                  None \<Rightarrow> None
                | Some (written, u) \<Rightarrow>
                    Some (if k_errno K (ext u) < 0 then return_tuxerr K u else Ret (sint written) u)))"

section \<open>Random bytes, information, paths, processors, names\<close>

definition host_getrandom_posix ::
  "('x, 'e) posix_scheme \<Rightarrow> u64 \<Rightarrow> u64 \<Rightarrow> u32 \<Rightarrow> (('x, 'z) hostw_scheme, int) prog" where
  "host_getrandom_posix K buf sz flags =
     (let sz' = (if sz > 256 then 256 else sz)
      in bindM (kcall (k_getentropy K sz')) (\<lambda>(r, bs).
         bindM (write_mem buf bs) (\<lambda>_.
         if r < 0 then return_tuxerr K else ret (sint sz'))))"

text \<open>\<^verbatim>\<open>struct SysInfo\<close> is 368 bytes long.\<close>

definition host_sysinfo_posix :: "u64 \<Rightarrow> (('x, 'z) hostw_scheme, int) prog" where
  "host_sysinfo_posix info = bindM (write_mem info (replicate 368 0)) (\<lambda>_. ret 0)"

definition host_getpath_posix :: "ptr \<Rightarrow> u64 \<Rightarrow> u64 \<Rightarrow> ('s, int) prog" where
  "host_getpath_posix dir buf sz = raise AssertFail"

definition host_cpucount_posix :: "('x, 'e) posix_scheme \<Rightarrow> (('x, 'z) hostw_scheme, u32) prog" where
  "host_cpucount_posix K = bindM (kcall (k_nprocs K)) (\<lambda>n. ret (word_of_int n))"

definition host_prctl_set_name_posix :: "u64 \<Rightarrow> ('s, int) prog" where
  "host_prctl_set_name_posix name = ret 0"

section \<open>Directory records\<close>

lemma dirent_len_le: "dirent_len ent \<le> 255"
  by (simp add: dirent_len_def)

lemma is_pow2_8: "is_pow2 8"
  unfolding is_pow2_def by (rule image_eqI [of _ _ 3]) simp_all

lemma reclen:
  "unat (dirent_reclen ent) = (27 + dirent_len ent) div 8 * 8" (is ?a)
  "20 + dirent_len ent \<le> unat (dirent_reclen ent)" "24 \<le> unat (dirent_reclen ent)" "unat (dirent_reclen ent) \<le> DIRENT_SIZE"
proof -
  let ?n = "dirent_len ent"
  have n: "?n \<le> 255" by (rule dirent_len_le)
  have u: "unat (8 + 8 + 2 + 1 + of_nat ?n + 1 :: u64) = 20 + ?n"
    using n by (simp add: unat_word_ariths unat_of_nat)
  have c: "unat (ceilp (8 + 8 + 2 + 1 + of_nat ?n + 1) 8) = (27 + ?n) div 8 * 8"
    unfolding unat_ceilp [OF is_pow2_8] u using n by simp
  have b: "(27 + ?n) div 8 * 8 \<le> 280" using n by simp
  have a: ?a unfolding dirent_reclen_def unsigned_ucast_eq c using b by (simp add: take_bit_nat_eq_self)
  show ?a by (rule a)
  show "20 + ?n \<le> unat (dirent_reclen ent)" "24 \<le> unat (dirent_reclen ent)" "unat (dirent_reclen ent) \<le> DIRENT_SIZE"
    unfolding a using n by presburger+
qed

lemma length_dirent_bytes [simp]: "length (dirent_bytes ent) = DIRENT_SIZE"
  using dirent_len_le [of ent] by (auto simp: dirent_bytes_def dirent_len_def)

definition dirent_record :: "kdirent \<Rightarrow> bytes" where
  "dirent_record ent = take (unat (dirent_reclen ent)) (dirent_bytes ent)"

definition dirents_image :: "kdirent list \<Rightarrow> bytes" where
  "dirents_image es = concat (map dirent_record es)"

lemma length_record [simp]: "length (dirent_record ent) = unat (dirent_reclen ent)"
  using reclen(4) [of ent] by (simp add: dirent_record_def)

lemma dirents_image_simps [simp]: "dirents_image [] = []" "dirents_image (e # es) = dirent_record e @ dirents_image es"
  by (simp_all add: dirents_image_def)

text \<open>What a program makes of the records: it follows \<^verbatim>\<open>d_reclen\<close> and reads names up to their terminator.\<close>

function parse_dirents :: "bytes \<Rightarrow> (u64 \<times> u8 \<times> bytes) list" where
  "parse_dirents bs =
     (let r = unat (le_word (take 2 (drop 16 bs)))
      in if r < 24 \<or> length bs < r then []
         else (le_word (take 8 bs), bs ! 18, takeWhile (\<lambda>b. b \<noteq> 0) (drop 19 (take r bs))) # parse_dirents (drop r bs))"
  by pat_completeness auto
termination by (relation "measure length") auto

declare parse_dirents.simps [simp del]

definition dirent_shown :: "kdirent \<Rightarrow> u64 \<times> u8 \<times> bytes" where
  "dirent_shown ent = (kd_ino ent, kd_type ent, takeWhile (\<lambda>b. b \<noteq> 0) (take (dirent_len ent) (kd_name ent)))"

lemma parse_record: "parse_dirents (dirent_record ent @ bs) = dirent_shown ent # parse_dirents bs"
proof -
  let ?r = "unat (dirent_reclen ent)" and ?n = "dirent_len ent"
  let ?h = "le_bytes 8 (kd_ino ent) @ le_bytes 8 (- 1) @ le_bytes 2 (ucast (dirent_reclen ent)) @ [kd_type ent]"
  have n: "min (length (kd_name ent)) ?n = ?n" by (simp add: dirent_len_def)
  have rec: "dirent_record ent = ?h @ take ?n (kd_name ent) @ replicate (?r - 19 - ?n) 0"
    using reclen(2-4) [of ent] n by (simp add: dirent_record_def dirent_bytes_def take_replicate take_Cons')
  have r: "le_word (le_bytes 2 (ucast (dirent_reclen ent))) = ucast (dirent_reclen ent)"
    by (simp add: le_word_le_bytes) (rule bit_word_eqI, auto simp: bit_simps dest: bit_imp_le_length)
  have u: "unat (ucast (dirent_reclen ent) :: u64) = ?r"
    using unsigned_less [of "dirent_reclen ent", where 'a = nat] by (simp add: unsigned_ucast_eq take_bit_nat_eq_self)
  have d: "take ?r (dirent_record ent @ bs) = dirent_record ent" "drop ?r (dirent_record ent @ bs) = bs"
    using length_record [of ent] by (simp_all del: length_record)
  have f: "take 2 (drop 16 (dirent_record ent @ bs)) = le_bytes 2 (ucast (dirent_reclen ent))"
    "take 8 (dirent_record ent @ bs) = le_bytes 8 (kd_ino ent)" "(dirent_record ent @ bs) ! 18 = kd_type ent"
    "drop 19 (dirent_record ent) = take ?n (kd_name ent) @ replicate (?r - 19 - ?n) 0"
    using reclen(2-4) [of ent] by (simp_all add: rec nth_append n)
  show ?thesis
    unfolding parse_dirents.simps [of "dirent_record ent @ bs"] f(1-3) r Let_def u d f(4)
    using reclen(3) [of ent] by (auto simp: dirent_shown_def le_word_le_bytes takeWhile_append takeWhile_replicate take_bit_word_eq_self takeWhile_eq_all_conv [symmetric] simp del: takeWhile_eq_all_conv)
qed

lemma parse_image: "parse_dirents (dirents_image es) = map dirent_shown es"
proof (induction es)
  case Nil
  show ?case by (subst parse_dirents.simps) simp
qed (simp add: parse_record)

section \<open>The loop ends\<close>

text \<open>\<open>reads K dir x es x'\<close>: from the state \<open>x\<close> of the kernel, \<^verbatim>\<open>readdir\<close> yields the entries \<open>es\<close>, and then the state is \<open>x'\<close>.\<close>

fun reads :: "('x, 'e) posix_scheme \<Rightarrow> nat \<Rightarrow> 'x \<Rightarrow> kdirent list \<Rightarrow> 'x \<Rightarrow> bool" where
  "reads K dir x [] x' \<longleftrightarrow> x' = x"
| "reads K dir x (e # es) x' \<longleftrightarrow> fst (k_readdir K dir x) = Some e \<and> reads K dir (snd (k_readdir K dir x)) es x'"

text \<open>The memory differs only at the offsets from \<open>n\<close> to \<open>k\<close> of the buffer.\<close>

definition changed_only :: "memory \<Rightarrow> memory \<Rightarrow> u64 \<Rightarrow> nat \<Rightarrow> nat \<Rightarrow> bool" where
  "changed_only m m' a n k \<longleftrightarrow> (\<forall>x. unat (x - a) \<in> {n..<k} \<or> m' x = m x)"

lemma changed_store:
  assumes "n + length bs \<le> k" "k \<le> 2 ^ 64"
  shows "changed_only m (store_bytes m (a + of_nat n) bs) a n k"
  unfolding changed_only_def
proof
  fix x :: u64
  have "unat (x - a) \<in> {n..<k}" if l: "unat (x - (a + of_nat n)) < length bs"
  proof -
    have sum: "unat (d + of_nat n) = unat d + n" if "unat d + n < 2 ^ 64" for d :: u64
      using that by (simp add: unat_word_ariths unat_of_nat)
    have "unat (x - a) = unat (x - (a + of_nat n)) + n" using sum [of "x - (a + of_nat n)"] l assms by simp
    then show ?thesis using l assms by simp
  qed
  then show "unat (x - a) \<in> {n..<k} \<or> store_bytes m (a + of_nat n) bs x = m x"
    by (auto simp: store_bytes_def)
qed

lemma changed_load:
  assumes "changed_only m m' a n k" "j + l \<le> n" "n \<le> 2 ^ 64"
  shows "load_bytes m' (a + of_nat j) l = load_bytes m (a + of_nat j) l"
proof -
  have "m' (a + of_nat j + of_nat i) = m (a + of_nat j + of_nat i)" if "i < l" for i
  proof -
    have "unat (of_nat (j + i) :: u64) = j + i" using that assms(2,3) by (subst unat_of_nat) simp
    then have "unat (a + of_nat j + of_nat i - a) \<notin> {n..<k}" using that assms(2) by simp
    with assms(1) show ?thesis unfolding changed_only_def by blast
  qed
  then show ?thesis unfolding load_bytes_def by (intro map_cong) simp_all
qed

lemma changed_trans:
  "changed_only m m' a n k \<Longrightarrow> changed_only m' m'' a n' k \<Longrightarrow> n \<le> n' \<Longrightarrow> changed_only m m'' a n k"
  unfolding changed_only_def by (metis atLeastLessThan_iff le_trans)

lemma getdents_runs:
  fixes w :: "('x, 'z) hostw_scheme"
  assumes "unat cnt + DIRENT_SIZE \<le> 2 ^ 64" "n < unat cnt + DIRENT_SIZE"
  shows "\<exists>es x x' m. getdents_loop K dir dirp cnt (of_nat n) w =
       Some (of_nat (n + length (dirents_image es)), w\<lparr>ext := x', mem := m\<rparr>) \<and> reads K dir (ext w) es x \<and>
     (unat cnt \<le> n + length (dirents_image es) \<and> x' = x \<or> k_readdir K dir x = (None, x')) \<and>
     n + length (dirents_image es) < unat cnt + DIRENT_SIZE \<and>
     load_bytes m (dirp + of_nat n) (length (dirents_image es)) = dirents_image es \<and> changed_only (mem w) m dirp n (unat cnt + DIRENT_SIZE)"
  using assms(2)
proof (induction "unat cnt - n" arbitrary: n w rule: less_induct)
  case less
  have un: "unat (of_nat n :: u64) = n" using less.prems assms(1) by (auto simp: unat_of_nat)
  then have lt: "of_nat n < cnt \<longleftrightarrow> n < unat cnt" by (simp add: word_less_nat_alt)
  have c0: "changed_only m m a i j" for m a i j by (simp add: changed_only_def)
  show ?case
  proof (cases "n < unat cnt")
    case False
    then show ?thesis using lt less.prems c0
      by (subst getdents_loop.simps) (auto intro!: exI [of _ "[]"] exI [of _ "ext w"] exI [of _ "mem w"])
  next
    case True
    obtain r x where kr: "k_readdir K dir (ext w) = (r, x)" by fastforce
    show ?thesis
    proof (cases r)
      case None
      then show ?thesis using kr lt True c0
        by (subst getdents_loop.simps, intro exI [of _ "[]"] exI [of _ "ext w"] exI [of _ x] exI [of _ "mem w"]) simp
    next
      case (Some e)
      let ?r = "unat (dirent_reclen e)" and ?m = "store_bytes (mem w) (dirp + of_nat n) (dirent_bytes e)"
      let ?w = "w\<lparr>ext := x, mem := ?m\<rparr>"
      note rl = reclen(3,4) [of e]
      have step: "getdents_loop K dir dirp cnt (of_nat n) w = getdents_loop K dir dirp cnt (of_nat (n + ?r)) ?w"
        using kr Some lt True by (subst getdents_loop.simps) (simp add: unsigned_ucast_eq)
      have "unat cnt - (n + ?r) < unat cnt - n" "n + ?r < unat cnt + DIRENT_SIZE" using True rl by linarith+
      from less.hyps [OF this, of ?w] obtain es y y' m where ih:
        "getdents_loop K dir dirp cnt (of_nat (n + ?r)) ?w = Some (of_nat (n + ?r + length (dirents_image es)), ?w\<lparr>ext := y', mem := m\<rparr>)"
        "reads K dir x es y" "unat cnt \<le> n + ?r + length (dirents_image es) \<and> y' = y \<or> k_readdir K dir y = (None, y')"
        "n + ?r + length (dirents_image es) < unat cnt + DIRENT_SIZE"
        "load_bytes m (dirp + of_nat (n + ?r)) (length (dirents_image es)) = dirents_image es"
        "changed_only ?m m dirp (n + ?r) (unat cnt + DIRENT_SIZE)" by auto
      have ch: "changed_only (mem w) m dirp n (unat cnt + DIRENT_SIZE)"
        by (rule changed_trans [OF changed_store ih(6)]) (use True assms(1) in simp_all)
      have "load_bytes m (dirp + of_nat n) ?r = load_bytes ?m (dirp + of_nat n) ?r"
        by (rule changed_load [OF ih(6)]) (use True assms(1) rl in simp_all)
      also have "\<dots> = dirent_record e"
        using load_store_slice [of 0 ?r "dirent_bytes e" "mem w" "dirp + of_nat n"] rl by (simp add: dirent_record_def)
      finally have "load_bytes m (dirp + of_nat n) (length (dirents_image (e # es))) = dirents_image (e # es)"
        using ih(5) by (simp add: load_bytes_add add.assoc)
      with ih ch step kr Some show ?thesis
        by (intro exI [of _ "e # es"] exI [of _ y] exI [of _ y'] exI [of _ m]) (auto simp: add.assoc)
    qed
  qed
qed

text \<open>C15. Listing a directory on other systems.  For every directory, endless ones too, and every buffer shorter
  than half of the address space, the call returns.  A program that walks the records in
  the part of the buffer it is told about finds the entries \<^verbatim>\<open>readdir\<close> gave, in order, with their
  inode, type and name (cut at 255 bytes); the listing stops at the end of the
  directory or when the buffer is full, exceeds the buffer by less than one record, and
  nothing is written beyond one record past the end of the buffer.\<close>

theorem getdents_returns:
  fixes w :: "('x, 'z) hostw_scheme"
  assumes "unat cnt + DIRENT_SIZE \<le> 2 ^ 63" "file \<noteq> NULL" "hostfiles w file = Some hf"
    and "k_fdopendir K (hf_fd hf) (ext w) = (dir, x0)" "dir \<noteq> 0" "\<And>x. 0 \<le> k_errno K x"
  shows "\<exists>es x x' m n. host_getdents64_posix K file dirp cnt w = Some (Ret (int n) (w\<lparr>ext := x', mem := m\<rparr>)) \<and>
     reads K dir x0 es x \<and> (unat cnt \<le> n \<and> x' = x \<or> k_readdir K dir x = (None, x')) \<and> n < unat cnt + DIRENT_SIZE \<and>
     parse_dirents (load_bytes m dirp n) = map dirent_shown es \<and> changed_only (mem w) m dirp 0 (unat cnt + DIRENT_SIZE)"
proof -
  obtain es x x' m where l: "getdents_loop K dir dirp cnt 0 (w\<lparr>ext := x0\<rparr>) =
       Some (of_nat (length (dirents_image es)), w\<lparr>ext := x', mem := m\<rparr>)" "reads K dir x0 es x"
     "unat cnt \<le> length (dirents_image es) \<and> x' = x \<or> k_readdir K dir x = (None, x')"
     "length (dirents_image es) < unat cnt + DIRENT_SIZE" "load_bytes m dirp (length (dirents_image es)) = dirents_image es"
     "changed_only (mem w) m dirp 0 (unat cnt + DIRENT_SIZE)"
    using getdents_runs [of cnt 0 K dir dirp "w\<lparr>ext := x0\<rparr>"] assms(1) by auto
  have "sint (of_nat (length (dirents_image es)) :: u64) = int (length (dirents_image es))"
    using l(4) assms(1) by (simp add: signed_of_nat signed_take_bit_int_eq_self)
  then have "host_getdents64_posix K file dirp cnt w = Some (Ret (int (length (dirents_image es))) (w\<lparr>ext := x', mem := m\<rparr>))"
    using assms(2-5) assms(6) [of x'] l(1) by (simp add: host_getdents64_posix_def run_simps kcall_def deref_def)
  then show ?thesis using l(2-6) parse_image [of es] by metis
qed

definition demo_posix :: "int posix" where
  "demo_posix = kernel.extend demo_kernel (posix.fields (\<lambda>fd x. (1, x))
     (\<lambda>d x. if x < 2 then (Some \<lparr>kd_ino = of_int x, kd_type = 8, kd_name = [97, 98]\<rparr>, x + 1) else (None, x))
     (\<lambda>n x. ((0, []), x)) (\<lambda>x. (4, x)))"

theorem getdents_returns_witness:
  "\<exists>es x' m n. host_getdents64_posix demo_posix 9 64 100 demo_hostw = Some (Ret (int n) (demo_hostw\<lparr>ext := x', mem := m\<rparr>)) \<and>
     n < 380 \<and> parse_dirents (load_bytes m 64 n) = map dirent_shown es"
proof -
  have "9 \<noteq> NULL" "hostfiles demo_hostw 9 = Some \<lparr>hf_fd = - 1\<rparr>" "0 \<le> k_errno demo_posix x"
    "k_fdopendir demo_posix (hf_fd \<lparr>hf_fd = - 1\<rparr>) (ext demo_hostw) = (1, 0)" "unat (100 :: u64) + DIRENT_SIZE \<le> 2 ^ 63" for x
    by (simp_all add: demo_hostw_def demo_posix_def demo_kernel_def kernel.defs posix.defs)
  from getdents_returns [OF this(5,1,2,4) _ this(3), of 64] show ?thesis by fastforce
qed

text \<open>Even in a buffer of one byte a whole \<^verbatim>\<open>struct Dirent\<close> is stored.\<close>

lemma getdents_overruns:
  assumes "k_readdir K dir (ext w) = (Some ent, x)"
  shows "getdents_loop K dir dirp 1 0 w = Some (ucast (dirent_reclen ent), w\<lparr>ext := x, mem := store_bytes (mem w) dirp (dirent_bytes ent)\<rparr>)"
    "length (dirent_bytes ent) = DIRENT_SIZE"
proof -
  have "\<not> (ucast (dirent_reclen ent) :: u64) < 1"
    using reclen(3) [of ent] unsigned_less [of "dirent_reclen ent", where 'a = nat]
    by (simp add: word_less_nat_alt unsigned_ucast_eq take_bit_nat_eq_self)
  then show "getdents_loop K dir dirp 1 0 w = Some (ucast (dirent_reclen ent), w\<lparr>ext := x, mem := store_bytes (mem w) dirp (dirent_bytes ent)\<rparr>)"
    using assms by (simp add: getdents_loop.simps)
qed simp

end
