(* ===== verification/Tux_PosixFutex.thy ===== *)
theory Tux_PosixFutex
  imports Tux_Host
begin

text \<open>
  The futexes of builds for systems other than Linux (\<^verbatim>\<open>src/host/posix/futex.c\<close>, \<^verbatim>\<open>src/futex.h\<close>).
  The functions of \<^verbatim>\<open>src/list.h\<close> are declared in the repository and not
  defined: they are parameters, as is the type \<open>'l\<close> of list heads.  A futex is named by its
  index in \<^verbatim>\<open>mem\<close>, which stands for the address of its member \<^verbatim>\<open>elem\<close> too.
\<close>

section \<open>State\<close>

record Futex =
  f_addr :: u64
  waiters :: u32

record 'l Futexes =
  active :: 'l
  free_list :: 'l
  f_mem :: "nat \<Rightarrow> Futex"

record 'l list_fns =
  list_first :: "'l \<Rightarrow> nat option"
  list_next :: "'l \<Rightarrow> nat \<Rightarrow> nat option"
  list_make_first :: "'l \<Rightarrow> nat \<Rightarrow> 'l"
  list_remove :: "'l \<Rightarrow> nat \<Rightarrow> 'l"

section \<open>Operations\<close>

text \<open>The loop from the element \<open>e\<close> on; \<open>None\<close>: it does not end.\<close>

partial_function (option) futexfind_from ::
  "('l, 'z) list_fns_scheme \<Rightarrow> 'l Futexes \<Rightarrow> u64 \<Rightarrow> nat option \<Rightarrow> nat option option" where
  "futexfind_from L fx addr e =
     (case e of None \<Rightarrow> Some None
      | Some f \<Rightarrow> if f_addr (f_mem fx f) = addr then Some (Some f)
                  else futexfind_from L fx addr (list_next L (active fx) f))"

definition futexfind :: "('l, 'z) list_fns_scheme \<Rightarrow> 'l Futexes \<Rightarrow> u64 \<Rightarrow> nat option option" where
  "futexfind L fx addr = futexfind_from L fx addr (list_first L (active fx))"

definition set_futex :: "nat \<Rightarrow> (Futex \<Rightarrow> Futex) \<Rightarrow> 'l Futexes \<Rightarrow> 'l Futexes" where
  "set_futex f g fx = fx\<lparr>f_mem := (f_mem fx)(f := g (f_mem fx f))\<rparr>"

definition futexnew :: "('l, 'z) list_fns_scheme \<Rightarrow> u64 \<Rightarrow> 'l Futexes \<Rightarrow> nat option \<times> 'l Futexes" where
  "futexnew L addr fx =
     (case list_first L (free_list fx) of None \<Rightarrow> (None, fx)
      | Some f \<Rightarrow> (Some f, set_futex f (\<lambda>t. t\<lparr>waiters := 1, f_addr := addr\<rparr>)
                     (fx\<lparr>free_list := list_remove L (free_list fx) f\<rparr>)))"

definition futexfree :: "('l, 'z) list_fns_scheme \<Rightarrow> nat \<Rightarrow> 'l Futexes \<Rightarrow> 'l Futexes" where
  "futexfree L f fx = fx\<lparr>free_list := list_make_first L (free_list fx) f\<rparr>"

text \<open>The block under the first lock: the futex that is waited for, or no futex.\<close>

definition futex_enter :: "('l, 'z) list_fns_scheme \<Rightarrow> u64 \<Rightarrow> 'l Futexes \<Rightarrow> (nat option \<times> 'l Futexes) option" where
  "futex_enter L uaddr fx =
     (case futexfind L fx uaddr of None \<Rightarrow> None
      | Some (Some f) \<Rightarrow> Some (Some f, set_futex f (\<lambda>t. t\<lparr>waiters := waiters t + 1\<rparr>) fx)
      | Some None \<Rightarrow>
          (case futexnew L uaddr fx of (None, fx1) \<Rightarrow> Some (None, fx1)
           | (Some f, fx1) \<Rightarrow> Some (Some f, fx1\<lparr>active := list_make_first L (active fx1) f\<rparr>)))"

definition futex_leave :: "('l, 'z) list_fns_scheme \<Rightarrow> nat \<Rightarrow> 'l Futexes \<Rightarrow> 'l Futexes" where
  "futex_leave L f fx =
     (let fx1 = set_futex f (\<lambda>t. t\<lparr>waiters := waiters t - 1\<rparr>) fx
      in if waiters (f_mem fx1 f) = 0
         then futexfree L f (fx1\<lparr>active := list_remove L (active fx1) f\<rparr>) else fx1)"

text \<open>\<open>None\<close>: the call does not return.\<close>

definition host_futexwait_posix ::
  "('l, 'z) list_fns_scheme \<Rightarrow> u64 \<Rightarrow> u32 \<Rightarrow> u32 \<Rightarrow> u64 \<Rightarrow> 'l Futexes \<Rightarrow> (int, 'l Futexes) outcome option" where
  "host_futexwait_posix L uaddr op val timeoutp fx =
     (if timeoutp \<noteq> 0 then Some (Fault AssertFail)
      else (case futex_enter L uaddr fx of None \<Rightarrow> None
            | Some (None, fx1) \<Rightarrow> Some (Ret (- 1) fx1)
            | Some (Some f, fx1) \<Rightarrow> Some (Ret (- 1) (futex_leave L f fx1))))"

definition host_futexwake_posix :: "u64 \<Rightarrow> u32 \<Rightarrow> u32 \<Rightarrow> ('s, int) prog" where
  "host_futexwake_posix uaddr op val = raise AssertFail"

section \<open>A wait does not wait\<close>

text \<open>What the list functions are used for: \<open>elems l\<close> are the elements of the list \<open>l\<close>.\<close>

definition list_laws :: "('l, 'z) list_fns_scheme \<Rightarrow> ('l \<Rightarrow> nat list) \<Rightarrow> bool" where
  "list_laws L elems \<longleftrightarrow>
     (\<forall>l. list_first L l = (if elems l = [] then None else Some (hd (elems l)))) \<and>
     (\<forall>l xs e ys. elems l = xs @ e # ys \<longrightarrow> e \<notin> set xs \<union> set ys \<longrightarrow> list_next L l e = (if ys = [] then None else Some (hd ys))) \<and>
     (\<forall>l e. elems (list_make_first L l e) = e # elems l) \<and>
     (\<forall>l e. elems (list_remove L l e) = remove1 e (elems l))"

definition futexes_ok :: "('l \<Rightarrow> nat list) \<Rightarrow> 'l Futexes \<Rightarrow> bool" where
  "futexes_ok elems fx \<longleftrightarrow> distinct (elems (active fx) @ elems (free_list fx)) \<and> (\<forall>f\<in>set (elems (active fx)). waiters (f_mem fx f) \<noteq> 0)"

lemma futexfind_ends:
  assumes L: "list_laws L elems" and d: "distinct (elems (active fx))" and e: "elems (active fx) = xs @ ys"
  shows "futexfind_from L fx addr (if ys = [] then None else Some (hd ys)) = Some (find (\<lambda>f. f_addr (f_mem fx f) = addr) ys)"
  using e
proof (induction ys arbitrary: xs)
  case Nil
  show ?case by (simp add: futexfind_from.simps)
next
  case (Cons y ys)
  have "list_next L (active fx) y = (if ys = [] then None else Some (hd ys))"
    using L d Cons.prems by (simp add: list_laws_def)
  then show ?case using Cons.IH [of "xs @ [y]"] Cons.prems by (subst futexfind_from.simps) simp
qed

lemma futexfind_spec:
  assumes "list_laws L elems" "futexes_ok elems fx"
  shows "futexfind L fx addr = Some (find (\<lambda>f. f_addr (f_mem fx f) = addr) (elems (active fx)))"
  using futexfind_ends [OF assms(1), of fx "[]" "elems (active fx)"] assms by (simp add: futexfind_def list_laws_def futexes_ok_def)

lemma find_in: "find P xs = Some x \<Longrightarrow> x \<in> set xs"
  by (induction xs) (auto split: if_splits)

text \<open>A wait without a time limit always returns -1 at once, and leaves the same futexes active with the same waiters.\<close>

lemma futexwait_posix_returns:
  assumes L: "list_laws L elems" and ok: "futexes_ok elems fx"
  shows "\<exists>fx'. host_futexwait_posix L uaddr op val 0 fx = Some (Ret (- 1) fx') \<and>
     elems (active fx') = elems (active fx) \<and> elems (free_list fx') = elems (free_list fx) \<and>
     (\<forall>f\<in>set (elems (active fx)). f_mem fx' f = f_mem fx f)"
proof (cases "find (\<lambda>f. f_addr (f_mem fx f) = uaddr) (elems (active fx))")
  case (Some f)
  then have "waiters (f_mem fx f) \<noteq> 0" using ok find_in by (fastforce simp: futexes_ok_def)
  with Some show ?thesis
    by (simp add: host_futexwait_posix_def futex_enter_def futex_leave_def futexfind_spec [OF L ok] set_futex_def Let_def)
next
  case None
  show ?thesis
  proof (cases "elems (free_list fx)")
    case Nil
    then show ?thesis using None L
      by (simp add: host_futexwait_posix_def futex_enter_def futexfind_spec [OF L ok] futexnew_def list_laws_def)
  next
    case (Cons f fs)
    then have f: "f \<notin> set (elems (active fx))" "f \<notin> set fs" using ok by (auto simp: futexes_ok_def)
    have first: "list_first L (free_list fx) = Some f" using L Cons by (simp add: list_laws_def)
    show ?thesis using None L Cons f
      by (auto simp: host_futexwait_posix_def futex_enter_def futexfind_spec [OF L ok] futexnew_def first futex_leave_def futexfree_def
          set_futex_def Let_def list_laws_def)
  qed
qed

end
