(* ===== verification/Tux_Perf.thy ===== *)
theory Tux_Perf
  imports Tux_Host
begin

text \<open>
  The perf map written by builds with libelf (\<^verbatim>\<open>src/perf.c\<close>).  The functions of libelf and the
  success of \<^verbatim>\<open>fopen\<close> are parameters.  The result is the return value and the contents of
  the map, \<open>None\<close> when no file was opened.
\<close>

section \<open>Parameters\<close>

record GElf_Shdr =
  sh_type :: u32
  sh_size :: u64
  sh_entsize :: u64
  sh_link :: u32

record GElf_Sym =
  st_name :: u32
  st_value :: u64
  st_size :: u64

text \<open>
  A descriptor and a section are numbers, 0 for \<^verbatim>\<open>NULL\<close>; \<open>elf_sections\<close> are the sections \<^verbatim>\<open>elf_nextscn\<close>
  yields one after the other; \<open>None\<close> is a failed call.
\<close>

record libelf =
  elf_memory :: "bytes \<Rightarrow> nat"
  elf_version_none :: bool
  elf_getshdrstrndx :: "nat \<Rightarrow> int"
  elf_sections :: "nat \<Rightarrow> nat list"
  gelf_getshdr :: "nat \<Rightarrow> GElf_Shdr option"
  elf_getdata :: "nat \<Rightarrow> nat option"
  gelf_getsym :: "nat \<Rightarrow> nat \<Rightarrow> GElf_Sym option"
  elf_strptr :: "nat \<Rightarrow> u32 \<Rightarrow> u32 \<Rightarrow> bytes option"
  fopen_map :: bool

abbreviation (input) SHT_SYMTAB :: u32 where "SHT_SYMTAB \<equiv> 2"

section \<open>Lines of the map\<close>

text \<open>\<^verbatim>\<open>%lx\<close> with a width and the flag 0.\<close>

fun hex_nat :: "nat \<Rightarrow> bytes" where
  "hex_nat n = (if n < 16 then [of_nat (if n < 10 then 48 + n else 87 + n)]
     else hex_nat (n div 16) @ [of_nat (if n mod 16 < 10 then 48 + n mod 16 else 87 + n mod 16)])"

declare hex_nat.simps [simp del]

definition hex_pad :: "nat \<Rightarrow> nat \<Rightarrow> bytes" where
  "hex_pad k n = replicate (k - length (hex_nat n)) 48 @ hex_nat n"

definition no_name :: bytes where
  "no_name = [60, 110, 111, 32, 110, 97, 109, 101, 62]"

text \<open>\<^verbatim>\<open>"%016lx %08lx %s\n"\<close>\<close>

definition perf_line :: "u64 \<Rightarrow> u64 \<Rightarrow> bytes \<Rightarrow> bytes" where
  "perf_line a n name = hex_pad 16 (unat a) @ [32] @ hex_pad 8 (unat n) @ [32] @ name @ [10]"

section \<open>\<^verbatim>\<open>perf_output_jit_interface_file\<close>\<close>

definition perf_symbol :: "('z) libelf_scheme \<Rightarrow> nat \<Rightarrow> u32 \<Rightarrow> nat \<Rightarrow> u64 \<Rightarrow> nat \<Rightarrow> bytes" where
  "perf_symbol L e link dat offset i =
     (case gelf_getsym L dat i of None \<Rightarrow> []
      | Some s \<Rightarrow>
          perf_line (st_value s + offset) (st_size s)
            (case elf_strptr L e link (st_name s) of None \<Rightarrow> no_name | Some name \<Rightarrow> name))"

text \<open>The loop over the sections: whether it ended without an error, and what it wrote.\<close>

fun perf_sections :: "('z) libelf_scheme \<Rightarrow> nat \<Rightarrow> u64 \<Rightarrow> nat list \<Rightarrow> fault + (bool \<times> bytes)" where
  "perf_sections L e offset [] = Inr (True, [])"
| "perf_sections L e offset (scn # scns) =
     (case gelf_getshdr L scn of None \<Rightarrow> Inr (False, [])
      | Some shdr \<Rightarrow>
          if sh_type shdr = SHT_SYMTAB then
            (case elf_getdata L scn of None \<Rightarrow> Inr (False, [])
             | Some dat \<Rightarrow>
                 if sh_entsize shdr = 0 then Inl DivByZero
                 else
                   let num_symbols = unat (sh_size shdr div sh_entsize shdr);
                       out = concat (map (perf_symbol L e (sh_link shdr) dat offset) [0..<num_symbols])
                   in (case perf_sections L e offset scns of Inl f \<Rightarrow> Inl f
                       | Inr (ok, bs) \<Rightarrow> Inr (ok, out @ bs)))
          else perf_sections L e offset scns)"

definition perf_output_libelf :: "('z) libelf_scheme \<Rightarrow> bytes \<Rightarrow> u64 \<Rightarrow> fault + (int \<times> bytes option)" where
  "perf_output_libelf L buffer offset =
     (let e = elf_memory L buffer
      in if e = 0 then Inr (1, None)
         else if \<not> fopen_map L then Inr (1, None)
         else if elf_version_none L then Inr (1, Some [])
         else if elf_getshdrstrndx L e \<noteq> 0 then Inr (1, Some [])
         else (case perf_sections L e offset (elf_sections L e) of Inl f \<Rightarrow> Inl f
               | Inr (ok, bs) \<Rightarrow> Inr (if ok then 0 else 1, Some bs)))"

section \<open>What the map holds\<close>

text \<open>The symbols of the readable symbol tables, in order.\<close>

definition section_lines :: "('z) libelf_scheme \<Rightarrow> nat \<Rightarrow> u64 \<Rightarrow> nat \<Rightarrow> bytes" where
  "section_lines L e offset scn =
     (case gelf_getshdr L scn of None \<Rightarrow> []
      | Some shdr \<Rightarrow> if sh_type shdr \<noteq> SHT_SYMTAB then []
          else concat (map (perf_symbol L e (sh_link shdr) (the (elf_getdata L scn)) offset) [0..<unat (sh_size shdr) div unat (sh_entsize shdr)]))"

definition section_fine :: "('z) libelf_scheme \<Rightarrow> nat \<Rightarrow> bool" where
  "section_fine L scn \<longleftrightarrow> (case gelf_getshdr L scn of None \<Rightarrow> False
     | Some shdr \<Rightarrow> sh_type shdr = SHT_SYMTAB \<longrightarrow> elf_getdata L scn \<noteq> None \<and> sh_entsize shdr \<noteq> 0)"

lemma perf_sections_fine:
  "\<forall>scn\<in>set scns. section_fine L scn \<Longrightarrow>
   perf_sections L e offset scns = Inr (True, concat (map (section_lines L e offset) scns))"
  by (induction scns) (auto simp: section_fine_def section_lines_def Let_def unat_div split: option.splits)

text \<open>An image whose symbol table claims entries of size 0 divides by 0.\<close>

lemma perf_divides_by_entsize:
  assumes "gelf_getshdr L scn = Some shdr" "sh_type shdr = SHT_SYMTAB" "elf_getdata L scn \<noteq> None" "sh_entsize shdr = 0"
  shows "perf_sections L e offset (scn # scns) = Inl DivByZero"
  using assms by auto

text \<open>The numbers of a line read back.\<close>

definition unhex :: "bytes \<Rightarrow> nat" where
  "unhex ds = foldl (\<lambda>n d. 16 * n + (if d < 58 then unat d - 48 else unat d - 87)) 0 ds"

lemma unhex_snoc: "unhex (ds @ [d]) = 16 * unhex ds + (if d < 58 then unat d - 48 else unat d - 87)"
  by (simp add: unhex_def)

lemma unhex_digit: "n < 16 \<Longrightarrow> (let d = of_nat (if n < 10 then 48 + n else 87 + n) :: u8 in if d < 58 then unat d - 48 else unat d - 87) = n"
  by (auto simp: Let_def word_less_nat_alt unat_of_nat)

lemma unhex_hex_nat: "unhex (hex_nat n) = n"
proof (induction n rule: hex_nat.induct)
  case (1 n)
  show ?case
  proof (cases "n < 16")
    case True
    then show ?thesis using unhex_digit [of n] unhex_snoc [of "[]"] by (subst hex_nat.simps) (simp add: unhex_def Let_def)
  next
    case False
    then show ?thesis
      using unhex_digit [of "n mod 16"] 1 by (subst hex_nat.simps) (simp add: unhex_snoc Let_def)
  qed
qed

lemma hex_pad_reads_back: "unhex (hex_pad k n) = n" "k \<le> length (hex_pad k n)"
proof -
  have "unhex (replicate j 48 @ ds) = unhex ds" for j ds
    by (induction j) (simp_all add: unhex_def)
  then show "unhex (hex_pad k n) = n" by (simp add: hex_pad_def unhex_hex_nat)
qed (simp add: hex_pad_def)

section \<open>Reading the map\<close>

function split_lines :: "bytes \<Rightarrow> bytes list" where
  "split_lines bs = (if bs = [] then [] else takeWhile (\<lambda>b. b \<noteq> 10) bs # split_lines (tl (dropWhile (\<lambda>b. b \<noteq> 10) bs)))"
  by pat_completeness auto
termination
  by (relation "measure length")
    (auto simp: dropWhile_eq_drop neq_Nil_conv intro!: le_imp_less_Suc le_trans [OF diff_le_self] split: if_splits)

declare split_lines.simps [simp del]

lemma split_lines_line: "10 \<notin> set l \<Longrightarrow> split_lines (l @ 10 # bs) = l # split_lines bs"
proof -
  assume "10 \<notin> set l"
  then have "takeWhile (\<lambda>b. b \<noteq> 10) (l @ 10 # bs) = l" "dropWhile (\<lambda>b. b \<noteq> 10) (l @ 10 # bs) = 10 # bs"
    by (induction l) simp_all
  then show ?thesis by (subst split_lines.simps) simp
qed

definition map_fields :: "bytes \<Rightarrow> nat \<times> nat \<times> bytes" where
  "map_fields l =
     (let r = tl (dropWhile (\<lambda>b. b \<noteq> 32) l)
      in (unhex (takeWhile (\<lambda>b. b \<noteq> 32) l), unhex (takeWhile (\<lambda>b. b \<noteq> 32) r), tl (dropWhile (\<lambda>b. b \<noteq> 32) r)))"

lemma hex_nat_printable: "b \<in> set (hex_nat n) \<Longrightarrow> 48 \<le> b"
proof (induction n rule: hex_nat.induct)
  case (1 n)
  have d: "48 \<le> (of_nat (if k < 10 then 48 + k else 87 + k) :: u8)" if "k < 16" for k
    using that by (auto simp: word_le_nat_alt unat_of_nat)
  show ?case using 1 d [of n] d [of "n mod 16"] hex_nat.simps [of n] by (auto split: if_splits)
qed

lemma hex_pad_printable: "b \<in> set (hex_pad k n) \<Longrightarrow> b \<noteq> 32 \<and> b \<noteq> 10"
  using hex_nat_printable [of b n] by (auto simp: hex_pad_def split: if_splits)

lemma map_fields_line: "map_fields (hex_pad i n @ 32 # hex_pad j m @ 32 # name) = (n, m, name)"
proof -
  have "takeWhile (\<lambda>b. b \<noteq> 32) (hex_pad k n @ 32 # r) = hex_pad k n" "dropWhile (\<lambda>b. b \<noteq> 32) (hex_pad k n @ 32 # r) = 32 # r" for k n r
    using hex_pad_printable by (auto simp: takeWhile_append2 dropWhile_append2)
  then show ?thesis by (simp add: map_fields_def Let_def hex_pad_reads_back)
qed

lemma perf_line_lines:
  "10 \<notin> set name \<Longrightarrow> split_lines (perf_line a n name @ bs) =
     (hex_pad 16 (unat a) @ 32 # hex_pad 8 (unat n) @ 32 # name) # split_lines bs"
  using split_lines_line [of "hex_pad 16 (unat a) @ 32 # hex_pad 8 (unat n) @ 32 # name" bs] hex_pad_printable
  by (fastforce simp: perf_line_def)

text \<open>The symbols the libelf of this image yields: address, size and name.\<close>

definition symbol_entry :: "('z) libelf_scheme \<Rightarrow> nat \<Rightarrow> u32 \<Rightarrow> u64 \<Rightarrow> GElf_Sym \<Rightarrow> nat \<times> nat \<times> bytes" where
  "symbol_entry L e link offset s = (unat (st_value s + offset), unat (st_size s),
     (case elf_strptr L e link (st_name s) of None \<Rightarrow> no_name | Some name \<Rightarrow> name))"

definition section_symbols :: "('z) libelf_scheme \<Rightarrow> nat \<Rightarrow> u64 \<Rightarrow> nat \<Rightarrow> (nat \<times> nat \<times> bytes) list" where
  "section_symbols L e offset scn =
     (case gelf_getshdr L scn of None \<Rightarrow> []
      | Some shdr \<Rightarrow> if sh_type shdr \<noteq> SHT_SYMTAB then []
          else map (symbol_entry L e (sh_link shdr) offset)
            (List.map_filter (gelf_getsym L (the (elf_getdata L scn))) [0..<unat (sh_size shdr) div unat (sh_entsize shdr)]))"

lemma symbols_lines:
  assumes "\<And>link i name. elf_strptr L e link i = Some name \<Longrightarrow> 10 \<notin> set name"
  shows "map map_fields (split_lines (concat (map (perf_symbol L e link dat offset) is) @ bs)) =
     map (symbol_entry L e link offset) (List.map_filter (gelf_getsym L dat) is) @ map map_fields (split_lines bs)"
proof (induction "is")
  case Nil
  show ?case by (simp add: map_filter_simps)
next
  case (Cons i "is")
  show ?case
  proof (cases "gelf_getsym L dat i")
    case None
    then show ?thesis using Cons by (simp add: perf_symbol_def map_filter_simps)
  next
    case (Some s)
    let ?n = "case elf_strptr L e link (st_name s) of None \<Rightarrow> no_name | Some name \<Rightarrow> name"
    have "10 \<notin> set ?n" using assms by (auto simp: no_name_def split: option.splits)
    then show ?thesis using Some Cons
      by (simp add: perf_symbol_def map_filter_simps perf_line_lines map_fields_line symbol_entry_def)
  qed
qed

lemma sections_lines:
  assumes "\<And>link i name. elf_strptr L e link i = Some name \<Longrightarrow> 10 \<notin> set name"
  shows "map map_fields (split_lines (concat (map (section_lines L e offset) scns))) = concat (map (section_symbols L e offset) scns)"
proof (induction scns)
  case Nil
  show ?case by (simp add: split_lines.simps)
next
  case (Cons scn scns)
  then show ?case
    by (auto simp: section_lines_def section_symbols_def symbols_lines [OF assms] split: option.split)
qed

text \<open>C32. The perf map.  When libelf can read the image, the function returns 0, and a reader who splits the map into
  lines and fields finds exactly the symbols of the symbol tables, in order, each with its address moved by the
  load offset (modulo the address space), its size and its name.\<close>

theorem perf_map_readback:
  assumes "elf_memory L buffer = e" "e \<noteq> 0" "fopen_map L" "\<not> elf_version_none L" "elf_getshdrstrndx L e = 0"
    and "\<forall>scn\<in>set (elf_sections L e). section_fine L scn"
    and "\<And>link i name. elf_strptr L e link i = Some name \<Longrightarrow> 10 \<notin> set name"
  shows "\<exists>bs. perf_output_libelf L buffer offset = Inr (0, Some bs) \<and>
     map map_fields (split_lines bs) = concat (map (section_symbols L e offset) (elf_sections L e))"
  using assms perf_sections_fine [OF assms(6), of e offset] sections_lines [OF assms(7)]
  by (simp add: perf_output_libelf_def Let_def)

definition demo_libelf :: libelf where
  "demo_libelf = \<lparr>elf_memory = (\<lambda>_. 1), elf_version_none = False, elf_getshdrstrndx = (\<lambda>_. 0), elf_sections = (\<lambda>_. [5]),
     gelf_getshdr = (\<lambda>_. Some \<lparr>sh_type = 2, sh_size = 48, sh_entsize = 24, sh_link = 0\<rparr>), elf_getdata = (\<lambda>_. Some 7),
     gelf_getsym = (\<lambda>_ i. Some \<lparr>st_name = of_nat i, st_value = 16 * of_nat i, st_size = 4\<rparr>),
     elf_strptr = (\<lambda>_ _ i. if i = 0 then None else Some [102]), fopen_map = True\<rparr>"

theorem perf_map_readback_witness:
  "\<exists>bs. perf_output_libelf demo_libelf [] 4096 = Inr (0, Some bs) \<and> map map_fields (split_lines bs) = [(4096, 4, no_name), (4112, 4, [102])]"
proof -
  have n: "elf_strptr demo_libelf 1 link i = Some name \<Longrightarrow> 10 \<notin> set name" for link i name
    by (auto simp: demo_libelf_def split: if_splits)
  have e: "concat (map (section_symbols demo_libelf 1 4096) (elf_sections demo_libelf 1)) = [(4096, 4, no_name), (4112, 4, [102])]"
    by (simp add: demo_libelf_def section_symbols_def symbol_entry_def map_filter_simps upt_rec)
  show ?thesis
    unfolding e [symmetric]
    by (rule perf_map_readback [OF _ _ _ _ _ _ n]) (simp_all add: demo_libelf_def section_fine_def)
qed

end
